(* ===== verification/Prelude.thy ===== *)
theory Prelude
  imports Main "HOL-Library.Sublist"
begin

text \<open>
  Shared vocabulary of the development: Go panics as values of a sum type, the sequencing of
  fallible computations, slices and indexing with their bounds checks, Go maps as HOL maps with
  explicit iteration sequences, and the collections of simplification rules the components use.
\<close>

section \<open>Panics as values\<close>

text \<open>
  An unrecovered Go panic ends the process. A computation that can panic returns
  \<open>Inl\<close> of the panic or \<open>Inr\<close> of its result.
\<close>

datatype panic = NilDeref | IndexRange | SliceBounds | BadAssertion | DivideByZero

type_synonym 'a go = "panic + 'a"

definition go_bind :: "'e + 'a \<Rightarrow> ('a \<Rightarrow> 'e + 'b) \<Rightarrow> 'e + 'b" where
  "go_bind m f = (case m of Inl e \<Rightarrow> Inl e | Inr x \<Rightarrow> f x)"

named_theorems go_simps \<open>equations that run fallible computations\<close>
named_theorems go_frame \<open>fields and resources an operation leaves alone\<close>

lemma go_bind_simps [simp, go_simps]:
  "go_bind (Inl e) f = Inl e"
  "go_bind (Inr x) f = f x"
  by (simp_all add: go_bind_def)

lemma go_bind_Inr_iff: "go_bind m f = Inr y \<longleftrightarrow> (\<exists>x. m = Inr x \<and> f x = Inr y)"
  by (cases m) auto

lemma go_bind_Inl_iff:
  "go_bind m f = Inl e \<longleftrightarrow> m = Inl e \<or> (\<exists>x. m = Inr x \<and> f x = Inl e)"
  by (cases m) auto

lemma go_bind_assoc: "go_bind (go_bind m f) g = go_bind m (\<lambda>x. go_bind (f x) g)"
  by (cases m) auto

lemma go_bind_cong [fundef_cong]:
  "m = m' \<Longrightarrow> (\<And>x. m' = Inr x \<Longrightarrow> f x = f' x) \<Longrightarrow> go_bind m f = go_bind m' f'"
  by (cases m') auto

text \<open>A loop over a slice whose body may panic: the first panic ends it.\<close>

fun go_map :: "('a \<Rightarrow> 'e + 'b) \<Rightarrow> 'a list \<Rightarrow> 'e + 'b list" where
  "go_map f [] = Inr []"
| "go_map f (x # xs) = go_bind (f x) (\<lambda>y. go_bind (go_map f xs) (\<lambda>ys. Inr (y # ys)))"

lemma go_map_total: "(\<And>x. x \<in> set xs \<Longrightarrow> f x = Inr (g x)) \<Longrightarrow> go_map f xs = Inr (map g xs)"
  by (induction xs) auto

lemma go_map_length: "go_map f xs = Inr ys \<Longrightarrow> length ys = length xs"
  by (induction xs arbitrary: ys) (auto simp: go_bind_Inr_iff)

fun go_fold :: "('a \<Rightarrow> 's \<Rightarrow> 'e + 's) \<Rightarrow> 'a list \<Rightarrow> 's \<Rightarrow> 'e + 's" where
  "go_fold f [] s = Inr s"
| "go_fold f (x # xs) s = go_bind (f x s) (go_fold f xs)"

lemma go_fold_append: "go_fold f (xs @ ys) s = go_bind (go_fold f xs s) (go_fold f ys)"
proof (induction xs arbitrary: s)
  case (Cons x xs)
  then show ?case by (cases "f x s") simp_all
qed simp

lemma go_fold_inv:
  assumes "go_fold f xs s = Inr t" and "I s"
    and "\<And>x s s'. x \<in> set xs \<Longrightarrow> I s \<Longrightarrow> f x s = Inr s' \<Longrightarrow> I s'"
  shows "I t"
  using assms by (induction xs arbitrary: s) (auto simp: go_bind_Inr_iff)

section \<open>Nil pointers, indices, slices\<close>

text \<open>A pointer that may be nil is an option; following nil panics.\<close>

fun deref :: "'a option \<Rightarrow> 'a go" where
  "deref None = Inl NilDeref"
| "deref (Some x) = Inr x"

lemma deref_Inr_iff [simp]: "deref p = Inr x \<longleftrightarrow> p = Some x"
  by (cases p) auto

definition go_index :: "'a list \<Rightarrow> int \<Rightarrow> 'a go" where
  "go_index xs i = (if 0 \<le> i \<and> i < int (length xs) then Inr (xs ! nat i) else Inl IndexRange)"

lemma go_index_in: "i < length xs \<Longrightarrow> go_index xs (int i) = Inr (xs ! i)"
  by (simp add: go_index_def)

definition go_slice :: "'a list \<Rightarrow> int \<Rightarrow> int \<Rightarrow> 'a list go" where
  "go_slice xs lo hi =
     (if 0 \<le> lo \<and> lo \<le> hi \<and> hi \<le> int (length xs)
      then Inr (take (nat hi - nat lo) (drop (nat lo) xs)) else Inl SliceBounds)"

lemma go_slice_to [simp]: "go_slice (xs @ ys) 0 (int (length xs)) = Inr xs"
  by (simp add: go_slice_def)

lemma go_slice_from:
  "i \<le> length xs \<Longrightarrow> go_slice xs (int i) (int (length xs)) = Inr (drop i xs)"
  by (simp add: go_slice_def)

lemma go_slice_after [simp]:
  "go_slice (xs @ c # ys) (int (length xs) + 1) (int (length (xs @ c # ys))) = Inr ys"
  by (simp add: go_slice_def nat_add_distrib)

lemma go_slice_neg: "hi < 0 \<Longrightarrow> go_slice xs lo hi = Inl SliceBounds"
  by (simp add: go_slice_def)

section \<open>Maps and their iteration\<close>

text \<open>
  The order in which \<open>for k, v := range m\<close> visits a Go map is unspecified. A loop over a map
  takes the sequence of that run as an argument; \<open>ranges it m\<close> says that the sequence is one the
  runtime may choose.
\<close>

definition ranges :: "('k \<times> 'v) list \<Rightarrow> ('k \<rightharpoonup> 'v) \<Rightarrow> bool" where
  "ranges it m \<longleftrightarrow> distinct (map fst it) \<and> map_of it = m"

lemma ranges_in_set: "ranges it m \<Longrightarrow> (k, v) \<in> set it \<longleftrightarrow> m k = Some v"
  by (auto simp: ranges_def)

lemma ranges_unique_set: "ranges it m \<Longrightarrow> ranges it' m \<Longrightarrow> set it = set it'"
  by (auto simp: ranges_in_set)

lemma ranges_empty [simp]: "ranges [] m \<longleftrightarrow> m = Map.empty"
  by (auto simp: ranges_def)

lemma ranges_exists:
  assumes "finite (dom m)"
  shows "\<exists>it. ranges it m"
proof -
  obtain ks where ks: "distinct ks" "set ks = dom m"
    using finite_distinct_list [OF assms] by blast
  have "map_of (map (\<lambda>k. (k, the (m k))) ks) = m"
  proof
    fix k
    show "map_of (map (\<lambda>k. (k, the (m k))) ks) k = m k"
      using ks(2) by (cases "m k") (auto simp: map_of_map_restrict restrict_map_def)
  qed
  then show ?thesis
    using ks(1) by (auto simp: ranges_def comp_def intro!: exI [of _ "map (\<lambda>k. (k, the (m k))) ks"])
qed

section \<open>Lists\<close>

lemma takeWhile_append_stop:
  "\<forall>x \<in> set xs. P x \<Longrightarrow> ys = [] \<or> \<not> P (hd ys) \<Longrightarrow> takeWhile P (xs @ ys) = xs"
  by (cases ys) (auto simp: takeWhile_append)

end
