(* ===== verification/GoLib.thy ===== *)
theory GoLib
  imports Prelude
begin

text \<open>
  The parts of Go's standard library the program calls, on byte strings (a Go string is a
  sequence of bytes, an Isabelle \<^typ>\<open>string\<close> a list of 8-bit characters): \<open>strings.Index\<close>,
  \<open>strings.Split\<close>, \<open>strings.TrimSpace\<close>, \<open>strconv.Itoa\<close>, \<open>strconv.Atoi\<close>, \<open>os.Expand\<close>,
  \<open>path.Clean\<close>, \<open>path.Split\<close> and \<open>path.Dir\<close>. Each lemma states what the components rely on:
  round trips of printing and parsing, splitting of joined lines, expansion of one variable.
\<close>

section \<open>strings\<close>

fun index_char :: "char \<Rightarrow> string \<Rightarrow> nat option" where
  "index_char c [] = None"
| "index_char c (x # xs) = (if x = c then Some 0 else map_option Suc (index_char c xs))"

definition strings_Index :: "string \<Rightarrow> char \<Rightarrow> int" where
  "strings_Index s c = (case index_char c s of None \<Rightarrow> - 1 | Some i \<Rightarrow> int i)"

definition strings_HasPrefix :: "string \<Rightarrow> string \<Rightarrow> bool" where
  "strings_HasPrefix s p = prefix p s"

definition strings_HasSuffix :: "string \<Rightarrow> string \<Rightarrow> bool" where
  "strings_HasSuffix s p = suffix p s"

lemma index_char_None: "index_char c s = None \<longleftrightarrow> c \<notin> set s"
  by (induction s) auto

lemma index_char_append: "c \<notin> set s \<Longrightarrow> index_char c (s @ c # t) = Some (length s)"
  by (induction s) auto

lemma index_char_SomeD:
  "index_char c s = Some i \<Longrightarrow>
     i < length s \<and> s ! i = c \<and> c \<notin> set (take i s) \<and> s = take i s @ c # drop (Suc i) s"
  by (induction s arbitrary: i) (auto split: if_splits)

lemma strings_Index_absent: "c \<notin> set s \<Longrightarrow> strings_Index s c = - 1"
  using index_char_None [of c s] by (simp add: strings_Index_def)

lemma strings_Index_append: "c \<notin> set s \<Longrightarrow> strings_Index (s @ c # t) c = int (length s)"
  by (simp add: strings_Index_def index_char_append)

text \<open>\<open>strings.Split\<close> with a separator of one byte: never an empty slice.\<close>

fun strings_Split :: "char \<Rightarrow> string \<Rightarrow> string list" where
  "strings_Split c [] = [[]]"
| "strings_Split c (x # xs) =
     (if x = c then [] # strings_Split c xs
      else (x # hd (strings_Split c xs)) # tl (strings_Split c xs))"

lemma strings_Split_nonempty [simp]: "strings_Split c s \<noteq> []"
  by (cases s) auto

lemma strings_Split_one: "c \<notin> set s \<Longrightarrow> strings_Split c s = [s]"
  by (induction s) auto

lemma strings_Split_append:
  "c \<notin> set s \<Longrightarrow> strings_Split c (s @ c # t) = s # strings_Split c t"
  by (induction s) auto

text \<open>\<open>strings.Join\<close> is the inverse on pieces that do not hold the separator.\<close>

fun strings_Join :: "char \<Rightarrow> string list \<Rightarrow> string" where
  "strings_Join c [] = []"
| "strings_Join c [s] = s"
| "strings_Join c (s # t # ts) = s @ c # strings_Join c (t # ts)"

lemma strings_Split_Join:
  "ss \<noteq> [] \<Longrightarrow> \<forall>s \<in> set ss. c \<notin> set s \<Longrightarrow> strings_Split c (strings_Join c ss) = ss"
  by (induction c ss rule: strings_Join.induct) (auto simp: strings_Split_one strings_Split_append)

text \<open>
  \<open>strings.TrimSpace\<close> removes leading and trailing white space: the six ASCII characters, and
  the UTF-8 encodings of the other Unicode spaces.
\<close>

definition ascii_spaces :: "string list" where
  "ascii_spaces = [[CHR 0x09], [CHR 0x0A], [CHR 0x0B], [CHR 0x0C], [CHR 0x0D], [CHR 0x20]]"

definition unicode_spaces :: "string list" where
  "unicode_spaces =
     [[CHR 0xC2, CHR 0x85], [CHR 0xC2, CHR 0xA0], [CHR 0xE1, CHR 0x9A, CHR 0x80],
      [CHR 0xE2, CHR 0x80, CHR 0xA8], [CHR 0xE2, CHR 0x80, CHR 0xA9],
      [CHR 0xE2, CHR 0x80, CHR 0xAF], [CHR 0xE2, CHR 0x81, CHR 0x9F],
      [CHR 0xE3, CHR 0x80, CHR 0x80]] @
     map (\<lambda>n. [CHR 0xE2, CHR 0x80, char_of (128 + n)]) [0..<11]"

definition go_spaces :: "string list" where
  "go_spaces = ascii_spaces @ unicode_spaces"

definition leading_space :: "string \<Rightarrow> nat" where
  "leading_space s = (case find (\<lambda>w. prefix w s) go_spaces of None \<Rightarrow> 0 | Some w \<Rightarrow> length w)"

definition trailing_space :: "string \<Rightarrow> nat" where
  "trailing_space s = (case find (\<lambda>w. suffix w s) go_spaces of None \<Rightarrow> 0 | Some w \<Rightarrow> length w)"

function trim_left :: "string \<Rightarrow> string" where
  "trim_left s = (if s = [] \<or> leading_space s = 0 then s else trim_left (drop (leading_space s) s))"
  by pat_completeness auto
termination
  by (relation "measure length") auto

function trim_right :: "string \<Rightarrow> string" where
  "trim_right s =
     (if s = [] \<or> trailing_space s = 0 then s
      else trim_right (take (length s - trailing_space s) s))"
  by pat_completeness auto
termination
  by (relation "measure length") auto

declare trim_left.simps [simp del] trim_right.simps [simp del]

definition strings_TrimSpace :: "string \<Rightarrow> string" where
  "strings_TrimSpace s = trim_right (trim_left s)"

text \<open>Visible ASCII characters are not trimmed, and blanks are.\<close>

definition visible :: "char \<Rightarrow> bool" where
  "visible c \<longleftrightarrow> 33 \<le> (of_char c :: nat) \<and> (of_char c :: nat) < 128"

lemma go_spaces_ends:
  assumes "w \<in> set go_spaces"
  shows "w \<noteq> []" and "\<not> visible (hd w)" and "\<not> visible (last w)"
  using assms
  by (auto simp: go_spaces_def ascii_spaces_def unicode_spaces_def visible_def upt_conv_Cons)

lemma leading_space_visible:
  assumes "visible c"
  shows "leading_space (c # s) = 0"
proof -
  have "\<not> prefix w (c # s)" if "w \<in> set go_spaces" for w
    using go_spaces_ends [OF that] assms by (cases w) auto
  then have "find (\<lambda>w. prefix w (c # s)) go_spaces = None"
    by (simp only: find_None_iff) blast
  then show ?thesis by (simp add: leading_space_def)
qed

lemma trailing_space_visible:
  assumes "visible c"
  shows "trailing_space (s @ [c]) = 0"
proof -
  have "\<not> suffix w (s @ [c])" if "w \<in> set go_spaces" for w
    using go_spaces_ends [OF that] assms by (cases w rule: rev_cases) auto
  then have "find (\<lambda>w. suffix w (s @ [c])) go_spaces = None"
    by (simp only: find_None_iff) blast
  then show ?thesis by (simp only: trailing_space_def) simp
qed

lemma trim_left_visible [simp]: "visible c \<Longrightarrow> trim_left (c # s) = c # s"
  by (subst trim_left.simps) (simp add: leading_space_visible)

lemma trim_right_visible [simp]: "visible c \<Longrightarrow> trim_right (s @ [c]) = s @ [c]"
  by (subst trim_right.simps) (simp add: trailing_space_visible)

lemma strings_TrimSpace_visible:
  "visible c \<Longrightarrow> visible d \<Longrightarrow> s = c # t \<Longrightarrow> s = u @ [d] \<Longrightarrow> strings_TrimSpace s = s"
  by (metis strings_TrimSpace_def trim_left_visible trim_right_visible)

lemma leading_space_ascii:
  assumes "[c] \<in> set ascii_spaces"
  shows "leading_space (c # s) = 1"
proof -
  have hd_ascii: "\<forall>w \<in> set unicode_spaces. [hd w] \<notin> set ascii_spaces"
    by (simp add: ascii_spaces_def unicode_spaces_def upt_conv_Cons)
  have "\<exists>w. find (\<lambda>w. prefix w (c # s)) ascii_spaces = Some w \<and> length w = 1"
    using assms by (auto simp: ascii_spaces_def)
  then obtain w where "find (\<lambda>w. prefix w (c # s)) ascii_spaces = Some w" "length w = 1"
    by blast
  moreover have "find P (xs @ ys) = Some w" if "find P xs = Some w" for P xs ys and w :: string
    using that by (induction xs) (auto split: if_splits)
  ultimately show ?thesis by (simp add: leading_space_def go_spaces_def)
qed

lemma trim_left_blank [simp]: "trim_left (CHR '' '' # s) = trim_left s"
proof -
  have "[CHR '' ''] \<in> set ascii_spaces" by (simp add: ascii_spaces_def)
  then show ?thesis
    by (subst trim_left.simps) (simp add: leading_space_ascii)
qed

lemma trim_left_blanks [simp]: "trim_left (replicate n (CHR '' '') @ s) = trim_left s"
  by (induction n) auto

section \<open>strconv\<close>

definition is_digit :: "char \<Rightarrow> bool" where
  "is_digit c \<longleftrightarrow> 48 \<le> (of_char c :: nat) \<and> (of_char c :: nat) \<le> 57"

definition digit_val :: "char \<Rightarrow> nat" where
  "digit_val c = of_char c - 48"

definition digit_char :: "nat \<Rightarrow> char" where
  "digit_char d = char_of (48 + d)"

lemma digit_char_simps:
  assumes "d < 10"
  shows "is_digit (digit_char d)" and "digit_val (digit_char d) = d"
  using assms by (simp_all add: is_digit_def digit_val_def digit_char_def)

lemma digit_val_less: "is_digit c \<Longrightarrow> digit_val c < 10"
  unfolding is_digit_def digit_val_def by linarith

lemma is_digit_visible: "is_digit c \<Longrightarrow> visible c"
  by (simp add: is_digit_def visible_def)

fun nat_digits :: "nat \<Rightarrow> string" where
  "nat_digits n =
     (if n < 10 then [digit_char n] else nat_digits (n div 10) @ [digit_char (n mod 10)])"

declare nat_digits.simps [simp del]

definition Itoa :: "int \<Rightarrow> string" where
  "Itoa i = (if i < 0 then CHR ''-'' # nat_digits (nat (- i)) else nat_digits (nat i))"

text \<open>The value of a string of decimal digits, \<open>None\<close> at the first character that is not one.\<close>

fun digits_val :: "nat \<Rightarrow> string \<Rightarrow> nat option" where
  "digits_val a [] = Some a"
| "digits_val a (c # cs) = (if is_digit c then digits_val (10 * a + digit_val c) cs else None)"

lemma digits_val_append:
  "digits_val a (xs @ ys) = (case digits_val a xs of None \<Rightarrow> None | Some b \<Rightarrow> digits_val b ys)"
  by (induction xs arbitrary: a) auto

lemma digits_val_nat_digits: "digits_val 0 (nat_digits n) = Some n"
proof (induction n rule: nat_digits.induct)
  case (1 n)
  show ?case
  proof (cases "n < 10")
    case True
    then show ?thesis by (simp add: nat_digits.simps [of n] digit_char_simps)
  next
    case False
    with 1 have "digits_val 0 (nat_digits (n div 10)) = Some (n div 10)" by simp
    with False show ?thesis
      by (simp add: nat_digits.simps [of n] digits_val_append digit_char_simps)
  qed
qed

lemma nat_digits_nonempty [simp]: "nat_digits n \<noteq> []"
  by (subst nat_digits.simps) simp

lemma nat_digits_all: "\<forall>c \<in> set (nat_digits n). is_digit c"
proof (induction n rule: nat_digits.induct)
  case (1 n)
  then show ?case by (subst nat_digits.simps) (auto simp: digit_char_simps)
qed

lemma digits_val_Some_all: "digits_val a s = Some n \<Longrightarrow> \<forall>c \<in> set s. is_digit c"
  by (induction s arbitrary: a) (auto split: if_splits)

lemma digits_val_None: "digits_val a s = None \<longleftrightarrow> (\<exists>c \<in> set s. \<not> is_digit c)"
  by (induction s arbitrary: a) auto

text \<open>
  \<open>strconv.Atoi\<close> on an \<open>int\<close> of \<open>w\<close> bits (32 or 64, by the Android ABI). Every failure
  carries the input; the program only tests whether there was one.
\<close>

datatype num_error = NumError string

definition Atoi_unsigned :: "string \<Rightarrow> bool \<Rightarrow> nat \<Rightarrow> string \<Rightarrow> num_error + int" where
  "Atoi_unsigned all neg w ds =
     (case (if ds = [] then None else digits_val 0 ds) of
        None \<Rightarrow> Inl (NumError all)
      | Some n \<Rightarrow>
          if neg then (if n \<le> 2 ^ (w - 1) then Inr (- int n) else Inl (NumError all))
          else (if n < 2 ^ (w - 1) then Inr (int n) else Inl (NumError all)))"

definition Atoi :: "nat \<Rightarrow> string \<Rightarrow> num_error + int" where
  "Atoi w s =
     (case s of
        [] \<Rightarrow> Inl (NumError s)
      | c # cs \<Rightarrow>
          if c = CHR ''-'' then Atoi_unsigned s True w cs
          else if c = CHR ''+'' then Atoi_unsigned s False w cs
          else Atoi_unsigned s False w s)"

lemma digit_not_sign:
  "is_digit c \<Longrightarrow> c \<noteq> CHR ''-'' \<and> c \<noteq> CHR ''+'' \<and> c \<noteq> CHR '' ''"
  by (auto simp: is_digit_def)

lemma Atoi_nat_digits:
  assumes "n < 2 ^ (w - 1)"
  shows "Atoi w (nat_digits n) = Inr (int n)"
proof -
  obtain c cs where s: "nat_digits n = c # cs"
    using nat_digits_nonempty [of n] by (cases "nat_digits n") auto
  then have "is_digit c" using nat_digits_all [of n] by simp
  with digit_not_sign have "Atoi w (nat_digits n) = Atoi_unsigned (nat_digits n) False w (nat_digits n)"
    by (simp add: Atoi_def s)
  with assms show ?thesis
    by (simp add: Atoi_unsigned_def digits_val_nat_digits)
qed

lemma Atoi_nat_digits_overflow:
  assumes "2 ^ (w - 1) \<le> n"
  shows "Atoi w (nat_digits n) = Inl (NumError (nat_digits n))"
proof -
  obtain c cs where s: "nat_digits n = c # cs"
    using nat_digits_nonempty [of n] by (cases "nat_digits n") auto
  then have "is_digit c" using nat_digits_all [of n] by simp
  with digit_not_sign have "Atoi w (nat_digits n) = Atoi_unsigned (nat_digits n) False w (nat_digits n)"
    by (simp add: Atoi_def s)
  with assms show ?thesis
    by (simp add: Atoi_unsigned_def digits_val_nat_digits)
qed

lemma Atoi_Itoa:
  assumes "- (2 ^ (w - 1)) \<le> i" and "i < 2 ^ (w - 1)"
  shows "Atoi w (Itoa i) = Inr i"
proof (cases "i < 0")
  case True
  with assms(1) have "nat (- i) \<le> 2 ^ (w - 1)" by (simp add: nat_le_iff)
  with True show ?thesis
    by (simp add: Itoa_def Atoi_def Atoi_unsigned_def digits_val_nat_digits)
next
  case False
  with assms(2) have "nat i < 2 ^ (w - 1)" by (simp add: nat_less_iff)
  with False show ?thesis by (simp add: Itoa_def Atoi_nat_digits)
qed

lemma Atoi_unsigned_range:
  assumes "Atoi_unsigned s neg w ds = Inr i"
  shows "- (2 ^ (w - 1)) \<le> i \<and> i < 2 ^ (w - 1)"
proof -
  obtain n where dv: "(if ds = [] then None else digits_val 0 ds) = Some n"
    using assms by (cases "if ds = [] then None else digits_val 0 ds") (auto simp: Atoi_unsigned_def)
  have n: "n \<le> 2 ^ (w - 1)" "i = - int n \<or> n < 2 ^ (w - 1) \<and> i = int n"
    using assms by (simp_all only: Atoi_unsigned_def dv option.case split: if_splits) auto
  have le: "int n \<le> 2 ^ (w - 1)"
    using of_nat_mono [OF n(1), where ?'a = int] by simp
  have pos: "(0::int) < 2 ^ (w - 1)" by simp
  from n(2) show ?thesis
  proof
    assume "i = - int n"
    then show ?thesis using le pos by linarith
  next
    assume "n < 2 ^ (w - 1) \<and> i = int n"
    then have "int n < 2 ^ (w - 1)" and "i = int n"
      using of_nat_less_iff [of n "2 ^ (w - 1)", where ?'a = int] by simp_all
    then show ?thesis using pos by linarith
  qed
qed

lemma Atoi_range: "Atoi w s = Inr i \<Longrightarrow> - (2 ^ (w - 1)) \<le> i \<and> i < 2 ^ (w - 1)"
  by (auto simp only: Atoi_def dest: Atoi_unsigned_range split: list.splits if_splits)

lemma Itoa_chars: "\<forall>c \<in> set (Itoa i). is_digit c \<or> c = CHR ''-''"
  using nat_digits_all by (auto simp: Itoa_def)

section \<open>os.Expand\<close>

definition isShellSpecialVar :: "char \<Rightarrow> bool" where
  "isShellSpecialVar c \<longleftrightarrow> c \<in> set ''*#$@!?-0123456789''"

definition isAlphaNum :: "char \<Rightarrow> bool" where
  "isAlphaNum c \<longleftrightarrow>
     c = CHR ''_'' \<or> is_digit c \<or>
     97 \<le> (of_char c :: nat) \<and> (of_char c :: nat) \<le> 122 \<or>
     65 \<le> (of_char c :: nat) \<and> (of_char c :: nat) \<le> 90"

text \<open>
  The name that begins a string after a dollar sign and the number of bytes it takes; an empty
  name with a positive width is bad syntax, whose bytes are eaten.
\<close>

definition brace_name :: "string \<Rightarrow> string \<times> nat" where
  "brace_name cs =
     (case index_char CHR ''}'' cs of
        None \<Rightarrow> ([], 1)
      | Some i \<Rightarrow> if i = 0 then ([], 2) else (take i cs, i + 2))"

definition getShellName :: "string \<Rightarrow> string \<times> nat" where
  "getShellName s =
     (case s of
        [] \<Rightarrow> ([], 0)
      | c # cs \<Rightarrow>
          if c = CHR ''{'' then
            (if 2 < length s \<and> isShellSpecialVar (s ! 1) \<and> s ! 2 = CHR ''}'' then ([s ! 1], 3)
             else brace_name cs)
          else if isShellSpecialVar c then ([c], 1)
          else (takeWhile isAlphaNum s, length (takeWhile isAlphaNum s)))"

text \<open>
  \<open>os.Expand\<close>: the mapping may panic (the renderer's lookup functions can), which ends the
  expansion at the first variable that does.
\<close>

function os_Expand :: "(string \<Rightarrow> 'e + string) \<Rightarrow> string \<Rightarrow> 'e + string" where
  "os_Expand m [] = Inr []"
| "os_Expand m (c # cs) =
     (if c = CHR ''$'' \<and> cs \<noteq> [] then
        (case getShellName cs of
           (name, w) \<Rightarrow>
             if name = [] \<and> 0 < w then os_Expand m (drop w cs)
             else if name = [] then go_bind (os_Expand m (drop w cs)) (\<lambda>r. Inr (c # r))
             else go_bind (m name) (\<lambda>v. go_bind (os_Expand m (drop w cs)) (\<lambda>r. Inr (v @ r))))
      else go_bind (os_Expand m cs) (\<lambda>r. Inr (c # r)))"
  by pat_completeness auto
termination
  by (relation "measure (\<lambda>(m, s). length s)") auto

lemma os_Expand_no_dollar:
  "CHR ''$'' \<notin> set s \<Longrightarrow> os_Expand m (s @ t) = go_bind (os_Expand m t) (\<lambda>r. Inr (s @ r))"
proof (induction s)
  case Nil
  then show ?case by (cases "os_Expand m t") auto
next
  case (Cons c s)
  then show ?case by (cases "os_Expand m t") auto
qed

corollary os_Expand_plain: "CHR ''$'' \<notin> set s \<Longrightarrow> os_Expand m s = Inr s"
  using os_Expand_no_dollar [of s m "[]"] by simp

lemma brace_name_close:
  "n \<noteq> [] \<Longrightarrow> CHR ''}'' \<notin> set n \<Longrightarrow> brace_name (n @ CHR ''}'' # t) = (n, length n + 2)"
  by (simp add: brace_name_def index_char_append)

lemma getShellName_brace:
  assumes "n \<noteq> []" and "CHR ''}'' \<notin> set n"
  shows "getShellName (CHR ''{'' # n @ CHR ''}'' # t) = (n, length n + 2)"
proof (cases "isShellSpecialVar (hd n) \<and> length n = 1")
  case True
  then obtain c where "n = [c]" by (auto simp: length_Suc_conv)
  with True show ?thesis by (simp add: getShellName_def)
next
  case False
  then have "\<not> (isShellSpecialVar ((n @ CHR ''}'' # t) ! 0) \<and> (n @ CHR ''}'' # t) ! 1 = CHR ''}'')"
    using assms by (cases n; cases "tl n") (auto simp: isShellSpecialVar_def)
  then show ?thesis using assms
    by (auto simp: getShellName_def brace_name_close)
qed

lemma os_Expand_brace:
  assumes "n \<noteq> []" and "CHR ''}'' \<notin> set n"
  shows "os_Expand m (''${'' @ n @ CHR ''}'' # t) =
     go_bind (m n) (\<lambda>v. go_bind (os_Expand m t) (\<lambda>r. Inr (v @ r)))"
  using assms by (simp add: getShellName_brace)

lemma isShellSpecialVar_not_alnum:
  assumes "isShellSpecialVar c" and "\<not> is_digit c"
  shows "\<not> isAlphaNum c"
proof -
  have "\<forall>d \<in> set ''*#$@!?-0123456789''. is_digit d \<or> \<not> isAlphaNum d"
    by (simp add: is_digit_def isAlphaNum_def)
  with assms show ?thesis by (auto simp only: isShellSpecialVar_def)
qed

lemma getShellName_alnum:
  assumes "n \<noteq> []" and "\<forall>c \<in> set n. isAlphaNum c" and "\<not> is_digit (hd n)"
    and "t = [] \<or> \<not> isAlphaNum (hd t)"
  shows "getShellName (n @ t) = (n, length n)"
proof -
  from assms(1) obtain c cs where n: "n = c # cs" by (cases n) auto
  have "isAlphaNum c" and "\<not> is_digit c" using assms(2,3) n by simp_all
  then have "\<not> isShellSpecialVar c" using isShellSpecialVar_not_alnum by blast
  moreover have "c \<noteq> CHR ''{''"
    using \<open>isAlphaNum c\<close> by (auto simp: isAlphaNum_def is_digit_def)
  moreover have "takeWhile isAlphaNum (n @ t) = n"
    using assms(2,4) by (rule takeWhile_append_stop)
  ultimately show ?thesis by (simp add: getShellName_def n)
qed

lemma os_Expand_alnum:
  assumes "n \<noteq> []" and "\<forall>c \<in> set n. isAlphaNum c" and "\<not> is_digit (hd n)"
    and "t = [] \<or> \<not> isAlphaNum (hd t)"
  shows "os_Expand m (CHR ''$'' # n @ t) =
     go_bind (m n) (\<lambda>v. go_bind (os_Expand m t) (\<lambda>r. Inr (v @ r)))"
  using assms by (simp add: getShellName_alnum)

text \<open>A mapping that never panics gives an expansion that never panics.\<close>

lemma os_Expand_total:
  assumes "\<And>n. \<exists>v. m n = Inr v"
  shows "\<exists>r. os_Expand m s = Inr r"
proof (induction s rule: length_induct)
  case (1 s)
  show ?case
  proof (cases s)
    case (Cons c cs)
    obtain n w where nw: "getShellName cs = (n, w)" by force
    obtain v where v: "m n = Inr v" using assms by blast
    have "length (drop w cs) < length s" and "length cs < length s"
      using Cons by simp_all
    with 1 obtain r r' where "os_Expand m (drop w cs) = Inr r" and "os_Expand m cs = Inr r'"
      by blast
    with nw v show ?thesis by (simp add: Cons)
  qed simp
qed

declare os_Expand.simps(2) [simp del]

section \<open>path\<close>

text \<open>
  \<open>path.Clean\<close>: the elements of the path that are neither empty nor a dot, each \<open>..\<close> taking
  the element before it away.
\<close>

fun clean_elems :: "bool \<Rightarrow> string list \<Rightarrow> string list \<Rightarrow> string list" where
  "clean_elems rooted out [] = out"
| "clean_elems rooted out (e # es) =
     (if e = [] \<or> e = ''.'' then clean_elems rooted out es
      else if e = ''..'' then
        (if out \<noteq> [] \<and> last out \<noteq> ''..'' then clean_elems rooted (butlast out) es
         else if rooted then clean_elems rooted out es
         else clean_elems rooted (out @ [e]) es)
      else clean_elems rooted (out @ [e]) es)"

definition path_Clean :: "string \<Rightarrow> string" where
  "path_Clean p =
     (if p = [] then ''.''
      else let rooted = (hd p = CHR ''/'');
               out = strings_Join CHR ''/'' (clean_elems rooted [] (strings_Split CHR ''/'' p))
           in if rooted then CHR ''/'' # out else if out = [] then ''.'' else out)"

text \<open>\<open>path.Split\<close> cuts after the last slash.\<close>

definition path_Split :: "string \<Rightarrow> string \<times> string" where
  "path_Split p =
     (rev (dropWhile (\<lambda>c. c \<noteq> CHR ''/'') (rev p)), rev (takeWhile (\<lambda>c. c \<noteq> CHR ''/'') (rev p)))"

definition path_Dir :: "string \<Rightarrow> string" where
  "path_Dir p = path_Clean (fst (path_Split p))"

lemma path_Split_append:
  assumes "CHR ''/'' \<notin> set f"
  shows "path_Split (d @ CHR ''/'' # f) = (d @ ''/'', f)"
proof -
  have "takeWhile (\<lambda>c. c \<noteq> CHR ''/'') (rev f @ CHR ''/'' # rev d) = rev f"
    using assms by (intro takeWhile_append_stop) auto
  moreover have "dropWhile (\<lambda>c. c \<noteq> CHR ''/'') (rev f @ CHR ''/'' # rev d) = CHR ''/'' # rev d"
    using assms by (subst dropWhile_append2) auto
  ultimately show ?thesis by (simp add: path_Split_def)
qed

lemma path_Split_no_slash:
  assumes "CHR ''/'' \<notin> set f"
  shows "path_Split f = ([], f)"
proof -
  have "\<forall>c \<in> set (rev f). c \<noteq> CHR ''/''" using assms by auto
  then have "takeWhile (\<lambda>c. c \<noteq> CHR ''/'') (rev f) = rev f"
    and "dropWhile (\<lambda>c. c \<noteq> CHR ''/'') (rev f) = []"
    by (simp_all only: takeWhile_eq_all_conv dropWhile_eq_Nil_conv)
  then show ?thesis by (simp only: path_Split_def rev_rev_ident rev.simps)
qed

lemma path_Split_parts: "fst (path_Split p) @ snd (path_Split p) = p"
  by (simp add: path_Split_def flip: rev_append)

lemma path_Split_file: "CHR ''/'' \<notin> set (snd (path_Split p))"
  by (auto simp: path_Split_def dest: set_takeWhileD)

lemma clean_elems_plain:
  "\<forall>e \<in> set es. e \<noteq> [] \<and> e \<noteq> ''.'' \<and> e \<noteq> ''..'' \<Longrightarrow> clean_elems rooted out es = out @ es"
  by (induction es arbitrary: out) auto

lemma clean_elems_append:
  "clean_elems rooted out (es @ fs) = clean_elems rooted (clean_elems rooted out es) fs"
  by (induction es arbitrary: out) auto

definition plain_elem :: "string \<Rightarrow> bool" where
  "plain_elem e \<longleftrightarrow> e \<noteq> [] \<and> e \<noteq> ''.'' \<and> e \<noteq> ''..'' \<and> CHR ''/'' \<notin> set e"

lemma strings_Join_snoc_empty: "es \<noteq> [] \<Longrightarrow> strings_Join c (es @ [[]]) = strings_Join c es @ [c]"
  by (induction c es rule: strings_Join.induct) auto

lemma path_Dir_rooted:
  assumes "es \<noteq> []" and "\<forall>e \<in> set es. plain_elem e" and "CHR ''/'' \<notin> set f"
  shows "path_Dir (CHR ''/'' # strings_Join CHR ''/'' es @ CHR ''/'' # f) =
     CHR ''/'' # strings_Join CHR ''/'' es"
proof -
  let ?d = "CHR ''/'' # strings_Join CHR ''/'' es"
  have "strings_Split CHR ''/'' (strings_Join CHR ''/'' (es @ [[]])) = es @ [[]]"
    using assms(2) by (intro strings_Split_Join) (auto simp: plain_elem_def)
  then have split: "strings_Split CHR ''/'' (?d @ ''/'') = [] # es @ [[]]"
    using assms(1) by (simp add: strings_Join_snoc_empty)
  have ce: "clean_elems True [] (es @ [[]]) = es"
    using assms(2) clean_elems_plain [of es True "[]"]
    by (simp add: clean_elems_append plain_elem_def)
  have "path_Split (?d @ CHR ''/'' # f) = (?d @ ''/'', f)"
    using assms(3) by (rule path_Split_append)
  then show ?thesis
    using split ce by (simp add: path_Dir_def path_Clean_def Let_def)
qed

lemma path_Dir_examples:
  "path_Dir ''/data/x/a.json'' = ''/data/x''" "path_Dir ''a.json'' = ''.''" "path_Dir [] = ''.''"
  "path_Dir ''/sd//y/../cfg/b.pb'' = ''/sd/cfg''"
  by code_simp+

end
