(* ===== verification/GoFS.thy ===== *)
theory GoFS
  imports GoLib
begin

text \<open>
  The file system as the program sees it through packages \<open>os\<close> and \<open>ioutil\<close>: a map from
  absolute paths to nodes and the set of paths the process may not touch. Paths are compared as
  byte strings, which agrees with the kernel as long as no file is named by two spellings: where a
  caller's name becomes part of a path, a claim that two paths are different files has a hypothesis
  on the names. Symbolic links are followed as far as the kernel follows them (40 links). A failed call returns the error, and a call that
  changes the file system returns the new one. Running out of space is not modelled.
\<close>

datatype node = Dir | File string nat | Symlink string

datatype fs_error = ENOENT | EEXIST | ENOTDIR | EISDIR | EACCES | ELOOP | EINVAL

record fs =
  nodes :: "string \<rightharpoonup> node"
  denied :: "string \<Rightarrow> bool"

definition set_node :: "string \<Rightarrow> node \<Rightarrow> fs \<Rightarrow> fs" where
  "set_node p n s = s\<lparr>nodes := (nodes s)(p \<mapsto> n)\<rparr>"

lemma set_node_simps [simp]:
  "nodes (set_node p n s) = (nodes s)(p \<mapsto> n)"
  "denied (set_node p n s) = denied s"
  by (simp_all add: set_node_def)

fun follow :: "nat \<Rightarrow> fs \<Rightarrow> string \<Rightarrow> fs_error + string \<times> node option" where
  "follow 0 s p = Inl ELOOP"
| "follow (Suc n) s p =
     (if denied s p then Inl EACCES
      else (case nodes s p of Some (Symlink q) \<Rightarrow> follow n s q | r \<Rightarrow> Inr (p, r)))"

definition max_links :: nat where "max_links = 40"

definition os_Stat :: "fs \<Rightarrow> string \<Rightarrow> fs_error + node" where
  "os_Stat s p =
     go_bind (follow max_links s p) (\<lambda>(q, r). case r of None \<Rightarrow> Inl ENOENT | Some n \<Rightarrow> Inr n)"

definition os_IsNotExist :: "fs_error \<Rightarrow> bool" where
  "os_IsNotExist e \<longleftrightarrow> e = ENOENT"

text \<open>\<open>os.Open\<close> followed by \<open>ioutil.ReadAll\<close>: a directory opens and then fails to read.\<close>

definition os_Open :: "fs \<Rightarrow> string \<Rightarrow> fs_error + node" where
  "os_Open s p = os_Stat s p"

fun ReadAll :: "node \<Rightarrow> fs_error + string" where
  "ReadAll (File c m) = Inr c"
| "ReadAll Dir = Inl EISDIR"
| "ReadAll (Symlink q) = Inl ELOOP"

definition ioutil_ReadFile :: "fs \<Rightarrow> string \<Rightarrow> fs_error + string" where
  "ioutil_ReadFile s p = go_bind (os_Open s p) ReadAll"

definition is_dir :: "fs \<Rightarrow> string \<Rightarrow> bool" where
  "is_dir s p \<longleftrightarrow> p = ''/'' \<or> os_Stat s p = Inr Dir"

text \<open>
  \<open>ioutil.WriteFile\<close> truncates an existing file and keeps its mode, or creates the file in an
  existing directory.
\<close>

definition ioutil_WriteFile :: "string \<Rightarrow> string \<Rightarrow> nat \<Rightarrow> fs \<Rightarrow> fs \<times> fs_error option" where
  "ioutil_WriteFile p c mode s =
     (case follow max_links s p of
        Inl e \<Rightarrow> (s, Some e)
      | Inr (q, Some Dir) \<Rightarrow> (s, Some EISDIR)
      | Inr (q, Some (Symlink _)) \<Rightarrow> (s, Some ELOOP)
      | Inr (q, Some (File _ m)) \<Rightarrow> (set_node q (File c m) s, None)
      | Inr (q, None) \<Rightarrow>
          if is_dir s (path_Dir q) then (set_node q (File c mode) s, None) else (s, Some ENOENT))"

definition os_Create :: "string \<Rightarrow> fs \<Rightarrow> fs \<times> fs_error option" where
  "os_Create p s = ioutil_WriteFile p [] 438 s"

definition os_Symlink :: "string \<Rightarrow> string \<Rightarrow> fs \<Rightarrow> fs \<times> fs_error option" where
  "os_Symlink old new s =
     (if denied s new then (s, Some EACCES)
      else if nodes s new \<noteq> None then (s, Some EEXIST)
      else if is_dir s (path_Dir new) then (set_node new (Symlink old) s, None)
      else (s, Some ENOENT))"

definition os_Chmod :: "string \<Rightarrow> nat \<Rightarrow> fs \<Rightarrow> fs \<times> fs_error option" where
  "os_Chmod p mode s =
     (case follow max_links s p of
        Inl e \<Rightarrow> (s, Some e)
      | Inr (q, None) \<Rightarrow> (s, Some ENOENT)
      | Inr (q, Some (File c m)) \<Rightarrow> (set_node q (File c mode) s, None)
      | Inr (q, Some n) \<Rightarrow> (s, None))"

text \<open>\<open>os.MkdirAll\<close> makes each missing directory on the way, and stops where it cannot.\<close>

definition dir_chain :: "string \<Rightarrow> string list" where
  "dir_chain p = map (\<lambda>i. take i p) (filter (\<lambda>i. p ! i = CHR ''/'') [1..<length p]) @ [p]"

fun mkdirs :: "string list \<Rightarrow> fs \<Rightarrow> fs \<times> fs_error option" where
  "mkdirs [] s = (s, None)"
| "mkdirs (d # ds) s =
     (case os_Stat s d of
        Inr Dir \<Rightarrow> mkdirs ds s
      | Inr _ \<Rightarrow> (s, Some ENOTDIR)
      | Inl e \<Rightarrow> if e = ENOENT \<and> nodes s d = None then mkdirs ds (set_node d Dir s) else (s, Some e))"

definition os_MkdirAll :: "string \<Rightarrow> fs \<Rightarrow> fs \<times> fs_error option" where
  "os_MkdirAll p s = mkdirs (dir_chain p) s"

section \<open>Following links\<close>

lemma follow_final:
  "follow n s p = Inr (q, r) \<Longrightarrow> nodes s q = r \<and> \<not> denied s q \<and> (\<forall>t. r \<noteq> Some (Symlink t))"
  by (induction n arbitrary: p) (auto split: if_splits option.splits node.splits)

lemma follow_direct:
  "\<not> denied s p \<Longrightarrow> (\<And>t. nodes s p \<noteq> Some (Symlink t)) \<Longrightarrow> 0 < n \<Longrightarrow> follow n s p = Inr (p, nodes s p)"
  by (cases n) (auto split: option.splits node.splits)

lemma follow_set_final:
  assumes "follow n s p = Inr (q, r)" and "\<And>t. x \<noteq> Symlink t"
  shows "follow n (set_node q x s) p = Inr (q, Some x)"
  using assms
proof (induction n arbitrary: p)
  case (Suc n)
  show ?case
  proof (cases "nodes s p")
    case None
    with Suc.prems show ?thesis by (auto split: if_splits node.splits)
  next
    case (Some y)
    have "nodes s q = r" "\<forall>t. r \<noteq> Some (Symlink t)" using follow_final [OF Suc.prems(1)] by auto
    with Some Suc show ?thesis by (cases y) (auto split: if_splits node.splits)
  qed
qed simp

lemma os_Stat_direct:
  "\<not> denied s p \<Longrightarrow> (\<And>t. nodes s p \<noteq> Some (Symlink t)) \<Longrightarrow>
     os_Stat s p = (case nodes s p of None \<Rightarrow> Inl ENOENT | Some n \<Rightarrow> Inr n)"
  by (simp add: os_Stat_def follow_direct max_links_def)

lemma os_Stat_denied: "denied s p \<Longrightarrow> os_Stat s p = Inl EACCES"
  by (simp add: os_Stat_def max_links_def numeral_eq_Suc)

section \<open>Reading what was written\<close>

lemma WriteFile_ok_iff:
  "ioutil_WriteFile p c m s = (s', None) \<longleftrightarrow>
     (\<exists>q r m'. follow max_links s p = Inr (q, r) \<and> s' = set_node q (File c m') s \<and>
        ((\<exists>c'. r = Some (File c' m')) \<or> r = None \<and> m' = m \<and> is_dir s (path_Dir q)))"
  by (auto simp: ioutil_WriteFile_def split: sum.splits prod.splits option.splits node.splits if_splits)

lemma WriteFile_error_frame: "ioutil_WriteFile p c m s = (s', Some e) \<Longrightarrow> s' = s"
  by (auto simp: ioutil_WriteFile_def split: sum.splits prod.splits option.splits node.splits if_splits)

lemma read_after_write:
  assumes "ioutil_WriteFile p c m s = (s', None)"
  shows "ioutil_ReadFile s' p = Inr c"
proof -
  from assms obtain q r m' where "follow max_links s p = Inr (q, r)"
    and s': "s' = set_node q (File c m') s"
    by (auto simp: WriteFile_ok_iff)
  then have "follow max_links s' p = Inr (q, Some (File c m'))"
    by (simp add: follow_set_final)
  then show ?thesis by (simp add: ioutil_ReadFile_def os_Open_def os_Stat_def)
qed

lemma WriteFile_denied [go_frame]: "denied (fst (ioutil_WriteFile p c m s)) = denied s"
  by (auto simp: ioutil_WriteFile_def split: sum.splits prod.splits option.splits node.splits)

section \<open>Making directories only adds directories\<close>

definition only_adds_dirs :: "fs \<Rightarrow> fs \<Rightarrow> bool" where
  "only_adds_dirs s s' \<longleftrightarrow>
     denied s' = denied s \<and>
     (\<forall>p. nodes s' p = nodes s p \<or> nodes s p = None \<and> nodes s' p = Some Dir)"

lemma only_adds_dirs_refl [simp]: "only_adds_dirs s s"
  by (simp add: only_adds_dirs_def)

lemma only_adds_dirs_trans: "only_adds_dirs s t \<Longrightarrow> only_adds_dirs t u \<Longrightarrow> only_adds_dirs s u"
  unfolding only_adds_dirs_def by metis

lemma mkdirs_only_adds: "only_adds_dirs s (fst (mkdirs ds s))"
proof (induction ds s rule: mkdirs.induct)
  case (2 d ds s)
  show ?case
  proof (cases "os_Stat s d")
    case (Inl e)
    have "only_adds_dirs s (set_node d Dir s)" if "nodes s d = None"
      using that by (simp add: only_adds_dirs_def)
    with 2(1) [OF Inl] Inl show ?thesis by (auto intro: only_adds_dirs_trans)
  next
    case (Inr n)
    with 2(2) show ?thesis by (cases n) auto
  qed
qed simp

lemma MkdirAll_only_adds: "only_adds_dirs s (fst (os_MkdirAll p s))"
  by (simp add: os_MkdirAll_def mkdirs_only_adds)

lemma only_adds_dirs_follow:
  assumes "only_adds_dirs s s'" and "follow n s p = Inr (q, Some x)"
  shows "follow n s' p = Inr (q, Some x)"
  using assms(2)
proof (induction n arbitrary: p)
  case (Suc n)
  have "denied s' = denied s" using assms(1) by (simp add: only_adds_dirs_def)
  moreover have "nodes s' p = nodes s p"
  proof (cases "nodes s p")
    case None
    with Suc.prems show ?thesis by (auto split: if_splits)
  next
    case (Some y)
    then show ?thesis using assms(1) by (metis only_adds_dirs_def option.distinct(1))
  qed
  ultimately show ?case using Suc by (auto split: if_splits option.splits node.splits)
qed simp

lemma only_adds_dirs_Stat: "only_adds_dirs s s' \<Longrightarrow> os_Stat s p = Inr n \<Longrightarrow> os_Stat s' p = Inr n"
  by (auto simp: os_Stat_def go_bind_Inr_iff split: option.splits dest: only_adds_dirs_follow)

lemma only_adds_dirs_read:
  "only_adds_dirs s s' \<Longrightarrow> ioutil_ReadFile s p = Inr c \<Longrightarrow> ioutil_ReadFile s' p = Inr c"
  by (auto simp: ioutil_ReadFile_def os_Open_def go_bind_Inr_iff dest: only_adds_dirs_Stat)

text \<open>A directory made, or already there, is there afterwards.\<close>

lemma mkdirs_ok:
  assumes "snd (mkdirs ds s) = None" and "d \<in> set ds"
  shows "os_Stat (fst (mkdirs ds s)) d = Inr Dir"
  using assms
proof (induction ds s rule: mkdirs.induct)
  case (2 e ds s)
  show ?case
  proof (cases "os_Stat s e")
    case (Inl x)
    let ?s = "set_node e Dir s"
    from 2(3) Inl have n: "x = ENOENT" "nodes s e = None" by (auto split: if_splits)
    have "\<not> denied s e" using Inl n(1) os_Stat_denied [of s e] by auto
    then have "os_Stat ?s e = Inr Dir" by (simp add: os_Stat_direct)
    then have "os_Stat (fst (mkdirs ds ?s)) e = Inr Dir"
      using mkdirs_only_adds only_adds_dirs_Stat by blast
    with 2 Inl n show ?thesis by auto
  next
    case (Inr x)
    with 2(3) have x: "x = Dir" by (cases x) auto
    have "os_Stat (fst (mkdirs ds s)) e = Inr Dir"
      using mkdirs_only_adds only_adds_dirs_Stat Inr x by blast
    with 2 Inr x show ?thesis by auto
  qed
qed simp

lemma MkdirAll_ok: "snd (os_MkdirAll p s) = None \<Longrightarrow> is_dir (fst (os_MkdirAll p s)) p"
  by (simp add: os_MkdirAll_def is_dir_def mkdirs_ok dir_chain_def)

end
