(* ===== verification/Assets.thy ===== *)
theory Assets
  imports GoFS
begin

text \<open>
  Asset overrides (\<open>assertOverwrite.go\<close>) and the file reader that \<open>NewV2RayPoint\<close> installs for
  the core (\<open>interact.go\<close>): paths below the asset prefix are served from the override table or
  from the assets shipped in the application, every other path from the file system. The
  shipped assets (\<open>golang.org/x/mobile/asset\<close>) are a parameter. The table's interface is a
  locale; its client lemma says that the last operation on a path decides.
\<close>

section \<open>The override table\<close>

text \<open>A nil map answers every lookup with "absent"; both operations allocate it first.\<close>

type_synonym overrides = "(string \<rightharpoonup> string) option"

definition overridedAssets_lookup :: "overrides \<Rightarrow> string \<Rightarrow> string option" where
  "overridedAssets_lookup m p = (case m of None \<Rightarrow> None | Some t \<Rightarrow> t p)"

definition SetAssetsOverride :: "string \<Rightarrow> string \<Rightarrow> overrides \<Rightarrow> overrides" where
  "SetAssetsOverride path data m =
     (let t = (case m of None \<Rightarrow> Map.empty | Some t \<Rightarrow> t) in Some (t(path \<mapsto> data)))"

definition ClearAssetsOverride :: "string \<Rightarrow> overrides \<Rightarrow> overrides" where
  "ClearAssetsOverride path m =
     (let t = (case m of None \<Rightarrow> Map.empty | Some t \<Rightarrow> t) in Some (t(path := None)))"

section \<open>The interface and its client\<close>

datatype override_op = SetOp string string | ClearOp string

fun op_path :: "override_op \<Rightarrow> string" where
  "op_path (SetOp p d) = p"
| "op_path (ClearOp p) = p"

fun op_value :: "override_op \<Rightarrow> string option" where
  "op_value (SetOp p d) = Some d"
| "op_value (ClearOp p) = None"

text \<open>What a history of operations promises for a path: the value of the last one on it.\<close>

definition history_value :: "override_op list \<Rightarrow> string \<Rightarrow> string option" where
  "history_value ops p =
     (case find (\<lambda>x. op_path x = p) (rev ops) of None \<Rightarrow> None | Some x \<Rightarrow> op_value x)"

locale override_table =
  fixes lookup :: "'m \<Rightarrow> string \<Rightarrow> string option"
    and put :: "string \<Rightarrow> string \<Rightarrow> 'm \<Rightarrow> 'm"
    and clear :: "string \<Rightarrow> 'm \<Rightarrow> 'm"
    and empty :: 'm
  assumes lookup_empty: "lookup empty p = None"
    and lookup_put: "lookup (put p d m) q = (if q = p then Some d else lookup m q)"
    and lookup_clear: "lookup (clear p m) q = (if q = p then None else lookup m q)"
begin

fun apply_op :: "override_op \<Rightarrow> 'm \<Rightarrow> 'm" where
  "apply_op (SetOp p d) m = put p d m"
| "apply_op (ClearOp p) m = clear p m"

lemma lookup_apply_op: "lookup (apply_op x m) p = (if op_path x = p then op_value x else lookup m p)"
  by (cases x) (auto simp: lookup_put lookup_clear)

lemma lookup_history: "lookup (fold apply_op ops empty) p = history_value ops p"
  by (induction ops rule: rev_induct)
     (auto simp: history_value_def lookup_empty lookup_apply_op)

end

lemma override_laws:
  "overridedAssets_lookup None p = None"
  "overridedAssets_lookup (SetAssetsOverride p d m) q =
     (if q = p then Some d else overridedAssets_lookup m q)"
  "overridedAssets_lookup (ClearAssetsOverride p m) q =
     (if q = p then None else overridedAssets_lookup m q)"
  by (auto simp: overridedAssets_lookup_def SetAssetsOverride_def ClearAssetsOverride_def
      split: option.split)

interpretation ov: override_table overridedAssets_lookup SetAssetsOverride ClearAssetsOverride None
  by unfold_locales (rule override_laws)+

text \<open>The table after a history of calls from the Java side.\<close>

fun override_call :: "override_op \<Rightarrow> overrides \<Rightarrow> overrides" where
  "override_call (SetOp p d) m = SetAssetsOverride p d m"
| "override_call (ClearOp p) m = ClearAssetsOverride p m"

lemma override_call_apply_op: "override_call = ov.apply_op"
  by (intro ext) (metis ov.apply_op.simps override_call.simps override_op.exhaust)

section \<open>The core's file reader\<close>

definition assetperfix :: string where
  "assetperfix = ''/dev/libv2rayfs0/asset''"

text \<open>
  \<open>mob\<close> opens a shipped asset. Outside the prefix, and for overridden assets, the file system is
  opened. The slice expression cuts one byte more than the prefix, and panics when there is none.
\<close>

definition NewFileReader ::
  "fs \<Rightarrow> (string \<Rightarrow> fs_error + node) \<Rightarrow> overrides \<Rightarrow> string \<Rightarrow> (fs_error + node) go" where
  "NewFileReader s mob m path =
     (if strings_HasPrefix path assetperfix then
        go_bind (go_slice path (int (length assetperfix) + 1) (int (length path))) (\<lambda>p.
          case overridedAssets_lookup m p of
            Some by \<Rightarrow> Inr (os_Open s by)
          | None \<Rightarrow> Inr (mob p))
      else Inr (os_Open s path))"

lemma NewFileReader_asset:
  "NewFileReader s mob m (assetperfix @ CHR ''/'' # p) =
     Inr (case overridedAssets_lookup m p of Some by \<Rightarrow> os_Open s by | None \<Rightarrow> mob p)"
  by (simp add: NewFileReader_def strings_HasPrefix_def del: length_append)
     (simp split: option.split)

text \<open>
  C15. Asset overriding: after any history of \<open>SetAssetsOverride\<close> and \<open>ClearAssetsOverride\<close>
  calls, the core's reader serves an asset from the file the last \<open>Set\<close> on that asset named,
  and from the shipped assets when the last call on it was a \<open>Clear\<close> or there was none; the
  calls on other assets do not matter.
\<close>

theorem asset_override_history:
  "NewFileReader s mob (fold override_call ops None) (assetperfix @ CHR ''/'' # p) =
     Inr (case history_value ops p of Some by \<Rightarrow> os_Open s by | None \<Rightarrow> mob p)"
  by (simp add: NewFileReader_asset override_call_apply_op ov.lookup_history)

text \<open>Paths outside the prefix are opened as they are, and the bare prefix panics.\<close>

lemma NewFileReader_outside:
  "\<not> prefix assetperfix path \<Longrightarrow> NewFileReader s mob m path = Inr (os_Open s path)"
  by (simp add: NewFileReader_def strings_HasPrefix_def)

lemma NewFileReader_bare: "NewFileReader s mob m assetperfix = Inl SliceBounds"
  by (simp add: NewFileReader_def strings_HasPrefix_def go_slice_def)

end
