(* ===== verification/Stat.thy ===== *)
theory Stat
  imports GoFS
begin

text \<open>
  Interface statistics (\<open>stat.go\<close>): \<open>/proc/net/dev\<close> is read, split into lines and columns, and the
  counters of the target interface are parsed. \<open>w\<close> is the width of \<open>int\<close> on the device.
\<close>

record InterfaceInfo =
  RxByte :: int
  RxPacket :: int
  TxByte :: int
  TxPacket :: int

record StatControler =
  InterfaceTarget :: string
  CollectedInterfaceInfo :: "InterfaceInfo option"

definition GetStatControler :: StatControler where
  "GetStatControler = \<lparr>InterfaceTarget = ''tun0:'', CollectedInterfaceInfo = None\<rparr>"

datatype stat_error = OpenFailed fs_error | ConvError num_error

definition columns :: "string \<Rightarrow> string list" where
  "columns scc = strings_Split CHR '' '' (strings_TrimSpace scc)"

text \<open>
  The counters of a line: columns 1, 2, 9 and 10 of its non-empty ones, in this order, each
  indexing checked and each conversion able to end the call.
\<close>

definition column_int :: "nat \<Rightarrow> string list \<Rightarrow> int \<Rightarrow> (num_error + int) go" where
  "column_int w cs i = go_bind (go_index cs i) (\<lambda>c. Inr (Atoi w c))"

definition parse_counters :: "nat \<Rightarrow> string list \<Rightarrow> (num_error + InterfaceInfo) go" where
  "parse_counters w cs =
     go_bind (column_int w cs 1) (\<lambda>r1. case r1 of Inl e \<Rightarrow> Inr (Inl e) | Inr rxb \<Rightarrow>
     go_bind (column_int w cs 2) (\<lambda>r2. case r2 of Inl e \<Rightarrow> Inr (Inl e) | Inr rxp \<Rightarrow>
     go_bind (column_int w cs 9) (\<lambda>r9. case r9 of Inl e \<Rightarrow> Inr (Inl e) | Inr txb \<Rightarrow>
     go_bind (column_int w cs 10) (\<lambda>r10. case r10 of Inl e \<Rightarrow> Inr (Inl e) | Inr txp \<Rightarrow>
       Inr (Inr \<lparr>RxByte = rxb, RxPacket = rxp, TxByte = txb, TxPacket = txp\<rparr>)))))"

fun collect_lines ::
  "nat \<Rightarrow> string list \<Rightarrow> StatControler \<Rightarrow> (StatControler \<times> num_error option) go" where
  "collect_lines w [] sc = Inr (sc, None)"
| "collect_lines w (scc # s) sc =
     go_bind (go_index (columns scc) 0) (\<lambda>name.
       if name = InterfaceTarget sc then
         go_bind (parse_counters w (filter (\<lambda>c. c \<noteq> []) (columns scc))) (\<lambda>r.
           case r of
             Inl e \<Rightarrow> Inr (sc, Some e)
           | Inr info \<Rightarrow> collect_lines w s (sc\<lparr>CollectedInterfaceInfo := Some info\<rparr>))
       else collect_lines w s sc)"

text \<open>The error of \<open>ioutil.ReadAll\<close> is ignored: what was read counts.\<close>

definition CollectInterfaceInfo ::
  "nat \<Rightarrow> fs \<Rightarrow> StatControler \<Rightarrow> (StatControler \<times> stat_error option) go" where
  "CollectInterfaceInfo w s sc =
     (case os_Open s ''/proc/net/dev'' of
        Inl e \<Rightarrow> Inr (sc, Some (OpenFailed e))
      | Inr f \<Rightarrow>
          (let d = (case ReadAll f of Inl _ \<Rightarrow> [] | Inr c \<Rightarrow> c) in
           go_bind (collect_lines w (strings_Split (CHR 0x0A) (strings_TrimSpace d)) sc) (\<lambda>(sc', e).
             Inr (sc', map_option ConvError e))))"

section \<open>A line of the kernel's table\<close>

text \<open>The kernel pads names on the left and separates the columns by runs of blanks.\<close>

fun padded :: "(nat \<times> string) list \<Rightarrow> string" where
  "padded [] = []"
| "padded ((n, c) # cs) = replicate n (CHR '' '') @ c @ padded cs"

definition word_col :: "string \<Rightarrow> bool" where
  "word_col c \<longleftrightarrow> c \<noteq> [] \<and> (\<forall>x \<in> set c. visible x)"

lemma visible_not_blank: "visible x \<Longrightarrow> x \<noteq> CHR '' ''"
  by (auto simp: visible_def)

lemma word_col_no_blank: "word_col c \<Longrightarrow> CHR '' '' \<notin> set c"
  using visible_not_blank by (auto simp: word_col_def)

lemma split_blanks:
  "filter (\<lambda>c. c \<noteq> []) (strings_Split CHR '' '' (replicate n (CHR '' '') @ s)) =
     filter (\<lambda>c. c \<noteq> []) (strings_Split CHR '' '' s)"
  by (induction n) auto

lemma split_word:
  assumes "word_col c" and "s = [] \<or> hd s = CHR '' ''"
  shows "strings_Split CHR '' '' (c @ s) =
    (if s = [] then [c] else c # strings_Split CHR '' '' (tl s))"
  using assms by (cases s)
    (auto simp: strings_Split_one strings_Split_append word_col_no_blank)

definition line_ok :: "(nat \<times> string) list \<Rightarrow> bool" where
  "line_ok cs \<longleftrightarrow> cs \<noteq> [] \<and> (\<forall>(n, c) \<in> set cs. word_col c) \<and> (\<forall>(n, c) \<in> set (tl cs). 0 < n)"

lemma padded_starts: "\<forall>(n, c) \<in> set cs. 0 < n \<Longrightarrow> padded cs = [] \<or> hd (padded cs) = CHR '' ''"
  by (cases cs) (auto simp: gr0_conv_Suc)

lemma split_padded:
  "\<forall>(n, c) \<in> set cs. word_col c \<Longrightarrow> \<forall>(n, c) \<in> set (tl cs). 0 < n \<Longrightarrow>
     filter (\<lambda>c. c \<noteq> []) (strings_Split CHR '' '' (padded cs)) = map snd cs"
proof (induction cs)
  case (Cons x cs)
  obtain n c where x: "x = (n, c)" by force
  with Cons.prems have c: "word_col c" and s: "padded cs = [] \<or> hd (padded cs) = CHR '' ''"
    using padded_starts [of cs] by auto
  have cs: "\<forall>(n, c) \<in> set (tl cs). 0 < n" using Cons.prems(2) by (cases cs) auto
  show ?case
  proof (cases "padded cs")
    case Nil
    then have "cs = []" using Cons.prems by (cases cs) (auto simp: word_col_def)
    with c show ?thesis
      using split_word [OF c, of "[]"] by (simp add: x split_blanks word_col_def)
  next
    case (Cons b t)
    with s have b: "padded cs = CHR '' '' # t" by simp
    have "filter (\<lambda>c. c \<noteq> []) (strings_Split CHR '' '' (c @ padded cs)) =
        c # filter (\<lambda>c. c \<noteq> []) (strings_Split CHR '' '' (padded cs))"
      using split_word [OF c s] b c by (simp add: word_col_def)
    with Cons.IH Cons.prems cs show ?thesis by (simp add: x split_blanks)
  qed
qed simp

lemma trim_padded:
  assumes "line_ok ((n, c) # cs)"
  shows "strings_TrimSpace (padded ((n, c) # cs)) = padded ((0, c) # cs)"
proof -
  from assms have c: "word_col c" by (simp add: line_ok_def)
  then obtain x y where xy: "c = x # y" "visible x" by (cases c) (auto simp: word_col_def)
  have "\<exists>u z. padded ((0, c) # cs) = u @ [z] \<and> visible z"
    using assms
  proof (induction cs rule: rev_induct)
    case Nil
    then show ?case using c by (cases c rule: rev_cases) (auto simp: word_col_def)
  next
    case (snoc d cs)
    obtain m e where d: "d = (m, e)" by force
    have "padded (xs @ ys) = padded xs @ padded ys" for xs ys
      by (induction xs rule: padded.induct) auto
    moreover have "word_col e" using snoc.prems d by (simp add: line_ok_def)
    ultimately show ?case
      by (cases e rule: rev_cases) (auto simp: d word_col_def)
  qed
  then obtain u z where uz: "padded ((0, c) # cs) = u @ [z]" "visible z" by blast
  have "trim_left (padded ((n, c) # cs)) = padded ((0, c) # cs)"
    using xy by simp
  then show ?thesis using uz by (simp only: strings_TrimSpace_def trim_right_visible)
qed

section \<open>Collecting\<close>

lemma columns_nonempty [simp]: "columns l \<noteq> []"
  by (simp add: columns_def)

lemma columns_first [simp]: "go_index (columns l) 0 = Inr (hd (columns l))"
  using columns_nonempty [of l] by (simp add: go_index_def hd_conv_nth)

definition other_line :: "StatControler \<Rightarrow> string \<Rightarrow> bool" where
  "other_line sc l \<longleftrightarrow> hd (columns l) \<noteq> InterfaceTarget sc"

lemma collect_lines_skip:
  "list_all (other_line sc) pre \<Longrightarrow> collect_lines w (pre @ ls) sc = collect_lines w ls sc"
  by (induction pre) (auto simp: other_line_def)

lemma collect_lines_other: "list_all (other_line sc) ls \<Longrightarrow> collect_lines w ls sc = Inr (sc, None)"
  using collect_lines_skip [of sc ls w "[]"] by simp

lemma columns_padded:
  assumes "line_ok ((n, c) # cs)"
  shows "hd (columns (padded ((n, c) # cs))) = c"
    and "filter (\<lambda>c. c \<noteq> []) (columns (padded ((n, c) # cs))) = c # map snd cs"
proof -
  have c: "word_col c" and pos: "\<forall>(n, c) \<in> set cs. 0 < n" and all: "\<forall>(n, c) \<in> set cs. word_col c"
    using assms by (auto simp: line_ok_def)
  have cols: "columns (padded ((n, c) # cs)) = strings_Split CHR '' '' (c @ padded cs)"
    unfolding columns_def trim_padded [OF assms] by simp
  then show "hd (columns (padded ((n, c) # cs))) = c"
    using split_word [OF c padded_starts [OF pos]] by (simp split: if_splits)
  show "filter (\<lambda>c. c \<noteq> []) (columns (padded ((n, c) # cs))) = c # map snd cs"
    unfolding cols using split_padded [of "(0, c) # cs"] c pos all by simp
qed

text \<open>A line of the table as the kernel prints it, with all the columns the code reads.\<close>

definition stat_line :: "string \<Rightarrow> (nat \<times> string) list \<Rightarrow> string list \<Rightarrow> bool" where
  "stat_line name cs counters \<longleftrightarrow>
     line_ok cs \<and> map snd cs = name # counters \<and> 10 \<le> length counters"

lemma stat_line_columns:
  assumes "stat_line name cs counters"
  shows "hd (columns (padded cs)) = name"
    and "filter (\<lambda>c. c \<noteq> []) (columns (padded cs)) = name # counters"
proof -
  from assms obtain n cs' where "cs = (n, name) # cs'" "map snd cs' = counters"
    by (cases cs) (auto simp: stat_line_def)
  with assms columns_padded [of n name cs'] show "hd (columns (padded cs)) = name"
    and "filter (\<lambda>c. c \<noteq> []) (columns (padded cs)) = name # counters"
    by (auto simp: stat_line_def)
qed

lemma column_int_nth:
  "i < length cs \<Longrightarrow> column_int w cs (int i) = Inr (Atoi w (cs ! i))"
  by (simp add: column_int_def go_index_in)

lemma column_ints:
  assumes "10 \<le> length counters"
  shows "column_int w (name # counters) 1 = Inr (Atoi w (counters ! 0))"
    "column_int w (name # counters) 2 = Inr (Atoi w (counters ! 1))"
    "column_int w (name # counters) 9 = Inr (Atoi w (counters ! 8))"
    "column_int w (name # counters) 10 = Inr (Atoi w (counters ! 9))"
proof -
  obtain c0 c1 cs where "counters = c0 # c1 # cs" "8 \<le> length cs"
    using assms by (cases counters; cases "tl counters") auto
  then show "column_int w (name # counters) 1 = Inr (Atoi w (counters ! 0))"
    "column_int w (name # counters) 2 = Inr (Atoi w (counters ! 1))"
    "column_int w (name # counters) 9 = Inr (Atoi w (counters ! 8))"
    "column_int w (name # counters) 10 = Inr (Atoi w (counters ! 9))"
    by (simp_all add: column_int_def go_index_def)
qed

text \<open>
  C28. Traffic counters: when one line of the table belongs to the target interface and its four
  counters fit the device's integers, the call succeeds and stores exactly the numbers printed in
  the received-bytes, received-packets, sent-bytes and sent-packets columns, whatever the padding
  and whatever the other lines say.
\<close>

theorem CollectInterfaceInfo_counters:
  assumes "os_Open s ''/proc/net/dev'' = Inr (File d m)"
    and "strings_Split (CHR 0x0A) (strings_TrimSpace d) = pre @ padded cs # post"
    and "list_all (other_line sc) (pre @ post)"
    and "stat_line (InterfaceTarget sc) cs counters"
    and "counters ! 0 = nat_digits rb" and "counters ! 1 = nat_digits rp"
    and "counters ! 8 = nat_digits tb" and "counters ! 9 = nat_digits tp"
    and "rb < 2 ^ (w - 1)" and "rp < 2 ^ (w - 1)" and "tb < 2 ^ (w - 1)" and "tp < 2 ^ (w - 1)"
  shows "CollectInterfaceInfo w s sc = Inr (sc\<lparr>CollectedInterfaceInfo :=
     Some \<lparr>RxByte = int rb, RxPacket = int rp, TxByte = int tb, TxPacket = int tp\<rparr>\<rparr>, None)"
proof -
  let ?i = "\<lparr>RxByte = int rb, RxPacket = int rp, TxByte = int tb, TxPacket = int tp\<rparr>"
  have "10 \<le> length counters" using assms(4) by (simp add: stat_line_def)
  then have parse: "parse_counters w (InterfaceTarget sc # counters) = Inr (Inr ?i)"
    using assms(5-) by (simp add: parse_counters_def column_ints Atoi_nat_digits)
  have other: "list_all (other_line (sc\<lparr>CollectedInterfaceInfo := Some ?i\<rparr>)) post"
    using assms(3) by (auto simp: list_all_iff other_line_def)
  have "collect_lines w (pre @ padded cs # post) sc =
      Inr (sc\<lparr>CollectedInterfaceInfo := Some ?i\<rparr>, None)"
    using assms(3) stat_line_columns [OF assms(4)] parse collect_lines_other [OF other]
    by (simp add: collect_lines_skip)
  then show ?thesis using assms(1,2) by (simp add: CollectInterfaceInfo_def)
qed

definition dev_line :: "(nat \<times> string) list" where
  "dev_line = (2, ''tun0:'') # map (\<lambda>n. (1, nat_digits n)) [1024, 8, 0, 0, 0, 0, 0, 0, 2048, 9, 0]"

definition dev_fs :: fs where
  "dev_fs = \<lparr>nodes = [''/proc/net/dev'' \<mapsto> File (padded dev_line) 292], denied = (\<lambda>_. False)\<rparr>"

lemma padded_no_newline:
  "\<forall>(n, c) \<in> set cs. word_col c \<Longrightarrow> CHR 0x0A \<notin> set (padded cs)"
  by (induction cs rule: padded.induct) (auto simp: word_col_def visible_def)

lemma word_col_nat_digits: "word_col (nat_digits n)"
  using nat_digits_all [of n] is_digit_visible by (auto simp: word_col_def)

lemma dev_line_ok: "stat_line ''tun0:'' dev_line (map nat_digits [1024, 8, 0, 0, 0, 0, 0, 0, 2048, 9, 0])"
  using word_col_nat_digits
  by (auto simp: stat_line_def dev_line_def line_ok_def word_col_def visible_def)

theorem CollectInterfaceInfo_counters_witness:
  "CollectInterfaceInfo 32 dev_fs GetStatControler = Inr (GetStatControler\<lparr>CollectedInterfaceInfo :=
     Some \<lparr>RxByte = int 1024, RxPacket = int 8, TxByte = int 2048, TxPacket = int 9\<rparr>\<rparr>, None)"
proof (rule CollectInterfaceInfo_counters)
  let ?cs = "(0, ''tun0:'') # tl dev_line"
  show "stat_line (InterfaceTarget GetStatControler) ?cs
      (map nat_digits [1024, 8, 0, 0, 0, 0, 0, 0, 2048, 9, 0])"
    using dev_line_ok by (auto simp: GetStatControler_def stat_line_def dev_line_def line_ok_def)
  have "strings_TrimSpace (padded dev_line) = padded ?cs"
    using trim_padded [of 2 "''tun0:''" "tl dev_line"] dev_line_ok
    by (simp add: stat_line_def dev_line_def)
  moreover have "CHR 0x0A \<notin> set (padded ?cs)"
    using dev_line_ok by (intro padded_no_newline) (auto simp: stat_line_def dev_line_def line_ok_def)
  ultimately show "strings_Split (CHR 0x0A) (strings_TrimSpace (padded dev_line)) = [] @ padded ?cs # []"
    by (simp add: strings_Split_one)
qed (simp_all add: dev_fs_def os_Open_def os_Stat_direct)

text \<open>
  Counters that do not fit: when the received-bytes counter of the target is too large for
  the device's integers (on a 32-bit device, two gigabytes), the call reports a conversion error
  and keeps the information collected before.
\<close>

theorem CollectInterfaceInfo_overflow:
  assumes "os_Open s ''/proc/net/dev'' = Inr (File d m)"
    and "strings_Split (CHR 0x0A) (strings_TrimSpace d) = pre @ padded cs # post"
    and "list_all (other_line sc) pre"
    and "stat_line (InterfaceTarget sc) cs counters"
    and "counters ! 0 = nat_digits rb" and "2 ^ (w - 1) \<le> rb"
  shows "CollectInterfaceInfo w s sc = Inr (sc, Some (ConvError (NumError (nat_digits rb))))"
proof -
  have "10 \<le> length counters" using assms(4) by (simp add: stat_line_def)
  moreover have "Atoi w (nat_digits rb) = Inl (NumError (nat_digits rb))"
    using assms(6) by (rule Atoi_nat_digits_overflow)
  ultimately have parse: "parse_counters w (InterfaceTarget sc # counters) =
      Inr (Inl (NumError (nat_digits rb)))"
    using assms(5) by (simp add: parse_counters_def column_ints)
  then have "collect_lines w (pre @ padded cs # post) sc = Inr (sc, Some (NumError (nat_digits rb)))"
    using assms(3) stat_line_columns [OF assms(4)] by (simp add: collect_lines_skip)
  then show ?thesis using assms(1,2) by (simp add: CollectInterfaceInfo_def)
qed

theorem CollectInterfaceInfo_overflow_witness:
  "\<exists>s. CollectInterfaceInfo 8 s GetStatControler =
     Inr (GetStatControler, Some (ConvError (NumError (nat_digits 1024))))"
proof
  let ?cs = "(0, ''tun0:'') # tl dev_line"
  let ?s = "\<lparr>nodes = [''/proc/net/dev'' \<mapsto> File (padded ?cs) 292], denied = (\<lambda>_. False)\<rparr>"
  show "CollectInterfaceInfo 8 ?s GetStatControler =
     Inr (GetStatControler, Some (ConvError (NumError (nat_digits 1024))))"
  proof (rule CollectInterfaceInfo_overflow)
    show line: "stat_line (InterfaceTarget GetStatControler) ?cs
        (map nat_digits [1024, 8, 0, 0, 0, 0, 0, 0, 2048, 9, 0])"
      using dev_line_ok by (auto simp: GetStatControler_def stat_line_def dev_line_def line_ok_def)
    have "line_ok ?cs" using line unfolding stat_line_def by (rule conjunct1)
    then have "strings_TrimSpace (padded ?cs) = padded ?cs" by (rule trim_padded)
    moreover have "CHR 0x0A \<notin> set (padded ?cs)"
      using line by (intro padded_no_newline) (auto simp: stat_line_def line_ok_def)
    ultimately show "strings_Split (CHR 0x0A) (strings_TrimSpace (padded ?cs)) = [] @ padded ?cs # []"
      by (simp add: strings_Split_one)
  qed (simp_all add: os_Open_def os_Stat_direct)
qed

end
