(* ===== verification/Systems.thy ===== *)
theory Systems
  imports Prelude
begin

text \<open>
  Labelled systems as an interface: a step function that may refuse a label, a guard on the labels
  considered, runs over lists of labels, the states reached from the initial one and an invariant.
  What follows for runs and reachable states is proved once here; the goroutine systems of the
  escorts, of the connection monitor and of the network interruptions interpret it.
\<close>

locale labelled_system =
  fixes init :: 's
    and step :: "'l \<Rightarrow> 's \<Rightarrow> 's option"
    and guard :: "'l \<Rightarrow> 's \<Rightarrow> bool"
    and run :: "'l list \<Rightarrow> 's \<Rightarrow> 's option"
    and reach :: "'s \<Rightarrow> bool"
  assumes run_Nil: "run [] s = Some s"
    and run_Cons: "run (l # ls) s =
      (if guard l s then (case step l s of None \<Rightarrow> None | Some t \<Rightarrow> run ls t) else None)"
    and reach_init: "reach init"
    and reach_step: "reach s \<Longrightarrow> guard l s \<Longrightarrow> step l s = Some t \<Longrightarrow> reach t"
    and reach_least: "reach s \<Longrightarrow> P init \<Longrightarrow>
      (\<And>u l t. P u \<Longrightarrow> guard l u \<Longrightarrow> step l u = Some t \<Longrightarrow> P t) \<Longrightarrow> P s"
begin

lemma run_append: "run (xs @ ys) s = (case run xs s of None \<Rightarrow> None | Some t \<Rightarrow> run ys t)"
  by (induction xs arbitrary: s) (auto simp: run_Nil run_Cons split: option.splits)

lemma run_reach: "reach s \<Longrightarrow> run ls s = Some t \<Longrightarrow> reach t"
proof (induction ls arbitrary: s)
  case (Cons l ls)
  then show ?case by (auto simp: run_Cons split: if_splits option.splits intro: reach_step)
qed (simp add: run_Nil)

lemma run_init: "run ls init = Some t \<Longrightarrow> reach t"
  by (rule run_reach [OF reach_init])

lemma reach_iff_run: "reach s \<longleftrightarrow> (\<exists>ls. run ls init = Some s)"
proof
  assume "reach s"
  then show "\<exists>ls. run ls init = Some s"
  proof (rule reach_least)
    show "\<exists>ls. run ls init = Some init" using run_Nil by blast
    fix u l t
    assume "\<exists>ls. run ls init = Some u" "guard l u" "step l u = Some t"
    then obtain ls where "run ls init = Some u" by blast
    with \<open>guard l u\<close> \<open>step l u = Some t\<close> have "run (ls @ [l]) init = Some t"
      by (simp add: run_append run_Cons run_Nil)
    then show "\<exists>ls. run ls init = Some t" by blast
  qed
qed (auto intro: run_init)

end

text \<open>A system with an invariant.\<close>

locale invariant_system = labelled_system init step guard run reach
  for init :: 's and step :: "'l \<Rightarrow> 's \<Rightarrow> 's option" and guard :: "'l \<Rightarrow> 's \<Rightarrow> bool"
    and run :: "'l list \<Rightarrow> 's \<Rightarrow> 's option" and reach :: "'s \<Rightarrow> bool" +
  fixes inv :: "'s \<Rightarrow> bool"
  assumes inv_init: "inv init"
    and inv_step: "inv s \<Longrightarrow> guard l s \<Longrightarrow> step l s = Some t \<Longrightarrow> inv t"
begin

lemma reach_inv: "reach s \<Longrightarrow> inv s"
  by (rule reach_least [of _ inv]) (auto intro: inv_init inv_step)

lemma run_inv: "run ls init = Some s \<Longrightarrow> inv s"
  by (rule reach_inv) (rule run_init)

end

end
