(* ===== verification/StabilityAssist.thy ===== *)
theory StabilityAssist
  imports GoLib Systems
begin

text \<open>
  The connection monitor of \<open>sas.go\<close>: a state machine of the object, its one-place channel and the
  monitor goroutines. A label names what happens next: a call of the Java side, a move of a monitor,
  the end of a probe. The length of a wait is kept, the passing of time is not modelled.
\<close>

section \<open>State and steps\<close>

datatype mon_phase = Entering | LoopHead | Sleeping | Probing

record monitor =
  mphase :: mon_phase
  first :: bool
  waitsec :: int

record StabilityAssist =
  Engaged :: bool
  Forground :: bool
  intr :: "int option"
  SASS :: bool
  armed :: bool
  monitors :: "monitor list"
  probe_failures :: nat
  sas_crashed :: bool

definition GetStabilityAssist :: StabilityAssist where
  "GetStabilityAssist = \<lparr>Engaged = False, Forground = True, intr = None, SASS = False, armed = False,
     monitors = [], probe_failures = 0, sas_crashed = False\<rparr>"

text \<open>A send that gives up when the channel is full.\<close>

definition try_send :: "int \<Rightarrow> StabilityAssist \<Rightarrow> StabilityAssist" where
  "try_send x sa = (case intr sa of None \<Rightarrow> sa\<lparr>intr := Some x\<rparr> | Some _ \<Rightarrow> sa)"

definition new_monitor :: monitor where
  "new_monitor = \<lparr>mphase = Entering, first = True, waitsec = 15\<rparr>"

definition Start :: "StabilityAssist \<Rightarrow> StabilityAssist" where
  "Start sa =
     (let sa' = try_send 0 (sa\<lparr>Engaged := True, armed := False\<rparr>)
      in sa'\<lparr>monitors := monitors sa' @ [new_monitor]\<rparr>)"

definition Stop :: "StabilityAssist \<Rightarrow> StabilityAssist" where
  "Stop sa = try_send 0 (sa\<lparr>Engaged := False\<rparr>)"

definition ProbeNowOpi :: "StabilityAssist \<Rightarrow> StabilityAssist" where
  "ProbeNowOpi sa = try_send 1 sa"

text \<open>The wait of the next round.\<close>

definition next_wait :: "bool \<Rightarrow> bool \<Rightarrow> int \<Rightarrow> int" where
  "next_wait fst_round forground w =
     (if fst_round then 30
      else if \<not> forground then (let w' = w * 3 div 2 in if w' > 500 then 500 else w')
      else 15)"

definition loop_head :: "bool \<Rightarrow> monitor \<Rightarrow> monitor" where
  "loop_head forground m =
     m\<lparr>waitsec := next_wait (first m) forground (waitsec m), first := False, mphase := Sleeping\<rparr>"

definition probeFail :: "StabilityAssist \<Rightarrow> StabilityAssist" where
  "probeFail sa =
     (if armed sa then
        (let sa' = sa\<lparr>Engaged := False\<rparr> in
           if SASS sa then sa'\<lparr>probe_failures := Suc (probe_failures sa)\<rparr>
           else sa'\<lparr>sas_crashed := True\<rparr>)
      else sa)"

text \<open>\<open>probe\<close>, with \<open>True\<close> for a response read to its end.\<close>

definition probe :: "bool \<Rightarrow> StabilityAssist \<Rightarrow> StabilityAssist" where
  "probe ok sa = (if ok then sa\<lparr>armed := True\<rparr> else probeFail sa)"

definition set_phase :: "nat \<Rightarrow> mon_phase \<Rightarrow> StabilityAssist \<Rightarrow> StabilityAssist" where
  "set_phase i ph sa = sa\<lparr>monitors := (monitors sa)[i := (monitors sa ! i)\<lparr>mphase := ph\<rparr>]\<rparr>"

definition mon_in :: "StabilityAssist \<Rightarrow> nat \<Rightarrow> mon_phase \<Rightarrow> bool" where
  "mon_in sa i ph \<longleftrightarrow> i < length (monitors sa) \<and> mphase (monitors sa ! i) = ph"

datatype sas_label =
    StartCall | StopCall | ProbeNow | SetForground bool | SetSASS bool
  | MonEnter nat
  | MonHead nat
  | MonTimer nat
  | MonRecv nat
  | MonProbe nat bool

fun sstep :: "sas_label \<Rightarrow> StabilityAssist \<Rightarrow> StabilityAssist option" where
  "sstep StartCall sa = Some (Start sa)"
| "sstep StopCall sa = Some (Stop sa)"
| "sstep ProbeNow sa = Some (ProbeNowOpi sa)"
| "sstep (SetForground b) sa = Some (sa\<lparr>Forground := b\<rparr>)"
| "sstep (SetSASS b) sa = Some (sa\<lparr>SASS := b\<rparr>)"
| "sstep (MonEnter i) sa =
     (if mon_in sa i Entering then Some (set_phase i LoopHead (sa\<lparr>intr := None\<rparr>)) else None)"
| "sstep (MonHead i) sa =
     (if mon_in sa i LoopHead then
        Some (if Engaged sa
          then sa\<lparr>monitors := (monitors sa)[i := loop_head (Forground sa) (monitors sa ! i)]\<rparr>
          else sa\<lparr>monitors := take i (monitors sa) @ drop (Suc i) (monitors sa)\<rparr>)
      else None)"
| "sstep (MonTimer i) sa = (if mon_in sa i Sleeping then Some (set_phase i Probing sa) else None)"
| "sstep (MonRecv i) sa =
     (case intr sa of
        Some s \<Rightarrow>
          if mon_in sa i Sleeping
          then Some (set_phase i (if s \<noteq> 0 then Probing else LoopHead) (sa\<lparr>intr := None\<rparr>)) else None
      | None \<Rightarrow> None)"
| "sstep (MonProbe i ok) sa =
     (if mon_in sa i Probing then Some (set_phase i LoopHead (probe ok sa)) else None)"

fun srun :: "sas_label list \<Rightarrow> StabilityAssist \<Rightarrow> StabilityAssist option" where
  "srun [] sa = Some sa"
| "srun (l # ls) sa =
     (if sas_crashed sa then None else (case sstep l sa of None \<Rightarrow> None | Some t \<Rightarrow> srun ls t))"

text \<open>The states a run reaches, as an inductive relation with its inversion rules.\<close>

inductive sreach :: "StabilityAssist \<Rightarrow> bool" where
  sreach_init: "sreach GetStabilityAssist"
| sreach_step: "sreach sa \<Longrightarrow> \<not> sas_crashed sa \<Longrightarrow> sstep l sa = Some sa' \<Longrightarrow> sreach sa'"

fun_cases sstep_MonEnterE: "sstep (MonEnter i) sa = Some t"
fun_cases sstep_MonHeadE: "sstep (MonHead i) sa = Some t"
fun_cases sstep_MonTimerE: "sstep (MonTimer i) sa = Some t"
fun_cases sstep_MonRecvE: "sstep (MonRecv i) sa = Some t"
fun_cases sstep_MonProbeE: "sstep (MonProbe i ok) sa = Some t"

lemmas sstep_elims = sstep_MonEnterE sstep_MonHeadE sstep_MonTimerE sstep_MonRecvE sstep_MonProbeE

lemma probe_frame [simp, go_frame]:
  "monitors (probe ok sa) = monitors sa" "intr (probe ok sa) = intr sa"
  "Forground (probe ok sa) = Forground sa" "SASS (probe ok sa) = SASS sa"
  by (simp_all add: probe_def probeFail_def Let_def)

lemma try_send_frame [simp, go_frame]:
  "monitors (try_send x sa) = monitors sa" "armed (try_send x sa) = armed sa"
  "Engaged (try_send x sa) = Engaged sa" "probe_failures (try_send x sa) = probe_failures sa"
  "SASS (try_send x sa) = SASS sa" "sas_crashed (try_send x sa) = sas_crashed sa"
  "intr (try_send x sa) \<noteq> None"
  by (simp_all add: try_send_def split: option.split)

section \<open>Waiting times\<close>

definition wait_ok :: "monitor \<Rightarrow> bool" where
  "wait_ok m \<longleftrightarrow> 15 \<le> waitsec m \<and> waitsec m \<le> 500"

lemma next_wait_bounds: "15 \<le> w \<Longrightarrow> w \<le> 500 \<Longrightarrow> 15 \<le> next_wait b f w \<and> next_wait b f w \<le> 500"
  by (auto simp: next_wait_def Let_def)

lemma wait_ok_phase [simp]: "wait_ok (m\<lparr>mphase := ph\<rparr>) = wait_ok m"
  by (simp add: wait_ok_def)

lemma wait_ok_update:
  assumes "\<forall>m \<in> set ms. wait_ok m" and "wait_ok x"
  shows "\<forall>m \<in> set (ms[i := x]). wait_ok m"
  using assms set_update_subset_insert by fastforce

lemma wait_ok_set_phase:
  assumes "\<forall>m \<in> set (monitors s). wait_ok m" and "mon_in s i ph'"
  shows "\<forall>m \<in> set (monitors (set_phase i ph s)). wait_ok m"
proof -
  have "wait_ok (monitors s ! i)" using assms by (simp add: mon_in_def)
  then show ?thesis
    using wait_ok_update [OF assms(1), of "(monitors s ! i)\<lparr>mphase := ph\<rparr>" i] by (simp add: set_phase_def)
qed

lemma mon_in_frame [simp]:
  "mon_in (sa\<lparr>intr := x\<rparr>) i ph = mon_in sa i ph" "mon_in (probe ok sa) i ph = mon_in sa i ph"
  by (simp_all add: mon_in_def)

lemma sstep_wait_ok:
  assumes "sstep l sa = Some sa'" and ok: "\<forall>m \<in> set (monitors sa). wait_ok m"
  shows "\<forall>m \<in> set (monitors sa'). wait_ok m"
proof (cases l)
  case (MonHead i)
  from MonHead assms(1) have i: "i < length (monitors sa)" by (simp add: mon_in_def split: if_splits)
  then have "wait_ok (monitors sa ! i)" using ok by simp
  then have "wait_ok (loop_head (Forground sa) (monitors sa ! i))"
    using next_wait_bounds by (simp add: wait_ok_def loop_head_def)
  from wait_ok_update [OF ok this]
  have "\<forall>m \<in> set ((monitors sa)[i := loop_head (Forground sa) (monitors sa ! i)]). wait_ok m" .
  moreover have "\<forall>m \<in> set (take i (monitors sa) @ drop (Suc i) (monitors sa)). wait_ok m"
    using ok by (auto dest: in_set_takeD in_set_dropD)
  moreover have "monitors sa' = (if Engaged sa
      then (monitors sa)[i := loop_head (Forground sa) (monitors sa ! i)]
      else take i (monitors sa) @ drop (Suc i) (monitors sa))"
    using MonHead assms(1) by (auto split: if_splits)
  ultimately show ?thesis by simp
next
  case (MonEnter i)
  with assms show ?thesis using wait_ok_set_phase [of "sa\<lparr>intr := None\<rparr>" i] by (auto split: if_splits)
next
  case (MonTimer i)
  with assms show ?thesis using wait_ok_set_phase [of sa i] by (auto split: if_splits)
next
  case (MonRecv i)
  with assms show ?thesis
    using wait_ok_set_phase [of "sa\<lparr>intr := None\<rparr>" i] by (auto split: if_splits option.splits)
next
  case (MonProbe i b)
  with assms show ?thesis using wait_ok_set_phase [of "probe b sa" i] by (auto split: if_splits)
qed (use assms in \<open>auto simp: Start_def Stop_def ProbeNowOpi_def Let_def new_monitor_def wait_ok_def\<close>)

definition waits_ok :: "StabilityAssist \<Rightarrow> bool" where
  "waits_ok sa \<longleftrightarrow> (\<forall>m \<in> set (monitors sa). wait_ok m)"

lemma waits_ok_init: "waits_ok GetStabilityAssist"
  by (simp add: waits_ok_def GetStabilityAssist_def)

interpretation sas: invariant_system GetStabilityAssist sstep "\<lambda>l sa. \<not> sas_crashed sa" srun sreach waits_ok
proof unfold_locales
  show "sreach s \<Longrightarrow> P GetStabilityAssist \<Longrightarrow>
      (\<And>u l t. P u \<Longrightarrow> \<not> sas_crashed u \<Longrightarrow> sstep l u = Some t \<Longrightarrow> P t) \<Longrightarrow> P s" for s P
    by (induction rule: sreach.induct) blast+
  show "waits_ok s \<Longrightarrow> \<not> sas_crashed s \<Longrightarrow> sstep l s = Some t \<Longrightarrow> waits_ok t" for s l t
    using sstep_wait_ok by (simp add: waits_ok_def)
qed (auto intro: sreach_init sreach_step waits_ok_init)

text \<open>One round of monitor \<open>i\<close> whose probe succeeds, and what it changes.\<close>

definition wait_round :: "nat \<Rightarrow> sas_label list" where
  "wait_round i = [MonHead i, MonTimer i, MonProbe i True]"

definition waiting_at :: "nat \<Rightarrow> bool \<Rightarrow> bool \<Rightarrow> int \<Rightarrow> StabilityAssist \<Rightarrow> bool" where
  "waiting_at i fst_round forground w sa \<longleftrightarrow>
     mon_in sa i LoopHead \<and> first (monitors sa ! i) = fst_round \<and> waitsec (monitors sa ! i) = w \<and>
     Engaged sa \<and> Forground sa = forground \<and> \<not> sas_crashed sa"

lemma wait_round_step:
  "waiting_at i b f w sa \<Longrightarrow>
     \<exists>t. srun (wait_round i) sa = Some t \<and> waiting_at i False f (next_wait b f w) t"
  by (simp add: waiting_at_def wait_round_def mon_in_def loop_head_def set_phase_def probe_def)

lemma wait_rounds:
  "waiting_at i False f w sa \<Longrightarrow>
     \<exists>t. srun (concat (replicate n (wait_round i))) sa = Some t \<and>
       waiting_at i False f ((next_wait False f ^^ n) w) t"
proof (induction n arbitrary: w sa)
  case (Suc n)
  obtain t where t: "srun (wait_round i) sa = Some t" "waiting_at i False f (next_wait False f w) t"
    using wait_round_step [OF Suc.prems] by blast
  from Suc.IH [OF t(2)] t(1) show ?case by (simp add: sas.run_append funpow_swap1)
qed simp

lemma wait_head:
  "waiting_at i b f w sa \<Longrightarrow>
     \<exists>t. srun [MonHead i] sa = Some t \<and> mon_in t i Sleeping \<and> waitsec (monitors t ! i) = next_wait b f w"
  by (simp add: waiting_at_def mon_in_def loop_head_def)

definition back_off :: "int list" where
  "back_off = [30, 45, 67, 100, 150, 225, 337, 500]"

lemma next_wait_background: "(next_wait False False ^^ n) 30 = back_off ! min n 7"
proof -
  have first: "map (\<lambda>n. ((next_wait False False) ^^ n) 30) [0..<8] = back_off"
    by (simp add: upt_rec numeral_eq_Suc next_wait_def back_off_def)
  have small: "(next_wait False False ^^ k) 30 = back_off ! k" if "k \<le> 7" for k
    using that unfolding first [symmetric] by (simp add: nth_append)
  have "(next_wait False False ^^ k) 30 = 500" if "7 \<le> k" for k
    using that
  proof (induction k rule: nat_induct_at_least)
    case base
    with small [of 7] show ?case by (simp add: back_off_def)
  next
    case (Suc k)
    then show ?case by (simp add: next_wait_def)
  qed
  with small [of n] show ?thesis by (auto simp: min_def back_off_def)
qed

text \<open>
  C36. Waiting times: a monitor that has just been started and whose probes succeed sleeps 30
  seconds in its first round; then, while the application is in the foreground, 15 seconds, and in
  the background half as long again each time, up to 500 seconds from the eighth round on. In every
  reachable state every monitor waits between 15 and 500 seconds.
\<close>

theorem monitor_waits:
  assumes "sreach sa" and "mon_in sa i LoopHead" and "first (monitors sa ! i)" and "Engaged sa"
    and "\<not> sas_crashed sa"
  shows "(\<forall>m \<in> set (monitors sa). 15 \<le> waitsec m \<and> waitsec m \<le> 500) \<and>
    (\<exists>t. srun (concat (replicate n [MonHead i, MonTimer i, MonProbe i True]) @ [MonHead i]) sa = Some t \<and>
       mon_in t i Sleeping \<and>
       waitsec (monitors t ! i) =
         (if n = 0 then 30 else if Forground sa then 15
          else [30, 45, 67, 100, 150, 225, 337, 500] ! min n 7))"
proof
  show "\<forall>m \<in> set (monitors sa). 15 \<le> waitsec m \<and> waitsec m \<le> 500"
    using sas.reach_inv [OF assms(1)] by (simp add: waits_ok_def wait_ok_def)
  have start: "waiting_at i True (Forground sa) (waitsec (monitors sa ! i)) sa"
    using assms by (simp add: waiting_at_def)
  show "\<exists>t. srun (concat (replicate n [MonHead i, MonTimer i, MonProbe i True]) @ [MonHead i]) sa = Some t \<and>
       mon_in t i Sleeping \<and>
       waitsec (monitors t ! i) =
         (if n = 0 then 30 else if Forground sa then 15
          else [30, 45, 67, 100, 150, 225, 337, 500] ! min n 7)"
  proof (cases n)
    case 0
    with wait_head [OF start] show ?thesis by (auto simp: next_wait_def)
  next
    case (Suc k)
    obtain t where t: "srun (wait_round i) sa = Some t" "waiting_at i False (Forground sa) 30 t"
      using wait_round_step [OF start] by (auto simp: next_wait_def)
    obtain u where u: "srun (concat (replicate k (wait_round i))) t = Some u"
      "waiting_at i False (Forground sa) ((next_wait False (Forground sa) ^^ k) 30) u"
      using wait_rounds [OF t(2)] by blast
    obtain v where v: "srun [MonHead i] u = Some v" "mon_in v i Sleeping"
      "waitsec (monitors v ! i) = (next_wait False (Forground sa) ^^ n) 30"
      using wait_head [OF u(2)] Suc by auto
    have "srun (concat (replicate n (wait_round i)) @ [MonHead i]) sa = Some v"
      using t(1) u(1) v(1) Suc by (simp add: sas.run_append del: srun.simps)
    moreover have "(next_wait False (Forground sa) ^^ n) 30 = (if Forground sa then 15 else back_off ! min n 7)"
      using next_wait_background [of n] Suc by (simp add: next_wait_def)
    ultimately show ?thesis using v Suc by (simp add: wait_round_def back_off_def)
  qed
qed

section \<open>Alarms\<close>

lemma Start_frame [simp]:
  "armed (Start sa) = False" "Engaged (Start sa) = True" "probe_failures (Start sa) = probe_failures sa"
  by (simp_all add: Start_def Let_def)

lemma sstep_armed:
  assumes "sstep l sa = Some t" and "armed t"
  shows "(\<exists>i. l = MonProbe i True) \<or> armed sa \<and> l \<noteq> StartCall"
  using assms
  by (cases l) (auto simp: Stop_def ProbeNowOpi_def set_phase_def probe_def probeFail_def Let_def
      split: if_splits option.splits)

lemma armed_history:
  "srun ls GetStabilityAssist = Some s \<Longrightarrow> armed s \<Longrightarrow>
     \<exists>pre i post. ls = pre @ MonProbe i True # post \<and> StartCall \<notin> set post"
proof (induction ls arbitrary: s rule: rev_induct)
  case Nil
  then show ?case by (auto simp: GetStabilityAssist_def)
next
  case (snoc l ls)
  then obtain t where t: "srun ls GetStabilityAssist = Some t" "sstep l t = Some s"
    by (auto simp: sas.run_append split: option.splits if_splits)
  from sstep_armed [OF t(2) snoc.prems(2)] show ?case
  proof
    assume "\<exists>i. l = MonProbe i True"
    then obtain i where "l = MonProbe i True" by blast
    then have "ls @ [l] = ls @ MonProbe i True # []" by simp
    then show ?thesis by fastforce
  next
    assume l: "armed t \<and> l \<noteq> StartCall"
    with snoc.IH t(1) obtain pre i post where "ls = pre @ MonProbe i True # post" "StartCall \<notin> set post"
      by blast
    with l have "ls @ [l] = pre @ MonProbe i True # (post @ [l])" "StartCall \<notin> set (post @ [l])"
      by auto
    then show ?thesis by blast
  qed
qed

text \<open>
  C34. No false alarm: the application is told of a failed probe only by a probe that failed after
  another one has succeeded since the last start, and the monitor is disengaged by then.
\<close>

theorem alarm_only_when_armed:
  assumes "srun ls GetStabilityAssist = Some s" and "sstep l s = Some t"
    and "probe_failures t \<noteq> probe_failures s"
  shows "\<not> Engaged t \<and> (\<exists>j. l = MonProbe j False) \<and>
    (\<exists>pre i post. ls = pre @ MonProbe i True # post \<and> StartCall \<notin> set post)"
proof -
  have "armed s \<and> \<not> Engaged t \<and> (\<exists>j. l = MonProbe j False)"
    using assms(2,3)
    by (cases l) (auto simp: Stop_def ProbeNowOpi_def set_phase_def probe_def probeFail_def Let_def
        split: if_splits option.splits)
  with armed_history [OF assms(1)] show ?thesis by blast
qed

section \<open>Stopping\<close>

lemma probe_stopped:
  "\<not> Engaged sa \<Longrightarrow> \<not> Engaged (probe ok sa)"
  "SASS sa \<Longrightarrow> sas_crashed (probe ok sa) = sas_crashed sa"
  by (simp_all add: probe_def probeFail_def Let_def)

text \<open>
  C35. Stopping does not wait for the timer: when the only monitor sleeps, the message of the stop
  call wakes it, or an older message does, and after at most one more probe, however that ends, no
  monitor is left.
\<close>

theorem stop_ends_monitor:
  assumes "monitors s = [m]" and "mphase m = Sleeping" and "\<not> sas_crashed s" and "SASS s"
  shows "\<exists>t u. sstep StopCall s = Some t \<and> monitors u = [] \<and>
    (srun [MonRecv 0, MonHead 0] t = Some u \<or> srun [MonRecv 0, MonProbe 0 ok, MonHead 0] t = Some u)"
proof -
  let ?t = "Stop s"
  have t: "monitors ?t = [m]" "\<not> Engaged ?t" "\<not> sas_crashed ?t" "SASS ?t" "intr ?t \<noteq> None"
    using assms by (simp_all add: Stop_def)
  then obtain x where x: "intr ?t = Some x" by auto
  have "\<exists>u. srun [MonRecv 0, MonHead 0] ?t = Some u \<and> monitors u = []" if "x = 0"
    using that t x assms(2) by (simp add: mon_in_def set_phase_def)
  moreover have "\<exists>u. srun [MonRecv 0, MonProbe 0 ok, MonHead 0] ?t = Some u \<and> monitors u = []" if "x \<noteq> 0"
    using that t x assms(2) probe_stopped by (simp add: mon_in_def set_phase_def)
  moreover have "sstep StopCall s = Some ?t" by simp
  ultimately show ?thesis by blast
qed

text \<open>Steps that neither stop the monitor nor let a probe fail.\<close>

fun goes_on :: "sas_label \<Rightarrow> bool" where
  "goes_on StopCall = False"
| "goes_on (MonProbe i ok) = ok"
| "goes_on l = True"

lemma goes_on_iff: "goes_on l \<longleftrightarrow> l \<noteq> StopCall \<and> (\<forall>i. l \<noteq> MonProbe i False)"
  by (cases l) auto

lemma sstep_goes_on:
  assumes "goes_on l" and "Engaged sa" and "sstep l sa = Some t"
  shows "Engaged t \<and> length (monitors sa) \<le> length (monitors t)"
  using assms
  by (cases l) (auto simp: Start_def ProbeNowOpi_def set_phase_def probe_def Let_def
      split: if_splits option.splits)

lemma srun_goes_on:
  "srun ls sa = Some t \<Longrightarrow> list_all goes_on ls \<Longrightarrow> Engaged sa \<Longrightarrow>
     Engaged t \<and> length (monitors sa) \<le> length (monitors t)"
proof (induction ls arbitrary: sa)
  case (Cons l ls)
  then obtain u where u: "sstep l sa = Some u" "srun ls u = Some t"
    by (auto split: if_splits option.splits)
  with sstep_goes_on [OF _ Cons.prems(3) u(1)] Cons show ?case by fastforce
qed simp

text \<open>
  C37. Stopping and starting again at once: whenever all monitors sleep, a stop directly followed by
  a start can leave them all alive beside the new one, which takes the message that was to wake one
  of them; and since they find the object engaged when they wake, none of them ever ends as long as
  there is no other stop and no probe fails.
\<close>

theorem restart_doubles_monitor:
  assumes "\<forall>m \<in> set (monitors s). mphase m = Sleeping" and "\<not> sas_crashed s"
    and "n = length (monitors s)"
  shows "\<exists>t m. srun [StopCall, StartCall, MonEnter n, MonHead n] s = Some t \<and>
     monitors t = monitors s @ [m] \<and> mphase m = Sleeping \<and> Engaged t \<and> intr t = None \<and>
     (\<forall>ls u. srun ls t = Some u \<longrightarrow> StopCall \<notin> set ls \<longrightarrow> (\<forall>i. MonProbe i False \<notin> set ls) \<longrightarrow>
        Engaged u \<and> Suc n \<le> length (monitors u))"
proof -
  define m where "m = loop_head (Forground s) (new_monitor\<lparr>mphase := LoopHead\<rparr>)"
  define t where "t = s\<lparr>Engaged := True, armed := False, intr := None, monitors := monitors s @ [m]\<rparr>"
  have run: "srun [StopCall, StartCall, MonEnter n, MonHead n] s = Some t"
    using assms(2,3)
    by (simp add: Start_def Stop_def try_send_def mon_in_def set_phase_def m_def t_def new_monitor_def
        split: option.split)
  have "Engaged u \<and> Suc n \<le> length (monitors u)"
    if u: "srun ls t = Some u" "StopCall \<notin> set ls" "\<forall>i. MonProbe i False \<notin> set ls" for ls u
  proof -
    from u(2,3) have "\<forall>l \<in> set ls. goes_on l" using goes_on_iff by metis
    with srun_goes_on [OF u(1)] show ?thesis by (simp add: list_all_iff t_def assms(3))
  qed
  with run show ?thesis by (intro exI [of _ t] exI [of _ m]) (simp add: t_def m_def loop_head_def)
qed

section \<open>Instances\<close>

definition armed_labels :: "sas_label list" where
  "armed_labels = [SetSASS True, StartCall, MonEnter 0, MonHead 0, MonTimer 0, MonProbe 0 True, MonHead 0, MonTimer 0]"

lemma armed_run:
  "\<exists>s t. srun armed_labels GetStabilityAssist = Some s \<and> monitors s \<noteq> [] \<and> sstep (MonProbe 0 False) s = Some t \<and>
     probe_failures t \<noteq> probe_failures s"
  by (simp add: armed_labels_def GetStabilityAssist_def Start_def try_send_def new_monitor_def
      mon_in_def set_phase_def loop_head_def next_wait_def probe_def probeFail_def Let_def)

text \<open>A monitor of a background application at the head of its first round.\<close>

definition background_labels :: "sas_label list" where
  "background_labels = [SetForground False, StartCall, MonEnter 0]"

lemma background_run:
  "\<exists>s. srun background_labels GetStabilityAssist = Some s \<and> mon_in s 0 LoopHead \<and>
     first (monitors s ! 0) \<and> Engaged s \<and> \<not> Forground s \<and> \<not> sas_crashed s"
  by (simp add: background_labels_def GetStabilityAssist_def Start_def try_send_def new_monitor_def
      mon_in_def set_phase_def)

theorem monitor_waits_witness:
  "\<exists>s t. srun background_labels GetStabilityAssist = Some s \<and>
     srun (concat (replicate 2 [MonHead 0, MonTimer 0, MonProbe 0 True]) @ [MonHead 0]) s = Some t \<and>
     waitsec (monitors t ! 0) = 67"
proof -
  obtain s where s: "srun background_labels GetStabilityAssist = Some s" "mon_in s 0 LoopHead"
    "first (monitors s ! 0)" "Engaged s" "\<not> Forground s" "\<not> sas_crashed s"
    using background_run by blast
  from monitor_waits [OF sas.run_init [OF s(1)] s(2,3,4,6), of 2] s(1,5) show ?thesis
    by (auto simp del: srun.simps)
qed

theorem restart_doubles_monitor_witness:
  "\<exists>s t. srun (background_labels @ [MonHead 0]) GetStabilityAssist = Some s \<and>
     srun [StopCall, StartCall, MonEnter 1, MonHead 1] s = Some t \<and> length (monitors t) = 2"
proof -
  obtain s where s: "srun (background_labels @ [MonHead 0]) GetStabilityAssist = Some s"
    "\<forall>m \<in> set (monitors s). mphase m = Sleeping" "\<not> sas_crashed s" "1 = length (monitors s)"
    by (simp add: background_labels_def GetStabilityAssist_def Start_def try_send_def new_monitor_def
      mon_in_def set_phase_def loop_head_def)
  from restart_doubles_monitor [OF s(2-4)] obtain t where
    "srun [StopCall, StartCall, MonEnter 1, MonHead 1] s = Some t" "length (monitors t) = 2"
    using s(4) by auto
  with s(1) show ?thesis by blast
qed

theorem alarm_only_when_armed_witness:
  "\<exists>s t. srun armed_labels GetStabilityAssist = Some s \<and> sstep (MonProbe 0 False) s = Some t \<and> \<not> Engaged t"
proof -
  obtain s t where s: "srun armed_labels GetStabilityAssist = Some s" "sstep (MonProbe 0 False) s = Some t"
    "probe_failures t \<noteq> probe_failures s"
    using armed_run by blast
  from alarm_only_when_armed [OF this] s show ?thesis by blast
qed

theorem stop_ends_monitor_witness:
  "\<exists>t u. sstep StopCall (GetStabilityAssist\<lparr>SASS := True, monitors := [loop_head True new_monitor]\<rparr>) = Some t \<and>
     monitors u = [] \<and>
     (srun [MonRecv 0, MonHead 0] t = Some u \<or> srun [MonRecv 0, MonProbe 0 False, MonHead 0] t = Some u)"
  by (rule stop_ends_monitor [where m = "loop_head True new_monitor"]) (simp_all add: loop_head_def new_monitor_def GetStabilityAssist_def)

end
