(* ===== verification/Words.thy ===== *)
theory Words
  imports GoLib "HOL-Library.Word"
begin

text \<open>Small numbers as machine integers: reading a word back gives the number.\<close>

lemma sint_of_nat_small:
  assumes "32 \<le> LENGTH('w::len)" and "n < 2 ^ 31"
  shows "sint (of_nat n :: 'w word) = int n"
proof -
  have "(2::nat) ^ 31 \<le> 2 ^ (LENGTH('w) - 1)"
    using assms(1) by (intro power_increasing) auto
  with assms(2) have "int n < 2 ^ (LENGTH('w) - 1)"
    by (metis (mono_tags) less_le_trans of_nat_less_iff of_nat_numeral of_nat_power)
  moreover have "- (2 ^ (LENGTH('w) - 1)) \<le> int n"
    by (rule order_trans [of _ 0]) simp_all
  ultimately show ?thesis
    by (simp add: signed_of_nat signed_take_bit_int_eq_self_iff)
qed

lemma sint32 [simp]: "n < 2 ^ 31 \<Longrightarrow> sint (of_nat n :: 32 word) = int n"
  by (rule sint_of_nat_small) simp_all

lemma sint32_diff: "n \<le> g \<Longrightarrow> g < 2 ^ 31 \<Longrightarrow> sint (of_nat g - of_nat n :: 32 word) = int g - int n"
  using sint32 [of "g - n"] by (simp add: of_nat_diff)

end
