(* ===== verification/ZoneId.thy ===== *)
theory ZoneId
  imports Words
begin

text \<open>
  The zone of an IPv6 address as a number (\<open>dtoi\<close> and \<open>zoneToInt\<close> of
  \<open>VPN/vpnservice_support.go\<close>). Go's \<open>int\<close> is kept at its width: the type variable stands for the 32
  or 64 bits of the device, and arithmetic wraps around. That it never does is a theorem.
\<close>

definition big :: int where "big = 0xFFFFFF"

text \<open>The loop of \<open>dtoi\<close>, entered with the next index and the number read so far.\<close>

function dtoi_loop :: "string \<Rightarrow> nat \<Rightarrow> nat \<Rightarrow> 'w::len word \<Rightarrow> 'w word \<times> nat \<times> bool" where
  "dtoi_loop s i0 i n =
     (if i < length s \<and> is_digit (s ! i) then
        (let n' = n * 10 + of_nat (digit_val (s ! i)) in
           if big \<le> sint n' then (0, i, False) else dtoi_loop s i0 (i + 1) n')
      else if i = i0 then (0, i, False)
      else (n, i, True))"
  by auto
termination by (relation "measure (\<lambda>(s, i0, i, n). length s - i)") auto

declare dtoi_loop.simps [simp del]

definition dtoi :: "string \<Rightarrow> nat \<Rightarrow> 'w::len word \<times> nat \<times> bool" where
  "dtoi s i0 = dtoi_loop s i0 i0 0"

text \<open>
  \<open>net.InterfaceByName\<close> is a parameter. Whether \<open>dtoi\<close> succeeded is ignored, so a zone that is
  neither an interface nor a number counts as zone 0.
\<close>

definition zoneToInt :: "(string \<Rightarrow> 'e + 'w::len word) \<Rightarrow> string \<Rightarrow> 'w word" where
  "zoneToInt byname zone =
     (if zone = [] then 0
      else case byname zone of
             Inr index \<Rightarrow> index
           | Inl _ \<Rightarrow> fst (dtoi zone 0))"

section \<open>The number read\<close>

text \<open>The value of a digit string, and the digits at an index of a string.\<close>

definition dec_val :: "string \<Rightarrow> nat" where
  "dec_val ds = foldl (\<lambda>n c. n * 10 + digit_val c) 0 ds"

definition digits_at :: "string \<Rightarrow> nat \<Rightarrow> string" where
  "digits_at s i = takeWhile is_digit (drop i s)"

lemma dec_val_simps [simp]:
  "dec_val [] = 0" "dec_val (ds @ [c]) = dec_val ds * 10 + digit_val c"
  by (simp_all add: dec_val_def)

lemma foldl_digits_mono: "a \<le> foldl (\<lambda>n c. n * 10 + digit_val c) a ds"
proof (induction ds arbitrary: a)
  case (Cons d ds)
  show ?case using Cons [of "a * 10 + digit_val d"] by (simp del: One_nat_def)
qed simp

lemma dec_val_append_mono: "dec_val ds \<le> dec_val (ds @ es)"
  using foldl_digits_mono [of "dec_val ds" es] by (simp add: dec_val_def)

lemma digits_at_step:
  "i < length s \<Longrightarrow> is_digit (s ! i) \<Longrightarrow> digits_at s i = s ! i # digits_at s (Suc i)"
  by (simp add: digits_at_def flip: Cons_nth_drop_Suc)

lemma digits_at_stop: "\<not> (i < length s \<and> is_digit (s ! i)) \<Longrightarrow> digits_at s i = []"
  by (cases "i < length s") (simp_all add: digits_at_def flip: Cons_nth_drop_Suc)

text \<open>One round does not wrap around on at least 32 bits, because the number is below the limit.\<close>

lemma dtoi_round:
  assumes "32 \<le> LENGTH('w::len)" and "int v < big" and "is_digit c"
  shows "sint (of_nat v * 10 + of_nat (digit_val c) :: 'w word) = int (v * 10 + digit_val c)"
proof -
  have "v * 10 + digit_val c < 2 ^ 31"
    using assms(2) digit_val_less [OF assms(3)] by (simp add: big_def)
  from sint_of_nat_small [OF assms(1) this] show ?thesis by (simp add: algebra_simps)
qed

text \<open>The outcome of a run over the digits \<open>ds\<close> from index \<open>i\<close>, with \<open>pre\<close> already read.\<close>

definition dtoi_outcome :: "string \<Rightarrow> nat \<Rightarrow> string \<Rightarrow> 'w::len word \<times> nat \<times> bool \<Rightarrow> bool" where
  "dtoi_outcome pre i ds r \<longleftrightarrow>
     (if int (dec_val (pre @ ds)) < big then r = (of_nat (dec_val (pre @ ds)), i + length ds, True)
      else \<exists>k < length ds. r = (0, i + k, False) \<and>
             int (dec_val (pre @ take k ds)) < big \<and> big \<le> int (dec_val (pre @ take (Suc k) ds)))"

lemma dtoi_outcome_Cons:
  assumes "dtoi_outcome (pre @ [c]) (Suc i) ds r"
  shows "dtoi_outcome pre i (c # ds) r"
proof (cases "int (dec_val (pre @ c # ds)) < big")
  case False
  with assms obtain k where "k < length ds" "r = (0, Suc i + k, False)"
    "int (dec_val (pre @ take (Suc k) (c # ds))) < big"
    "big \<le> int (dec_val (pre @ take (Suc (Suc k)) (c # ds)))"
    by (auto simp: dtoi_outcome_def)
  with False show ?thesis by (auto simp: dtoi_outcome_def intro!: exI [of _ "Suc k"])
qed (use assms in \<open>simp add: dtoi_outcome_def\<close>)

lemma dtoi_loop_outcome:
  assumes "32 \<le> LENGTH('w::len)"
  shows "i0 \<le> i \<Longrightarrow> int (dec_val pre) < big \<Longrightarrow> i0 < i \<or> digits_at s i \<noteq> [] \<Longrightarrow>
    dtoi_outcome pre i (digits_at s i) (dtoi_loop s i0 i (of_nat (dec_val pre) :: 'w word))"
proof (induction "length s - i" arbitrary: i pre rule: less_induct)
  case less
  let ?n = "of_nat (dec_val pre) :: 'w word"
  show ?case
  proof (cases "i < length s \<and> is_digit (s ! i)")
    case False
    with less.prems show ?thesis
      by (subst dtoi_loop.simps) (auto simp: digits_at_stop dtoi_outcome_def)
  next
    case True
    let ?c = "s ! i" and ?v = "dec_val (pre @ [s ! i])"
    have w: "sint (?n * 10 + of_nat (digit_val ?c)) = int ?v"
      using dtoi_round [OF assms less.prems(2)] True by simp
    have d: "digits_at s i = ?c # digits_at s (Suc i)" using True digits_at_step by blast
    show ?thesis
    proof (cases "big \<le> int ?v")
      case big: True
      have "dec_val (pre @ [?c]) \<le> dec_val ((pre @ [?c]) @ digits_at s (Suc i))"
        by (rule dec_val_append_mono)
      with big less.prems(2) w d True show ?thesis
        by (subst dtoi_loop.simps)
          (auto simp: dtoi_outcome_def Let_def intro!: exI [of _ 0])
    next
      case small: False
      have "dtoi_loop s i0 i ?n = dtoi_loop s i0 (Suc i) (of_nat ?v)"
        using True small w by (subst dtoi_loop.simps) (simp add: Let_def algebra_simps)
      moreover have "dtoi_outcome (pre @ [?c]) (Suc i) (digits_at s (Suc i))
          (dtoi_loop s i0 (Suc i) (of_nat ?v :: 'w word))"
        using True small less.prems by (intro less.hyps) auto
      ultimately show ?thesis
        unfolding d by (intro dtoi_outcome_Cons) simp
    qed
  qed
qed

text \<open>
  C30. Reading a number: on a device whose integers have at least 32 bits the arithmetic never
  wraps around. The call succeeds exactly when there is a digit at the index and the digits there
  denote a number below the limit; then it gives that number and the index behind the digits.
  Otherwise it gives 0, with the index of the digit that reached the limit.
\<close>

theorem dtoi_correct:
  assumes "32 \<le> LENGTH('w::len)"
  shows "if digits_at s i0 = [] then dtoi s i0 = (0 :: 'w word, i0, False)
    else if int (dec_val (digits_at s i0)) < big then
      sint (fst (dtoi s i0 :: 'w word \<times> nat \<times> bool)) = int (dec_val (digits_at s i0)) \<and>
      snd (dtoi s i0 :: 'w word \<times> nat \<times> bool) = (i0 + length (digits_at s i0), True)
    else \<exists>k < length (digits_at s i0). dtoi s i0 = (0 :: 'w word, i0 + k, False) \<and>
      int (dec_val (take k (digits_at s i0))) < big \<and> big \<le> int (dec_val (take (Suc k) (digits_at s i0)))"
proof (cases "digits_at s i0 = []")
  case True
  then have "\<not> (i0 < length s \<and> is_digit (s ! i0))" using digits_at_step by force
  then have "dtoi_loop s i0 i0 0 = (0 :: 'w word, i0, False)"
    by (subst dtoi_loop.simps) auto
  with True show ?thesis by (simp add: dtoi_def)
next
  case False
  let ?r = "dtoi s i0 :: 'w word \<times> nat \<times> bool"
  have r: "dtoi_outcome [] i0 (digits_at s i0) ?r"
    using dtoi_loop_outcome [OF assms, of i0 i0 "[]" s] False by (simp add: dtoi_def big_def)
  show ?thesis
  proof (cases "int (dec_val (digits_at s i0)) < big")
    case True
    then have "sint (of_nat (dec_val (digits_at s i0)) :: 'w word) = int (dec_val (digits_at s i0))"
      by (intro sint_of_nat_small [OF assms]) (simp add: big_def)
    with r True False show ?thesis by (simp add: dtoi_outcome_def)
  qed (use r False in \<open>auto simp: dtoi_outcome_def\<close>)
qed

theorem dtoi_correct_witness:
  "sint (fst (dtoi ''eth12'' 3 :: 32 word \<times> nat \<times> bool)) = 12 \<and>
   snd (dtoi ''eth12'' 3 :: 32 word \<times> nat \<times> bool) = (5, True)"
proof -
  have "digits_at ''eth12'' 3 = ''12''" by (simp add: digits_at_def is_digit_def)
  moreover have "dec_val ''12'' = 12" by (simp add: dec_val_def digit_val_def)
  ultimately show ?thesis
    using dtoi_correct [where 'w = 32, of "''eth12''" 3] by (simp add: big_def)
qed

end
