(* ===== verification/CoreStatus.thy ===== *)
theory CoreStatus
  imports GoFS
begin

text \<open>
  Package \<open>CoreI\<close> (the status record every component shares, the data directory and the binding
  version), the version and debug queries of package \<open>libv2ray\<close>, and the string list handed to
  the Java side. The running V2Ray core is code of another repository: its type is a parameter.
\<close>

section \<open>CoreI.Status\<close>

record 'i Status =
  IsRunning :: bool
  VpnSupportnodup :: bool
  PackageName :: string
  Vpoint :: "'i option"

definition new_Status :: "'i Status" where
  "new_Status = \<lparr>IsRunning = False, VpnSupportnodup = False, PackageName = [], Vpoint = None\<rparr>"

definition getDataDir :: "string \<Rightarrow> string" where
  "getDataDir pkg =
     (if pkg \<noteq> [] then ''/data/data/'' @ pkg @ ''/'' else ''/data/data/org.kkdev.v2raygo/'')"

text \<open>The method has a pointer receiver: a nil \<open>*Status\<close> panics on the field access.\<close>

definition GetDataDir :: "'i Status option \<Rightarrow> string go" where
  "GetDataDir st = go_bind (deref st) (\<lambda>v. Inr (getDataDir (PackageName v)))"

lemma GetDataDir_simps [simp]:
  "GetDataDir None = Inl NilDeref"
  "GetDataDir (Some st) = Inr (getDataDir (PackageName st))"
  by (simp_all add: GetDataDir_def)

lemma getDataDir_absolute: "\<exists>d. getDataDir pkg = CHR ''/'' # d @ ''/''"
  by (auto simp: getDataDir_def)

lemma getDataDir_inject:
  assumes "getDataDir p = getDataDir q" and "p \<noteq> []" and "q \<noteq> []"
  shows "p = q"
  using assms by (simp add: getDataDir_def)

text \<open>
  The directory of a package as a list of path elements: what \<open>path.Dir\<close> of a file directly in
  it, or in its \<open>config\<close> subdirectory, gives back.
\<close>

definition package_name :: "string \<Rightarrow> string" where
  "package_name pkg = (if pkg \<noteq> [] then pkg else ''org.kkdev.v2raygo'')"

lemma getDataDir_elems:
  "getDataDir pkg = CHR ''/'' # strings_Join CHR ''/'' [''data'', ''data'', package_name pkg] @ ''/''"
  by (simp add: getDataDir_def package_name_def)

lemma plain_package_name: "pkg = [] \<or> plain_elem pkg \<Longrightarrow> plain_elem (package_name pkg)"
  by (auto simp: package_name_def plain_elem_def)

lemma path_Dir_config:
  assumes "pkg = [] \<or> plain_elem pkg" and "CHR ''/'' \<notin> set name"
  shows "path_Dir (getDataDir pkg @ ''config/'' @ name) = getDataDir pkg @ ''config''"
proof -
  let ?es = "[''data'', ''data'', package_name pkg, ''config'']"
  have "\<forall>e \<in> set ?es. plain_elem e"
    using plain_package_name [OF assms(1)] by (simp add: plain_elem_def)
  then have "path_Dir (CHR ''/'' # strings_Join CHR ''/'' ?es @ CHR ''/'' # name) =
      CHR ''/'' # strings_Join CHR ''/'' ?es"
    using assms(2) by (intro path_Dir_rooted) auto
  then show ?thesis by (simp add: getDataDir_elems)
qed

section \<open>Versions\<close>

definition CheckVersion :: int where
  "CheckVersion = 27"

definition CheckVersionX :: "string \<Rightarrow> string" where
  "CheckVersionX core_version =
     ''Libv2ray rev. '' @ Itoa CheckVersion @ '', along with V2Ray '' @ core_version"

section \<open>Debug trigger\<close>

text \<open>Only a "does not exist" answer turns debugging off; any other failure of the query does not.\<close>

definition isDebugTriggered :: "fs \<Rightarrow> 'i Status option \<Rightarrow> bool go" where
  "isDebugTriggered s st =
     go_bind (GetDataDir st) (\<lambda>dir.
       Inr (case os_Stat s (dir @ ''debug_enabled'') of
              Inl e \<Rightarrow> \<not> os_IsNotExist e
            | Inr _ \<Rightarrow> True))"

definition IsDebugTriggered :: "fs \<Rightarrow> 'i Status option \<Rightarrow> bool go" where
  "IsDebugTriggered s st = isDebugTriggered s st"

section \<open>StringArrayList\<close>

record StringArrayList = sal_list :: "string list"

definition GetLen :: "StringArrayList \<Rightarrow> int" where
  "GetLen al = int (length (sal_list al))"

definition GetElementById :: "StringArrayList \<Rightarrow> int \<Rightarrow> string go" where
  "GetElementById al i = go_index (sal_list al) i"

lemma GetElementById_range:
  "(\<exists>x. GetElementById al i = Inr x) \<longleftrightarrow> 0 \<le> i \<and> i < GetLen al"
  by (simp add: GetElementById_def GetLen_def go_index_def)

end
