(* ===== verification/Configure.thy ===== *)
theory Configure
  imports Prelude
begin

text \<open>
  The protocol buffer messages of \<open>configure/LibV2Ray.proto\<close> as the generated Go structs hold
  them: a message field is a pointer that may be nil (an option), a repeated field a list, a map
  field a HOL map.
\<close>

record VPNServiceConfig =
  vs_Target :: string
  vs_Args :: "string list"
  VPNSetupArg :: string

record DNSLoopFix =
  TCPVersion :: string
  UDPVersion :: string
  DomainNameList :: "string list"

record VPNConfig =
  Service :: "VPNServiceConfig option"
  PreparedDomainName :: "DNSLoopFix option"

record EscortedProcess =
  ep_Target :: string
  ep_Args :: "string list"
  ep_Forgiveable :: bool

record UpDownScripts =
  UpScript :: string
  DownScript :: string

record RootModeConfig =
  Escorting :: "EscortedProcess list"
  Scripts :: "UpDownScripts option"

record EnvironmentVar =
  Vars :: "string \<rightharpoonup> string"

record LibV2RayConf =
  NoAutoConvert :: bool
  VpnConf :: "VPNConfig option"
  RootModeConf :: "RootModeConfig option"
  Env :: "EnvironmentVar option"

text \<open>A Go struct literal without fields: every field has its zero value.\<close>

definition zero_VPNServiceConfig :: VPNServiceConfig where
  "zero_VPNServiceConfig = \<lparr>vs_Target = [], vs_Args = [], VPNSetupArg = []\<rparr>"

definition zero_DNSLoopFix :: DNSLoopFix where
  "zero_DNSLoopFix = \<lparr>TCPVersion = [], UDPVersion = [], DomainNameList = []\<rparr>"

definition zero_VPNConfig :: VPNConfig where
  "zero_VPNConfig = \<lparr>Service = None, PreparedDomainName = None\<rparr>"

definition zero_LibV2RayConf :: LibV2RayConf where
  "zero_LibV2RayConf =
     \<lparr>NoAutoConvert = False, VpnConf = None, RootModeConf = None, Env = None\<rparr>"

end
