(* ===== verification/Environment.thy ===== *)
theory Environment
  imports CoreStatus Configure
begin

text \<open>
  Process environments: \<open>Process/environment.go\<close> builds the variables of a child process from
  the configuration and the status, \<open>envToMap\<close> of \<open>configure/jsonConvert\<close> parses
  \<open>key=value\<close> lists back, and the children see the last value of each variable (the rule of
  \<open>os/exec\<close>). The lemmas give the round trip, the exact panic condition of \<open>envToMap\<close>, and
  which source of a variable wins.
\<close>

section \<open>Parsing key=value lists\<close>

definition env_entry :: "string \<Rightarrow> (string \<rightharpoonup> string) \<Rightarrow> (string \<rightharpoonup> string) go" where
  "env_entry val themap =
     (let r = strings_Index val (CHR ''='') in
        go_bind (go_slice val 0 r) (\<lambda>k.
        go_bind (go_slice val (r + 1) (int (length val))) (\<lambda>v.
          Inr (themap(k \<mapsto> v)))))"

definition envToMap :: "string list \<Rightarrow> (string \<rightharpoonup> string) go" where
  "envToMap k = go_fold env_entry k Map.empty"

definition kv :: "string \<Rightarrow> string \<Rightarrow> string" where
  "kv k v = k @ CHR ''='' # v"

definition env_ok :: "string \<Rightarrow> bool" where
  "env_ok s \<longleftrightarrow> CHR ''='' \<in> set s"

text \<open>The parts of an entry around its first equals sign.\<close>

definition entry_kv :: "string \<Rightarrow> (string \<times> string) option" where
  "entry_kv s = map_option (\<lambda>i. (take i s, drop (Suc i) s)) (index_char (CHR ''='') s)"

lemma entry_kv_kv [simp]: "CHR ''='' \<notin> set k \<Longrightarrow> entry_kv (kv k v) = Some (k, v)"
  by (simp add: entry_kv_def kv_def index_char_append)

lemma entry_kv_None [simp]: "entry_kv s = None \<longleftrightarrow> \<not> env_ok s"
  by (simp add: entry_kv_def env_ok_def index_char_None)

lemma env_ok_kv [simp]: "env_ok (kv k v)"
  by (simp add: env_ok_def kv_def)

lemma entry_kv_SomeD: "entry_kv s = Some (k, v) \<Longrightarrow> s = kv k v \<and> CHR ''='' \<notin> set k"
  by (auto simp: entry_kv_def kv_def dest: index_char_SomeD)

lemma env_entry_kv: "CHR ''='' \<notin> set k \<Longrightarrow> env_entry (kv k v) m = Inr (m(k \<mapsto> v))"
  by (simp add: env_entry_def kv_def strings_Index_append del: length_append)

lemma env_entry_ok: "entry_kv s = Some (k, v) \<Longrightarrow> env_entry s m = Inr (m(k \<mapsto> v))"
  by (auto dest!: entry_kv_SomeD simp: env_entry_kv)

lemma env_entry_bad: "\<not> env_ok s \<Longrightarrow> env_entry s m = Inl SliceBounds"
  by (simp add: env_entry_def env_ok_def strings_Index_absent go_slice_neg)

lemma env_fold_ok:
  "\<forall>s \<in> set xs. env_ok s \<Longrightarrow>
     go_fold env_entry xs m = Inr (m ++ map_of (rev (List.map_filter entry_kv xs)))"
proof (induction xs arbitrary: m)
  case (Cons x xs)
  then obtain k v where kv: "entry_kv x = Some (k, v)"
    by (cases "entry_kv x") auto
  with Cons show ?case
    by (simp add: env_entry_ok List.map_filter_simps)
qed (simp add: List.map_filter_simps)

lemma env_fold_bad:
  "\<exists>s \<in> set xs. \<not> env_ok s \<Longrightarrow> go_fold env_entry xs m = Inl SliceBounds"
proof (induction xs arbitrary: m)
  case (Cons x xs)
  show ?case
  proof (cases "env_ok x")
    case True
    then obtain k v where "entry_kv x = Some (k, v)" by (cases "entry_kv x") auto
    with True Cons show ?thesis by (auto simp: env_entry_ok)
  next
    case False
    then show ?thesis by (simp add: env_entry_bad)
  qed
qed simp

text \<open>
  What a child process sees: \<open>os/exec\<close> keeps the last entry for each variable and passes
  entries without an equals sign on.
\<close>

definition effective_env :: "string list \<Rightarrow> string \<rightharpoonup> string" where
  "effective_env env = map_of (rev (List.map_filter entry_kv env))"

lemma effective_env_append: "effective_env (xs @ ys) = effective_env xs ++ effective_env ys"
  by (simp add: effective_env_def List.map_filter_def)

lemma effective_env_Nil [simp]: "effective_env [] = Map.empty"
  by (simp add: effective_env_def List.map_filter_simps)

lemma effective_env_kv [simp]:
  "CHR ''='' \<notin> set k \<Longrightarrow> effective_env (kv k v # xs) = [k \<mapsto> v] ++ effective_env xs"
  by (simp add: effective_env_def List.map_filter_simps)

lemma envToMap_ok: "\<forall>s \<in> set xs. env_ok s \<Longrightarrow> envToMap xs = Inr (effective_env xs)"
  by (simp add: envToMap_def effective_env_def env_fold_ok)

text \<open>
  C14. Panic condition of \<open>envToMap\<close>: it returns a map exactly when every entry holds an
  equals sign, and otherwise panics with a slice bounds error. In particular a configuration
  whose \<open>env\<close> list has an entry without one ends the process.
\<close>

theorem envToMap_cases:
  "envToMap xs =
     (if list_all env_ok xs then Inr (effective_env xs) else Inl SliceBounds)"
  using envToMap_ok [of xs] by (auto simp: list_all_iff envToMap_def intro: env_fold_bad)

section \<open>Building the environment\<close>

definition EnvJoins :: "(string \<times> string) list \<Rightarrow> string list" where
  "EnvJoins it = map (\<lambda>(i, v). kv i v) it"

record 'i EnvironmentCreater =
  ec_Conf :: "EnvironmentVar option"
  ec_Context :: "'i Status option"

text \<open>\<open>uid\<close> is \<open>os.Getuid()\<close>.\<close>

definition AddEnvironment ::
  "int \<Rightarrow> 'i EnvironmentCreater \<Rightarrow> string list \<Rightarrow> string list go" where
  "AddEnvironment uid v env =
     go_bind (GetDataDir (ec_Context v)) (\<lambda>datadir.
       Inr ((env @ [''proxyuid='' @ Itoa uid]) @ [''datadir='' @ datadir]))"

text \<open>\<open>it\<close> is the sequence in which this call's loop visits the configured variables.\<close>

definition GetEnvironment ::
  "int \<Rightarrow> (string \<times> string) list \<Rightarrow> 'i EnvironmentCreater \<Rightarrow> string list go" where
  "GetEnvironment uid it v =
     (case ec_Conf v of
        None \<Rightarrow> AddEnvironment uid v []
      | Some c \<Rightarrow> AddEnvironment uid v (EnvJoins it))"

definition may_range :: "(string \<times> string) list \<Rightarrow> 'i EnvironmentCreater \<Rightarrow> bool" where
  "may_range it v \<longleftrightarrow> (case ec_Conf v of None \<Rightarrow> True | Some c \<Rightarrow> ranges it (Vars c))"

text \<open>The configured variables, none when there is no configuration.\<close>

definition conf_vars :: "'i EnvironmentCreater \<Rightarrow> string \<rightharpoonup> string" where
  "conf_vars v = (case ec_Conf v of None \<Rightarrow> Map.empty | Some c \<Rightarrow> Vars c)"

definition status_vars :: "int \<Rightarrow> 'i Status \<Rightarrow> string \<rightharpoonup> string" where
  "status_vars uid st =
     [''proxyuid'' \<mapsto> Itoa uid, ''datadir'' \<mapsto> getDataDir (PackageName st)]"

lemma added_entries:
  "''proxyuid='' @ x = kv ''proxyuid'' x" "''datadir='' @ x = kv ''datadir'' x"
  by (simp_all add: kv_def)

lemma AddEnvironment_Some:
  "ec_Context v = Some st \<Longrightarrow>
     AddEnvironment uid v env =
       Inr (env @ [kv ''proxyuid'' (Itoa uid), kv ''datadir'' (getDataDir (PackageName st))])"
  by (simp add: AddEnvironment_def kv_def)

lemma AddEnvironment_nil [simp]: "ec_Context v = None \<Longrightarrow> AddEnvironment uid v env = Inl NilDeref"
  by (simp add: AddEnvironment_def)

lemma effective_status_vars:
  "effective_env [kv ''proxyuid'' (Itoa uid), kv ''datadir'' (getDataDir (PackageName st))] =
     status_vars uid st"
  by (simp add: status_vars_def)

definition keys_ok :: "(string \<rightharpoonup> string) \<Rightarrow> bool" where
  "keys_ok m \<longleftrightarrow> (\<forall>k \<in> dom m. CHR ''='' \<notin> set k)"

lemma effective_EnvJoins:
  assumes "ranges it m" and "keys_ok m"
  shows "effective_env (EnvJoins it) = m"
proof -
  have "List.map_filter entry_kv (EnvJoins it) = it" if "\<forall>(k, v) \<in> set it. CHR ''='' \<notin> set k"
    using that by (induction it) (auto simp: EnvJoins_def List.map_filter_simps)
  moreover have "\<forall>(k, v) \<in> set it. CHR ''='' \<notin> set k"
    using assms ranges_in_set [OF assms(1)] by (fastforce simp: keys_ok_def)
  moreover have "map_of (rev it) = map_of it"
    using assms(1) by (subst map_of_inject_set) (simp_all add: ranges_def rev_map [symmetric])
  ultimately show ?thesis using assms(1) by (simp add: effective_env_def ranges_def)
qed

lemma EnvJoins_ok: "list_all env_ok (EnvJoins it)"
  by (auto simp: EnvJoins_def list_all_iff)

lemma GetEnvironment_ok:
  assumes "ec_Context v = Some st"
  shows "\<exists>e. GetEnvironment uid it v = Inr e \<and> list_all env_ok e \<and>
     (may_range it v \<longrightarrow> keys_ok (conf_vars v) \<longrightarrow>
        effective_env e = conf_vars v ++ status_vars uid st)"
  using assms EnvJoins_ok [of it]
  by (auto simp: GetEnvironment_def AddEnvironment_Some conf_vars_def may_range_def
        effective_env_append effective_EnvJoins effective_status_vars simp del: effective_env_kv
        split: option.split)

text \<open>
  C9. Round trip of the environment: parsing the list a configured process is given returns
  the configured variables, whatever order the runtime visits the map in, with \<open>proxyuid\<close> and
  \<open>datadir\<close> set from the running user and the package, also where the configuration sets
  them itself.
\<close>

theorem GetEnvironment_roundtrip:
  assumes "ec_Context v = Some st" and "may_range it v" and "keys_ok (conf_vars v)"
  shows "go_bind (GetEnvironment uid it v) envToMap =
     Inr (conf_vars v ++ [''proxyuid'' \<mapsto> Itoa uid, ''datadir'' \<mapsto> getDataDir (PackageName st)])"
proof -
  obtain e where "GetEnvironment uid it v = Inr e" "list_all env_ok e"
    "effective_env e = conf_vars v ++ status_vars uid st"
    using GetEnvironment_ok [OF assms(1)] assms(2,3) by blast
  then show ?thesis by (simp add: envToMap_cases status_vars_def)
qed

theorem GetEnvironment_roundtrip_witness:
  "go_bind (GetEnvironment 10123 [(''V2RaySocksPort'', ''10808''), (''datadir'', ''x'')]
       \<lparr>ec_Conf = Some \<lparr>Vars = [''V2RaySocksPort'' \<mapsto> ''10808'', ''datadir'' \<mapsto> ''x'']\<rparr>,
        ec_Context = Some (new_Status\<lparr>PackageName := ''org.app''\<rparr> :: unit Status)\<rparr>) envToMap =
     Inr ([''V2RaySocksPort'' \<mapsto> ''10808'', ''datadir'' \<mapsto> ''x''] ++
          [''proxyuid'' \<mapsto> Itoa 10123, ''datadir'' \<mapsto> getDataDir ''org.app''])"
  by (subst GetEnvironment_roundtrip [where st = "new_Status\<lparr>PackageName := ''org.app''\<rparr>"])
     (auto simp: may_range_def conf_vars_def keys_ok_def ranges_def split: if_splits)

section \<open>The environment of a child\<close>

text \<open>
  Escorted processes and scripts are given the environment above, then the inherited one
  (\<open>environ\<close>, that is \<open>os.Environ()\<close>), then \<open>proxyuid\<close> and \<open>datadir\<close> again.
\<close>

definition child_env ::
  "int \<Rightarrow> (string \<times> string) list \<Rightarrow> string list \<Rightarrow> 'i EnvironmentCreater \<Rightarrow> string list go" where
  "child_env uid it environ ect =
     go_bind (GetEnvironment uid it ect) (\<lambda>env. AddEnvironment uid ect (env @ environ))"

lemma child_env_nil: "ec_Context v = None \<Longrightarrow> child_env uid it environ v = Inl NilDeref"
  by (simp add: child_env_def GetEnvironment_def split: option.split)

lemma child_env_ok:
  assumes "ec_Context v = Some st"
  shows "\<exists>e. child_env uid it environ v = Inr e \<and>
     (may_range it v \<longrightarrow> keys_ok (conf_vars v) \<longrightarrow>
        effective_env e =
          ((conf_vars v ++ status_vars uid st) ++ effective_env environ) ++ status_vars uid st)"
proof -
  obtain e where e: "GetEnvironment uid it v = Inr e"
    "may_range it v \<longrightarrow> keys_ok (conf_vars v) \<longrightarrow>
       effective_env e = conf_vars v ++ status_vars uid st"
    using GetEnvironment_ok [OF assms, of uid it] by blast
  then show ?thesis
    using assms
    by (simp add: child_env_def AddEnvironment_Some effective_env_append effective_status_vars
          del: effective_env_kv)
qed

end
