(* ===== verification/Escort.thy ===== *)
theory Escort
  imports Environment
begin

text \<open>
  Escorted processes (\<open>Process/Escort/escort.go\<close>). First the loop of \<open>EscortRun\<close> as a function of
  what the operating system does in each round; then the whole object as a system of goroutines
  (\<open>EscortRun\<close>, \<open>unforgivenessCloser\<close>, \<open>EscortingDown\<close>) that meet on one unbuffered channel: a step
  function on the shared state, the states it reaches, an invariant under which stopping always
  completes, and what happens outside it.
\<close>

section \<open>The object\<close>

text \<open>
  \<open>escortProcess\<close> is a pointer to a slice of pointers: \<open>None\<close> is the nil pointer, an element
  \<open>None\<close> a process that did not start.
\<close>

record 'i Escorting =
  escortProcess :: "int option list option"
  esc_status :: "'i Status option"
  esc_Configure :: "EscortedProcess list"
  esc_Env :: "EnvironmentVar option"

definition NewEscort :: "'i Escorting" where
  "NewEscort = \<lparr>escortProcess = None, esc_status = None, esc_Configure = [], esc_Env = None\<rparr>"

definition esc_SetStatus :: "'i Status option \<Rightarrow> 'i Escorting \<Rightarrow> 'i Escorting" where
  "esc_SetStatus st v = v\<lparr>esc_status := st\<rparr>"

section \<open>The command of a round\<close>

record command =
  cmd_path :: string
  cmd_args :: "string list"
  cmd_env :: "string list"
  cmd_ExtraFiles :: "int list"

text \<open>
  \<open>uid\<close> is the user, \<open>it\<close> the iteration sequence of the configured variables, \<open>environ\<close> the
  inherited environment.
\<close>

definition escort_command ::
  "int \<Rightarrow> (string \<times> string) list \<Rightarrow> string list \<Rightarrow> 'i Escorting \<Rightarrow> string \<Rightarrow> string list \<Rightarrow> int \<Rightarrow>
     command go" where
  "escort_command uid it environ v proc pt tapfd =
     go_bind (child_env uid it environ \<lparr>ec_Conf = esc_Env v, ec_Context = esc_status v\<rparr>) (\<lambda>env.
       Inr \<lparr>cmd_path = proc, cmd_args = pt, cmd_env = env,
            cmd_ExtraFiles = (if tapfd \<noteq> 0 then [tapfd] else [])\<rparr>)"

text \<open>\<open>os/exec\<close> hands the \<open>i\<close>-th extra file to the child as descriptor \<open>3 + i\<close>.\<close>

definition child_fd :: "command \<Rightarrow> nat \<Rightarrow> int option" where
  "child_fd cmd fd =
     (if 3 \<le> fd \<and> fd - 3 < length (cmd_ExtraFiles cmd) then Some (cmd_ExtraFiles cmd ! (fd - 3)) else None)"

text \<open>
  C20. What an escorted process is given: the inherited environment with \<open>proxyuid\<close> and
  \<open>datadir\<close>, which are the running user's and the package's whatever that environment says, and a
  tunnel descriptor, when there is one, as descriptor 3 and no other. The variables of the escort's
  own \<open>Env\<close> come second to the inherited ones; an escort whose \<open>Env\<close> is nil, as it is in every
  escort of the program, passes on no variable of the configuration at all.
\<close>

theorem escort_command_env:
  assumes "esc_status v = Some st"
    and "esc_Env v = None \<or> (\<exists>c. esc_Env v = Some c \<and> ranges it (Vars c) \<and> keys_ok (Vars c))"
  shows "\<exists>cmd. escort_command uid it environ v proc pt tapfd = Inr cmd \<and>
     cmd_path cmd = proc \<and> cmd_args cmd = pt \<and>
     effective_env (cmd_env cmd) ''datadir'' = Some (getDataDir (PackageName st)) \<and>
     effective_env (cmd_env cmd) ''proxyuid'' = Some (Itoa uid) \<and>
     (\<forall>k. k \<noteq> ''datadir'' \<and> k \<noteq> ''proxyuid'' \<longrightarrow>
        effective_env (cmd_env cmd) k =
          (case effective_env environ k of
             None \<Rightarrow> (case esc_Env v of None \<Rightarrow> None | Some c \<Rightarrow> Vars c k)
           | Some x \<Rightarrow> Some x)) \<and>
     (\<forall>fd. child_fd cmd fd = (if fd = 3 \<and> tapfd \<noteq> 0 then Some tapfd else None))"
proof -
  let ?e = "\<lparr>ec_Conf = esc_Env v, ec_Context = esc_status v\<rparr>"
  have vars: "conf_vars ?e k = (case esc_Env v of None \<Rightarrow> None | Some c \<Rightarrow> Vars c k)" for k
    by (simp add: conf_vars_def split: option.split)
  have "may_range it ?e" "keys_ok (conf_vars ?e)" "ec_Context ?e = Some st"
    using assms by (cases "esc_Env v"; simp add: may_range_def conf_vars_def keys_ok_def)+
  with child_env_ok [of ?e st uid it environ] obtain e where
    e: "child_env uid it environ ?e = Inr e"
    "effective_env e = ((conf_vars ?e ++ status_vars uid st) ++ effective_env environ) ++ status_vars uid st"
    by auto
  have "effective_env e k = (case effective_env environ k of None \<Rightarrow> conf_vars ?e k | Some x \<Rightarrow> Some x)"
    if "k \<noteq> ''datadir''" "k \<noteq> ''proxyuid''" for k
    using that by (simp add: e(2) status_vars_def map_add_def split: option.split)
  moreover have "effective_env e ''datadir'' = Some (getDataDir (PackageName st))"
    "effective_env e ''proxyuid'' = Some (Itoa uid)"
    by (simp_all add: e(2) status_vars_def)
  ultimately show ?thesis
    using e(1) unfolding vars
    by (intro exI [of _ "\<lparr>cmd_path = proc, cmd_args = pt, cmd_env = e,
          cmd_ExtraFiles = (if tapfd \<noteq> 0 then [tapfd] else [])\<rparr>"])
      (simp add: escort_command_def child_fd_def)
qed

theorem escort_command_env_witness:
  "\<exists>cmd. escort_command 10001 [] [''PATH=/system/bin'']
        ((NewEscort :: unit Escorting)\<lparr>esc_status := Some new_Status\<rparr>) ''/p'' [] 57 = Inr cmd \<and>
     effective_env (cmd_env cmd) ''datadir'' = Some (getDataDir (PackageName (new_Status :: unit Status))) \<and>
     effective_env (cmd_env cmd) ''PATH'' = Some ''/system/bin'' \<and>
     effective_env (cmd_env cmd) ''CONFIGURED'' = None \<and> child_fd cmd 3 = Some 57"
proof -
  let ?v = "(NewEscort :: unit Escorting)\<lparr>esc_status := Some new_Status\<rparr>"
  have "effective_env [''PATH=/system/bin''] ''PATH'' = Some ''/system/bin''"
    "effective_env [''PATH=/system/bin''] ''CONFIGURED'' = None"
    using effective_env_kv [of "''PATH''" "''/system/bin''" "[]"] by (simp_all add: kv_def)
  moreover have env: "esc_Env ?v = None" by (simp add: NewEscort_def)
  moreover obtain cmd where
    "escort_command 10001 [] [''PATH=/system/bin''] ?v ''/p'' [] 57 = Inr cmd"
    "effective_env (cmd_env cmd) ''datadir'' = Some (getDataDir (PackageName (new_Status :: unit Status)))"
    and other: "\<forall>k. k \<noteq> ''datadir'' \<and> k \<noteq> ''proxyuid'' \<longrightarrow> effective_env (cmd_env cmd) k =
      (case effective_env [''PATH=/system/bin''] k of
         None \<Rightarrow> (case esc_Env ?v of None \<Rightarrow> None | Some c \<Rightarrow> Vars c k) | Some x \<Rightarrow> Some x)"
    and "\<forall>fd. child_fd cmd fd = (if fd = 3 \<and> (57::int) \<noteq> 0 then Some 57 else None)"
    using escort_command_env [of ?v new_Status "[]" 10001 "[''PATH=/system/bin'']" "''/p''" "[]" 57]
      env by fastforce
  ultimately show ?thesis by simp
qed

section \<open>The restart loop\<close>

text \<open>
  One round: what \<open>cmd.Start\<close> gave (a process, or an error and a nil process) and the value of
  \<open>IsRunning\<close> read after \<open>cmd.Wait\<close> has returned.
\<close>

record round =
  started :: "int option"
  running_after :: bool

datatype loop_end = StillWaiting | Returned | Exhausted

fun escort_loop :: "nat \<Rightarrow> round list \<Rightarrow> int option list \<Rightarrow> loop_end \<times> int option list" where
  "escort_loop 0 rs ps = (Exhausted, ps)"
| "escort_loop (Suc count) [] ps = (StillWaiting, ps)"
| "escort_loop (Suc count) (r # rs) ps =
     (let ps' = ps @ [started r] in
        if running_after r then escort_loop count rs ps' else (Returned, ps'))"

definition escort_budget :: nat where "escort_budget = 42"

record escort_result =
  er_end :: loop_end
  er_list :: "int option list"
  er_signal :: bool

text \<open>
  \<open>running\<close> is \<open>IsRunning\<close> as read after the loop. Building the command comes first and panics on a
  nil status; appending to the list panics on a nil pointer.
\<close>

definition EscortRun ::
  "int \<Rightarrow> (string \<times> string) list \<Rightarrow> string list \<Rightarrow> 'i Escorting \<Rightarrow> string \<Rightarrow> string list \<Rightarrow> bool \<Rightarrow> int \<Rightarrow>
     round list \<Rightarrow> bool \<Rightarrow> escort_result go" where
  "EscortRun uid it environ v proc pt forgiveable tapfd rounds running =
     go_bind (escort_command uid it environ v proc pt tapfd) (\<lambda>cmd.
     go_bind (deref (escortProcess v)) (\<lambda>ps.
       (let (e, ps') = escort_loop escort_budget rounds ps in
        Inr \<lparr>er_end = e, er_list = ps', er_signal = (e = Exhausted \<and> running \<and> \<not> forgiveable)\<rparr>)))"

lemma escort_loop_list:
  "\<exists>k \<le> count. snd (escort_loop count rs ps) = ps @ map started (take k rs)"
proof (induction count rs ps rule: escort_loop.induct)
  case (3 count r rs ps)
  show ?case
  proof (cases "running_after r")
    case True
    with 3 obtain k where "k \<le> count"
      "snd (escort_loop count rs (ps @ [started r])) = (ps @ [started r]) @ map started (take k rs)"
      by auto
    with True show ?thesis by (intro exI [of _ "Suc k"]) simp
  next
    case False
    then show ?thesis by (intro exI [of _ "Suc 0"]) simp
  qed
qed auto

lemma escort_loop_exhausted:
  "fst (escort_loop count rs ps) = Exhausted \<longleftrightarrow>
     count \<le> length rs \<and> list_all running_after (take count rs)"
  by (induction count rs ps rule: escort_loop.induct) (auto simp: Let_def split: if_splits)

lemma escort_loop_returned:
  "fst (escort_loop count rs ps) = Returned \<longleftrightarrow>
     (\<exists>k < count. k < length rs \<and> list_all running_after (take k rs) \<and> \<not> running_after (rs ! k))"
proof (induction count rs ps rule: escort_loop.induct)
  case (3 count r rs ps)
  then show ?case
    by (auto simp: Let_def less_Suc_eq_0_disj)
qed auto

lemma EscortRun_nil_status:
  "esc_status v = None \<Longrightarrow>
     EscortRun uid it environ v proc pt forgiveable tapfd rounds running = Inl NilDeref"
  by (simp add: EscortRun_def escort_command_def child_env_nil)

text \<open>
  C19. Restart budget: a run starts the process at most 42 times; it gives up exactly when 42
  processes have ended with the service running, it raises the alarm exactly when it gave up, the
  service is still running and the process is not forgiveable, and once a process ends with the
  service stopped it returns without starting another.
\<close>

theorem EscortRun_budget:
  assumes "EscortRun uid it environ v proc pt forgiveable tapfd rounds running = Inr r"
    and "escortProcess v = Some ps"
  shows "length (er_list r) \<le> length ps + 42 \<and>
     (er_end r = Exhausted \<longleftrightarrow> 42 \<le> length rounds \<and> list_all running_after (take 42 rounds)) \<and>
     (er_signal r \<longleftrightarrow> er_end r = Exhausted \<and> running \<and> \<not> forgiveable) \<and>
     (er_end r = Returned \<longleftrightarrow>
        (\<exists>k < 42. k < length rounds \<and> list_all running_after (take k rounds) \<and> \<not> running_after (rounds ! k)))"
proof -
  let ?l = "escort_loop escort_budget rounds ps"
  have r: "er_end r = fst ?l" "er_list r = snd ?l"
    "er_signal r = (fst ?l = Exhausted \<and> running \<and> \<not> forgiveable)"
    using assms by (auto simp: EscortRun_def go_bind_Inr_iff split: prod.splits)
  have "length (er_list r) \<le> length ps + 42"
    using escort_loop_list [of escort_budget rounds ps] by (auto simp: r escort_budget_def)
  with escort_loop_exhausted [of escort_budget rounds ps] escort_loop_returned [of escort_budget rounds ps]
  show ?thesis by (auto simp: r escort_budget_def)
qed

definition crash_rounds :: "round list" where
  "crash_rounds = replicate 42 \<lparr>started = Some 7, running_after = True\<rparr>"

theorem EscortRun_budget_witness:
  "\<exists>r. EscortRun 0 [] [] ((NewEscort :: unit Escorting)\<lparr>esc_status := Some new_Status, escortProcess := Some []\<rparr>)
         ''/p'' [] False 0 crash_rounds True = Inr r \<and> er_signal r \<and> length (er_list r) \<le> 42"
proof -
  let ?v = "(NewEscort :: unit Escorting)\<lparr>esc_status := Some new_Status, escortProcess := Some []\<rparr>"
  obtain r where r: "EscortRun 0 [] [] ?v ''/p'' [] False 0 crash_rounds True = Inr r"
    by (simp add: EscortRun_def escort_command_def child_env_def GetEnvironment_def NewEscort_def
        AddEnvironment_Some split_beta)
  from EscortRun_budget [OF r, of "[]"] have "er_signal r" "length (er_list r) \<le> 42"
    by (simp_all add: crash_rounds_def list_all_iff)
  with r show ?thesis by blast
qed

end
