(* ===== verification/EscortSystem.thy ===== *)
theory EscortSystem
  imports Escort Systems
begin

text \<open>
  The goroutines of one \<open>Escorting\<close> object. A state holds whether the object was given a status, the
  processes killed so far, the shared fields and, for each kind of
  goroutine, those that are alive and where they stand: every \<open>EscortRun\<close> with its remaining
  restarts, the \<open>unforgivenessCloser\<close>s waiting for their first value or draining, the
  \<open>EscortingDown\<close> calls blocked in their send or past it. A send and a receive on the unbuffered
  channel are one step of both. A label names the step; \<open>estep\<close> is \<open>None\<close> where the step is not
  enabled.
\<close>

section \<open>States and steps\<close>

text \<open>
  A runner is at the head of its loop, where it builds the command and its environment
  (\<open>LoopTop\<close>), about to start the process, waiting for it, or past the loop.
\<close>

datatype runner_phase = LoopTop | Starting | WaitingProc | Giving

record runner =
  count_left :: nat
  forgiveable :: bool
  phase :: runner_phase

record esys =
  procs :: "int option list option"
  es_running :: bool
  closers_waiting :: nat
  closers_draining :: nat
  runners :: "runner list"
  senders :: nat
  down_sending :: nat
  down_clearing :: nat
  crashed :: bool
  has_status :: bool
  killed :: "int list"

text \<open>A new object that has been given a status.\<close>

definition esys_init :: esys where
  "esys_init = \<lparr>procs = None, es_running = False, closers_waiting = 0, closers_draining = 0,
     runners = [], senders = 0, down_sending = 0, down_clearing = 0, crashed = False,
     has_status = True, killed = []\<rparr>"

definition new_runner :: "bool \<Rightarrow> runner" where
  "new_runner f = \<lparr>count_left = escort_budget, forgiveable = f, phase = LoopTop\<rparr>"

datatype elabel =
    SetRunning bool
  | Up "bool list"        \<comment> \<open>\<open>EscortingUP\<close>, with the \<open>Forgiveable\<close> of each configured process\<close>
  | UpV                   \<comment> \<open>\<open>EscortingUPV\<close>\<close>
  | SpawnRun bool         \<comment> \<open>\<open>go EscortRun\<close> of the VPN service\<close>
  | BuildEnv nat
  | StartProc nat "int option"
  | ProcExits nat
  | GiveUp nat
  | CloserGetsAlarm
  | CloserGetsDown
  | DrainAlarm
  | DrainDown
  | DrainDone
  | DownCall
  | DownClears

definition remove_nth :: "nat \<Rightarrow> 'a list \<Rightarrow> 'a list" where
  "remove_nth i xs = take i xs @ drop (Suc i) xs"

definition runner_in :: "esys \<Rightarrow> nat \<Rightarrow> runner_phase \<Rightarrow> bool" where
  "runner_in s i ph \<longleftrightarrow> i < length (runners s) \<and> phase (runners s ! i) = ph"

text \<open>The environment is built through the status pointer, which may be nil.\<close>

definition build_env :: "nat \<Rightarrow> esys \<Rightarrow> esys" where
  "build_env i s =
     (if has_status s then s\<lparr>runners := (runners s)[i := (runners s ! i)\<lparr>phase := Starting\<rparr>]\<rparr>
      else s\<lparr>crashed := True\<rparr>)"

text \<open>The start of a process: the list pointer is followed, then the process appended.\<close>

definition start_proc :: "nat \<Rightarrow> int option \<Rightarrow> esys \<Rightarrow> esys" where
  "start_proc i p s =
     (case procs s of
        None \<Rightarrow> s\<lparr>crashed := True\<rparr>
      | Some ps \<Rightarrow>
          s\<lparr>procs := Some (ps @ [p]), runners := (runners s)[i := (runners s ! i)\<lparr>phase := WaitingProc\<rparr>]\<rparr>)"

text \<open>The process has ended: the loop goes on, or the runner returns.\<close>

definition proc_exits :: "nat \<Rightarrow> esys \<Rightarrow> esys" where
  "proc_exits i s =
     (let r = runners s ! i; c = count_left r - 1 in
        if es_running s then
          s\<lparr>runners := (runners s)[i := r\<lparr>count_left := c, phase := (if 0 < c then LoopTop else Giving)\<rparr>]\<rparr>
        else s\<lparr>runners := remove_nth i (runners s)\<rparr>)"

definition give_up :: "nat \<Rightarrow> esys \<Rightarrow> esys" where
  "give_up i s =
     (let r = runners s ! i; s' = s\<lparr>runners := remove_nth i (runners s)\<rparr> in
        if es_running s \<and> \<not> forgiveable r then s'\<lparr>senders := Suc (senders s)\<rparr> else s')"

text \<open>
  \<open>EscortingDown\<close>: nothing to do without a list; otherwise the processes are killed one after the
  other, which panics on a nil one, and the call blocks in its send.
\<close>

definition kill_all :: "int option list \<Rightarrow> int list" where
  "kill_all ps = map the (takeWhile (\<lambda>p. p \<noteq> None) ps)"

definition down_call :: "esys \<Rightarrow> esys" where
  "down_call s =
     (case procs s of
        None \<Rightarrow> s
      | Some ps \<Rightarrow>
          (let s' = s\<lparr>killed := killed s @ kill_all ps\<rparr> in
           if None \<in> set ps then s'\<lparr>crashed := True\<rparr> else s'\<lparr>down_sending := Suc (down_sending s)\<rparr>))"

fun estep :: "elabel \<Rightarrow> esys \<Rightarrow> esys option" where
  "estep (SetRunning b) s = Some (s\<lparr>es_running := b\<rparr>)"
| "estep (Up fs) s =
     Some (if procs s \<noteq> None then s
       else s\<lparr>procs := Some [], closers_waiting := Suc (closers_waiting s),
              runners := runners s @ map new_runner fs\<rparr>)"
| "estep UpV s =
     Some (if procs s \<noteq> None then s
       else s\<lparr>procs := Some [], closers_waiting := Suc (closers_waiting s)\<rparr>)"
| "estep (SpawnRun f) s = Some (s\<lparr>runners := runners s @ [new_runner f]\<rparr>)"
| "estep (BuildEnv i) s = (if runner_in s i LoopTop then Some (build_env i s) else None)"
| "estep (StartProc i p) s = (if runner_in s i Starting then Some (start_proc i p s) else None)"
| "estep (ProcExits i) s = (if runner_in s i WaitingProc then Some (proc_exits i s) else None)"
| "estep (GiveUp i) s = (if runner_in s i Giving then Some (give_up i s) else None)"
| "estep CloserGetsAlarm s =
     (if 0 < closers_waiting s \<and> 0 < senders s then
        Some (s\<lparr>closers_waiting := closers_waiting s - 1, closers_draining := Suc (closers_draining s),
                senders := senders s - 1\<rparr>) else None)"
| "estep CloserGetsDown s =
     (if 0 < closers_waiting s \<and> 0 < down_sending s then
        Some (s\<lparr>closers_waiting := closers_waiting s - 1, closers_draining := Suc (closers_draining s),
                down_sending := down_sending s - 1, down_clearing := Suc (down_clearing s)\<rparr>) else None)"
| "estep DrainAlarm s =
     (if 0 < closers_draining s \<and> 0 < senders s then Some (s\<lparr>senders := senders s - 1\<rparr>) else None)"
| "estep DrainDown s =
     (if 0 < closers_draining s \<and> 0 < down_sending s then
        Some (s\<lparr>down_sending := down_sending s - 1, down_clearing := Suc (down_clearing s)\<rparr>) else None)"
| "estep DrainDone s =
     (if 0 < closers_draining s \<and> senders s = 0 \<and> down_sending s = 0 then
        Some (s\<lparr>closers_draining := closers_draining s - 1\<rparr>) else None)"
| "estep DownCall s = Some (down_call s)"
| "estep DownClears s =
     (if 0 < down_clearing s then
        Some (s\<lparr>down_clearing := down_clearing s - 1, procs := None\<rparr>) else None)"

text \<open>A run is a sequence of enabled steps; after a panic there are none.\<close>

fun erun :: "elabel list \<Rightarrow> esys \<Rightarrow> esys option" where
  "erun [] s = Some s"
| "erun (l # ls) s =
     (if crashed s then None else (case estep l s of None \<Rightarrow> None | Some t \<Rightarrow> erun ls t))"

inductive ereach :: "esys \<Rightarrow> esys \<Rightarrow> bool" where
  ereach_refl: "ereach s s"
| ereach_step: "ereach s t \<Longrightarrow> \<not> crashed t \<Longrightarrow> estep l t = Some u \<Longrightarrow> ereach s u"

lemma ereach_front: "estep l s = Some t \<Longrightarrow> \<not> crashed s \<Longrightarrow> ereach t u \<Longrightarrow> ereach s u"
  by (rotate_tac 2, induction rule: ereach.induct) (auto intro: ereach.intros)

lemma erun_ereach: "erun ls s = Some t \<Longrightarrow> ereach s t"
proof (induction ls arbitrary: s)
  case (Cons l ls)
  then show ?case by (auto split: if_splits option.splits intro: ereach_front)
qed (auto intro: ereach.intros)

lemma erun_append: "erun (xs @ ys) s = (case erun xs s of None \<Rightarrow> None | Some t \<Rightarrow> erun ys t)"
  by (induction xs arbitrary: s) (auto split: option.splits)

text \<open>A property kept by every step is kept by every run.\<close>

lemma ereach_inv:
  assumes "ereach s t" and "I s" and "\<And>l u v. I u \<Longrightarrow> estep l u = Some v \<Longrightarrow> I v"
  shows "I t"
  using assms by (induction rule: ereach.induct) auto

text \<open>What each helper leaves alone, and case analysis of a step by its label.\<close>

lemma kill_all_started [simp]: "None \<notin> set ps \<Longrightarrow> kill_all ps = map the ps"
  unfolding kill_all_def by (subst takeWhile_eq_all_conv [THEN iffD2]) (metis, rule refl)

lemma build_env_frame [simp]:
  "closers_waiting (build_env i s) = closers_waiting s"
  "closers_draining (build_env i s) = closers_draining s"
  "senders (build_env i s) = senders s" "down_sending (build_env i s) = down_sending s"
  "down_clearing (build_env i s) = down_clearing s" "procs (build_env i s) = procs s"
  by (simp_all add: build_env_def)

lemma start_proc_frame [simp]:
  "closers_waiting (start_proc i p s) = closers_waiting s"
  "closers_draining (start_proc i p s) = closers_draining s"
  "senders (start_proc i p s) = senders s" "down_sending (start_proc i p s) = down_sending s"
  "down_clearing (start_proc i p s) = down_clearing s"
  "procs (start_proc i p s) = map_option (\<lambda>ps. ps @ [p]) (procs s)"
  by (auto simp: start_proc_def split: option.split)

lemma proc_exits_frame [simp]:
  "closers_waiting (proc_exits i s) = closers_waiting s"
  "closers_draining (proc_exits i s) = closers_draining s"
  "senders (proc_exits i s) = senders s" "down_sending (proc_exits i s) = down_sending s"
  "down_clearing (proc_exits i s) = down_clearing s" "procs (proc_exits i s) = procs s"
  by (auto simp: proc_exits_def Let_def)

lemma give_up_frame [simp]:
  "closers_waiting (give_up i s) = closers_waiting s"
  "closers_draining (give_up i s) = closers_draining s"
  "down_sending (give_up i s) = down_sending s"
  "down_clearing (give_up i s) = down_clearing s" "procs (give_up i s) = procs s"
  "senders (give_up i s) =
     (if es_running s \<and> \<not> forgiveable (runners s ! i) then Suc (senders s) else senders s)"
  by (auto simp: give_up_def Let_def)

lemma down_call_frame [simp]:
  "closers_waiting (down_call s) = closers_waiting s"
  "closers_draining (down_call s) = closers_draining s"
  "senders (down_call s) = senders s" "down_clearing (down_call s) = down_clearing s"
  "procs (down_call s) = procs s"
  "down_sending (down_call s) =
     (case procs s of None \<Rightarrow> down_sending s
      | Some ps \<Rightarrow> if None \<in> set ps then down_sending s else Suc (down_sending s))"
  "None \<notin> set ps \<Longrightarrow> procs s = Some ps \<Longrightarrow> killed (down_call s) = killed s @ map the ps"
  by (auto simp: down_call_def Let_def split: option.split)

fun_cases estep_CloserGetsAlarmE: "estep CloserGetsAlarm s = Some t"
fun_cases estep_CloserGetsDownE: "estep CloserGetsDown s = Some t"
fun_cases estep_DrainDownE: "estep DrainDown s = Some t"
fun_cases estep_DownClearsE: "estep DownClears s = Some t"

lemmas estep_elims =
  estep_CloserGetsAlarmE estep_CloserGetsDownE estep_DrainDownE estep_DownClearsE

section \<open>Stopping without alarms\<close>

text \<open>
  The steps of a life without alarms and with one stop at a time: no runner raises the alarm, and
  \<open>EscortingDown\<close> is not called while another call is under way.
\<close>

fun calm :: "elabel \<Rightarrow> esys \<Rightarrow> bool" where
  "calm (GiveUp i) s = (\<not> es_running s \<or> forgiveable (runners s ! i))"
| "calm DownCall s = (down_sending s + down_clearing s = 0)"
| "calm l s = True"

inductive calm_reach :: "esys \<Rightarrow> bool" where
  calm_init: "calm_reach esys_init"
| calm_step: "calm_reach s \<Longrightarrow> \<not> crashed s \<Longrightarrow> calm l s \<Longrightarrow> estep l s = Some t \<Longrightarrow> calm_reach t"

fun calm_run :: "elabel list \<Rightarrow> esys \<Rightarrow> esys option" where
  "calm_run [] s = Some s"
| "calm_run (l # ls) s =
     (if crashed s \<or> \<not> calm l s then None
      else (case estep l s of None \<Rightarrow> None | Some t \<Rightarrow> calm_run ls t))"

text \<open>
  The invariant: no alarm is pending, at most one stop is under way, only with a list, and while
  the list is there and not about to be cleared a closer waits for the stop.
\<close>

definition calm_inv :: "esys \<Rightarrow> bool" where
  "calm_inv s \<longleftrightarrow>
     senders s = 0 \<and> down_sending s + down_clearing s \<le> 1 \<and>
     (procs s \<noteq> None \<and> down_clearing s = 0 \<longrightarrow> 0 < closers_waiting s) \<and>
     (0 < down_sending s + down_clearing s \<longrightarrow> procs s \<noteq> None)"

lemma calm_inv_init: "calm_inv esys_init"
  by (simp add: calm_inv_def esys_init_def)

lemma calm_inv_step:
  assumes "calm_inv s" and "calm l s" and "estep l s = Some t"
  shows "calm_inv t"
proof (cases l)
  case (GiveUp i)
  with assms show ?thesis by (auto simp: calm_inv_def split: if_splits)
next
  case DownCall
  with assms show ?thesis by (auto simp: calm_inv_def split: option.splits if_splits)
next
  case CloserGetsDown
  with assms show ?thesis by (auto simp: calm_inv_def elim!: estep_elims split: if_splits)
qed (use assms in \<open>auto simp: calm_inv_def split: if_splits\<close>)

interpretation calm: invariant_system esys_init estep "\<lambda>l s. \<not> crashed s \<and> calm l s"
  calm_run calm_reach calm_inv
proof unfold_locales
  show "calm_reach s \<Longrightarrow> P esys_init \<Longrightarrow>
      (\<And>u l t. P u \<Longrightarrow> \<not> crashed u \<and> calm l u \<Longrightarrow> estep l u = Some t \<Longrightarrow> P t) \<Longrightarrow> P s" for s P
    by (induction rule: calm_reach.induct) blast+
  show "calm_inv s \<Longrightarrow> \<not> crashed s \<and> calm l s \<Longrightarrow> estep l s = Some t \<Longrightarrow> calm_inv t" for s l t
    using calm_inv_step by blast
qed (auto intro: calm_init calm_step calm_inv_init)

text \<open>
  C4. Stopping completes: in every state the system reaches without an alarm, a pending
  \<open>EscortingDown\<close> can be received by a waiting closer, after which it clears the list and a new
  \<open>EscortingUP\<close> starts afresh.
\<close>

theorem escorting_down_completes:
  assumes "calm_reach s" and "down_sending s = 1" and "\<not> crashed s"
  shows "\<exists>t. erun [CloserGetsDown, DownClears] s = Some t \<and> procs t = None \<and>
     down_sending t = 0 \<and> down_clearing t = 0 \<and>
     (\<exists>u. estep (Up fs) t = Some u \<and> procs u = Some [] \<and> 0 < closers_waiting u)"
proof -
  from calm.reach_inv [OF assms(1)] assms(2) have "procs s \<noteq> None" "down_clearing s = 0" "0 < closers_waiting s"
    by (auto simp: calm_inv_def)
  with assms(2,3) show ?thesis by simp
qed

definition stop_labels :: "elabel list" where
  "stop_labels = [SetRunning True, Up [False], BuildEnv 0, StartProc 0 (Some 7), SetRunning False, DownCall]"

theorem escorting_down_completes_witness:
  "\<exists>s t. calm_reach s \<and> down_sending s = 1 \<and> erun [CloserGetsDown, DownClears] s = Some t \<and>
     procs t = None"
proof -
  obtain s where run: "calm_run stop_labels esys_init = Some s" "down_sending s = 1" "\<not> crashed s"
    by (simp add: stop_labels_def esys_init_def new_runner_def escort_budget_def runner_in_def
        build_env_def start_proc_def down_call_def)
  have "calm_reach s" using run(1) by (rule calm.run_init)
  from escorting_down_completes [OF this run(2,3), of "[]"] this run(2) show ?thesis by blast
qed

section \<open>Stopping after an alarm\<close>

text \<open>
  The closer serves one life of the list, and takes one value before it drains. Once an alarm has
  made it leave, nobody receives what \<open>EscortingDown\<close> sends: no step changes this, since a new
  closer is only started when the list is nil, and only the blocked call would make it nil.
\<close>

definition deserted :: "esys \<Rightarrow> bool" where
  "deserted s \<longleftrightarrow>
     procs s \<noteq> None \<and> closers_waiting s = 0 \<and> closers_draining s = 0 \<and> down_clearing s = 0"

lemma deserted_step: "deserted s \<Longrightarrow> estep l s = Some t \<Longrightarrow> deserted t \<and> down_sending s \<le> down_sending t"
  by (cases l) (auto simp: deserted_def split: if_splits option.splits)

lemma deserted_forever:
  assumes "deserted s" and "ereach s t"
  shows "deserted t \<and> down_sending s \<le> down_sending t"
  using assms(2) by (rule ereach_inv) (use assms(1) deserted_step in \<open>auto intro: order_trans\<close>)

text \<open>An unforgiveable process that ends 42 times, and the alarm it raises.\<close>

definition one_round :: "elabel list" where
  "one_round = [BuildEnv 0, StartProc 0 (Some 7), ProcExits 0]"

definition alarm_labels :: "elabel list" where
  "alarm_labels = [SetRunning True, Up [False]] @ concat (replicate 42 one_round) @
     [GiveUp 0, CloserGetsAlarm, DrainDone]"

definition alarmed :: "nat \<Rightarrow> esys" where
  "alarmed k = \<lparr>procs = Some (replicate k (Some 7)), es_running = True, closers_waiting = 1,
     closers_draining = 0, runners = [\<lparr>count_left = 42 - k, forgiveable = False,
     phase = (if k < 42 then LoopTop else Giving)\<rparr>], senders = 0, down_sending = 0, down_clearing = 0,
     crashed = False, has_status = True, killed = []\<rparr>"

lemma one_round_run: "k < 42 \<Longrightarrow> erun one_round (alarmed k) = Some (alarmed (Suc k))"
  by (auto simp: one_round_def alarmed_def runner_in_def build_env_def start_proc_def proc_exits_def Let_def
      replicate_append_same)

lemma rounds_run: "k + n \<le> 42 \<Longrightarrow> erun (concat (replicate n one_round)) (alarmed k) = Some (alarmed (k + n))"
proof (induction n arbitrary: k)
  case (Suc n)
  then show ?case by (simp add: erun_append one_round_run)
qed simp

lemma alarm_run:
  "\<exists>s. erun alarm_labels esys_init = Some s \<and> deserted s \<and> \<not> crashed s \<and>
     procs s = Some (replicate 42 (Some 7)) \<and> down_sending s = 0"
proof -
  have "erun [SetRunning True, Up [False]] esys_init = Some (alarmed 0)"
    by (simp add: esys_init_def alarmed_def new_runner_def escort_budget_def)
  moreover have "erun (concat (replicate 42 one_round)) (alarmed 0) = Some (alarmed 42)"
    using rounds_run [of 0 42] by simp
  ultimately show ?thesis
    unfolding alarm_labels_def erun_append
    by (simp add: alarmed_def runner_in_def give_up_def remove_nth_def deserted_def)
qed

text \<open>
  C22. Stopping after an alarm never completes: there is a run in which an unforgiveable process
  uses up its 42 starts and the alarm is received; whatever happens after that, an \<open>EscortingDown\<close>
  that is then called blocks in its send for ever and the list is never cleared.
\<close>

theorem escorting_down_stuck_after_alarm:
  "\<exists>s t. erun alarm_labels esys_init = Some s \<and>
     erun [SetRunning False, DownCall] s = Some t \<and>
     (\<forall>u. ereach t u \<longrightarrow> 0 < down_sending u \<and> down_clearing u = 0 \<and> procs u \<noteq> None)"
proof -
  obtain s where s: "erun alarm_labels esys_init = Some s" "deserted s" "\<not> crashed s"
    "procs s = Some (replicate 42 (Some 7))" "down_sending s = 0"
    using alarm_run by blast
  define t where "t = s\<lparr>es_running := False, down_sending := 1, killed := killed s @ replicate 42 7\<rparr>"
  have run: "erun [SetRunning False, DownCall] s = Some t"
    using s(3-5) by (simp add: down_call_def Let_def t_def map_replicate)
  have "deserted t" "down_sending t = 1" using s(2) by (simp_all add: deserted_def t_def)
  then have "0 < down_sending u \<and> down_clearing u = 0 \<and> procs u \<noteq> None" if "ereach t u" for u
    using deserted_forever [OF _ that] by (auto simp: deserted_def)
  with s(1) run show ?thesis by blast
qed

theorem escorting_down_stuck_after_alarm_witness:
  "\<exists>s t. erun alarm_labels esys_init = Some s \<and> erun [SetRunning False, DownCall] s = Some t \<and>
     0 < down_sending t \<and> procs t \<noteq> None"
  using escorting_down_stuck_after_alarm ereach_refl by blast

section \<open>Panics of a stop\<close>

text \<open>
  C25. A process that could not be started leaves a nil process in the list, and the next
  \<open>EscortingDown\<close> panics on it: in any state with a list, after such a start the call ends the
  process whatever else the list holds.
\<close>

theorem failed_start_then_down_panics:
  assumes "runner_in s i Starting" and "procs s = Some ps" and "\<not> crashed s"
  shows "\<exists>t u. erun [StartProc i None] s = Some t \<and> procs t = Some (ps @ [None]) \<and>
     estep DownCall t = Some u \<and> crashed u"
  using assms by (simp add: start_proc_def down_call_def Let_def)

theorem failed_start_then_down_panics_witness:
  "\<exists>s t u. erun [SetRunning True, Up [True], BuildEnv 0] esys_init = Some s \<and>
     erun [StartProc 0 None] s = Some t \<and> estep DownCall t = Some u \<and> crashed u"
proof -
  let ?r = "(new_runner True)\<lparr>phase := Starting\<rparr>"
  let ?s = "esys_init\<lparr>es_running := True, procs := Some [], closers_waiting := 1, runners := [?r]\<rparr>"
  have run: "erun [SetRunning True, Up [True], BuildEnv 0] esys_init = Some ?s"
    by (simp add: esys_init_def new_runner_def runner_in_def build_env_def)
  have "runner_in ?s 0 Starting" "procs ?s = Some []" "\<not> crashed ?s"
    by (simp_all add: runner_in_def esys_init_def)
  from failed_start_then_down_panics [OF this] run show ?thesis by blast
qed

text \<open>The steps of a stop leave the runners where they are.\<close>

definition stop_race :: "elabel list" where
  "stop_race = [SetRunning False, DownCall, CloserGetsDown, DownClears]"

lemma stop_race_run:
  assumes "procs s = Some ps" and "None \<notin> set ps" and "0 < closers_waiting s" and "\<not> crashed s"
  shows "\<exists>t. erun stop_race s = Some t \<and> procs t = None \<and> runners t = runners s \<and> \<not> crashed t \<and>
     \<not> es_running t \<and> killed t = killed s @ map the ps"
  using assms by (simp add: stop_race_def down_call_def Let_def)

text \<open>
  C26. A restart that races with a stop: in any state where a goroutine has read \<open>IsRunning\<close> and is
  about to start its process again while every process of the list has been started and the closer
  waits, the service may be stopped completely, with every listed process killed and the list
  cleared; the goroutine then starts its process all the same and panics on the nil list, whatever
  process it is.
\<close>

theorem restart_races_with_down:
  assumes "runner_in s i Starting" and "procs s = Some ps" and "None \<notin> set ps"
    and "0 < closers_waiting s" and "\<not> crashed s"
  shows "\<exists>t u. erun stop_race s = Some t \<and> \<not> crashed t \<and> \<not> es_running t \<and>
     killed t = killed s @ map the ps \<and> estep (StartProc i p) t = Some u \<and> crashed u"
proof -
  obtain t where "erun stop_race s = Some t" "procs t = None" "runners t = runners s" "\<not> crashed t"
    "\<not> es_running t" "killed t = killed s @ map the ps"
    using stop_race_run [OF assms(2-5)] by blast
  with assms(1) show ?thesis by (simp add: runner_in_def start_proc_def)
qed

definition race_labels :: "elabel list" where
  "race_labels = [SetRunning True, Up [True], BuildEnv 0, StartProc 0 (Some 7), ProcExits 0, BuildEnv 0]"

theorem restart_races_with_down_witness:
  "\<exists>s t u. erun race_labels esys_init = Some s \<and> erun stop_race s = Some t \<and> killed t = [7] \<and>
     estep (StartProc 0 (Some 8)) t = Some u \<and> crashed u"
proof -
  obtain s where s: "erun race_labels esys_init = Some s" "runner_in s 0 Starting"
    "procs s = Some [Some 7]" "0 < closers_waiting s" "\<not> crashed s" "killed s = []"
    by (simp add: race_labels_def esys_init_def new_runner_def escort_budget_def runner_in_def
        build_env_def start_proc_def proc_exits_def Let_def)
  have "None \<notin> set [Some (7::int)]" by simp
  from restart_races_with_down [OF s(2,3) this s(4,5), of "Some 8"] obtain t u where
    "erun stop_race s = Some t" "killed t = [7]" "estep (StartProc 0 (Some 8)) t = Some u" "crashed u"
    using s(6) by auto
  with s(1) show ?thesis by blast
qed

section \<open>An object without a status\<close>

text \<open>
  Without a status no process is ever started: the first thing a runner does is to build the
  environment, and that panics.
\<close>

definition statusless :: "esys \<Rightarrow> bool" where
  "statusless s \<longleftrightarrow>
     \<not> has_status s \<and> (\<forall>r \<in> set (runners s). phase r = LoopTop) \<and> procs s \<in> {None, Some []}"

lemma statusless_step: "statusless s \<Longrightarrow> estep l s = Some t \<Longrightarrow> statusless t"
  by (cases l)
    (auto simp: statusless_def runner_in_def build_env_def new_runner_def down_call_def Let_def kill_all_def
      split: if_splits)

lemma statusless_forever: "statusless s \<Longrightarrow> ereach s t \<Longrightarrow> statusless t"
  using ereach_inv [of s t statusless] statusless_step by blast

end
