(* ===== verification/Dialer.thy ===== *)
theory Dialer
  imports ZoneId EscortSystem
begin

text \<open>
  Connections of the core that must not enter the tunnel (\<open>VPN/vpnservice_support.go\<close>), and the
  server names resolved before the tunnel is up (\<open>VPN/vpnservice_dnsloopfix.go\<close>). The resolver, the
  interface table and the system calls are one record of answers, a parameter; what a call does is
  its trace of system calls and its result.
\<close>

section \<open>Addresses\<close>

text \<open>A \<open>net.TCPAddr\<close> or \<open>net.UDPAddr\<close>; the IP is a slice of 4, 16 or no bytes.\<close>

record netaddr =
  IP :: "8 word list"
  Port :: int
  Zone :: string

record SockaddrInet6 =
  sa_Port :: int
  sa_ZoneId :: "32 word"
  sa_Addr :: "8 word list"

definition v4_prefix :: "8 word list" where
  "v4_prefix = replicate 10 0 @ [0xFF, 0xFF]"

text \<open>\<open>net.IP.To16\<close>; nil is the empty slice.\<close>

definition To16 :: "8 word list \<Rightarrow> 8 word list" where
  "To16 ip =
     (if length ip = 4 then v4_prefix @ ip
      else if length ip = 16 then ip
      else [])"

text \<open>\<open>copy(dst, src)\<close>: as many elements as both have.\<close>

definition go_copy :: "'a list \<Rightarrow> 'a list \<Rightarrow> 'a list" where
  "go_copy dst src = take (length dst) src @ drop (length src) dst"

lemma go_copy_length [simp]: "length (go_copy dst src) = length dst"
  by (simp add: go_copy_def min_def)

lemma go_copy_full: "length src = length dst \<Longrightarrow> go_copy dst src = src"
  by (simp add: go_copy_def)

section \<open>The object and its surroundings\<close>

record preparedDomain =
  tcpprepared :: "string \<rightharpoonup> netaddr option"
  udpprepared :: "string \<rightharpoonup> netaddr option"

text \<open>
  \<open>'s\<close> is the object on the Java side, \<open>'i\<close> the running core, \<open>'l\<close> the next-generation tunnel;
  \<open>Estr\<close> is the goroutine system of the escort that runs the tunnel process.
\<close>

record ('s, 'i, 'l) VPNSupport =
  prepareddomain :: preparedDomain
  VpnSupportSet :: "'s option"
  vpn_status :: "'i Status option"
  vpn_Conf :: VPNConfig
  Estr :: "esys option"
  usewaVingOceanVPNBackend :: bool
  lowerup :: "'l option"

record ('e, 'c, 'n) net =
  ResolveTCPAddr :: "string \<Rightarrow> string \<Rightarrow> 'e + netaddr"
  ResolveUDPAddr :: "string \<Rightarrow> string \<Rightarrow> 'e + netaddr"
  InterfaceByName :: "string \<Rightarrow> 'e + 'n"
  sys_Socket :: "int \<Rightarrow> int \<Rightarrow> int \<Rightarrow> 'e + int"
  sys_Connect :: "int \<Rightarrow> SockaddrInet6 \<Rightarrow> 'e option"
  net_FileConn :: "int \<Rightarrow> 'e + 'c"

datatype net_event =
    SocketEv int int int
  | ProtectEv int
  | ConnectEv int SockaddrInet6
  | FileConnEv int

datatype 'e dial_error = SysError 'e | PtoUdf

type_synonym ('e, 'c) dial = "net_event list \<times> ('e dial_error + 'c) go"

definition AF_INET6 :: int where "AF_INET6 = 10"
definition SOCK_STREAM :: int where "SOCK_STREAM = 1"
definition SOCK_DGRAM :: int where "SOCK_DGRAM = 2"
definition IPPROTO_TCP :: int where "IPPROTO_TCP = 6"
definition IPPROTO_UDP :: int where "IPPROTO_UDP = 17"

section \<open>Preparing names\<close>

text \<open>A name whose resolution fails is stored with a nil address.\<close>

definition prepare_name ::
  "('e, 'c, 'w::len word) net \<Rightarrow> DNSLoopFix \<Rightarrow> preparedDomain \<Rightarrow> string \<Rightarrow> preparedDomain" where
  "prepare_name n c p name =
     (let tcp = (case ResolveTCPAddr n (TCPVersion c) name of Inl _ \<Rightarrow> None | Inr a \<Rightarrow> Some a);
          udp = (case ResolveUDPAddr n (UDPVersion c) name of Inl _ \<Rightarrow> None | Inr a \<Rightarrow> Some a)
      in \<lparr>tcpprepared = (tcpprepared p)(name \<mapsto> tcp), udpprepared = (udpprepared p)(name \<mapsto> udp)\<rparr>)"

definition prepareDomainName ::
  "('e, 'c, 'w::len word) net \<Rightarrow> ('s, 'i, 'l) VPNSupport \<Rightarrow> ('s, 'i, 'l) VPNSupport go" where
  "prepareDomainName n v =
     (case VpnSupportSet v of
        None \<Rightarrow> Inr v
      | Some _ \<Rightarrow>
          go_bind (deref (PreparedDomainName (vpn_Conf v))) (\<lambda>c.
            Inr (v\<lparr>prepareddomain := foldl (prepare_name n c)
                     \<lparr>tcpprepared = Map.empty, udpprepared = Map.empty\<rparr> (DomainNameList c)\<rparr>)))"

section \<open>Dialing\<close>

definition sockaddr_of :: "('e, 'c, 'w::len word) net \<Rightarrow> netaddr \<Rightarrow> SockaddrInet6" where
  "sockaddr_of n addr =
     \<lparr>sa_Port = Port addr,
      sa_ZoneId = word_of_int (sint (zoneToInt (InterfaceByName n) (Zone addr))),
      sa_Addr = go_copy (replicate 16 0) (To16 (IP addr))\<rparr>"

text \<open>The address: the prepared one, which may be nil, or the answer of the resolver.\<close>

definition dial_address ::
  "(string \<rightharpoonup> netaddr option) \<Rightarrow> (string \<Rightarrow> string \<Rightarrow> 'e + netaddr) \<Rightarrow> string \<Rightarrow> string \<Rightarrow>
     'e + netaddr option" where
  "dial_address prep resolve network Address =
     (case prep Address of
        Some addr \<Rightarrow> Inr addr
      | None \<Rightarrow> (case resolve network Address of Inl e \<Rightarrow> Inl e | Inr a \<Rightarrow> Inr (Some a)))"

text \<open>\<open>dial_connect\<close> is the part after the socket is there, \<open>dial_socket\<close> the part before.\<close>

definition dial_connect ::
  "('e, 'c, 'w::len word) net \<Rightarrow> 's option \<Rightarrow> netaddr option \<Rightarrow> int \<Rightarrow> ('e, 'c) dial" where
  "dial_connect n supp addr fd =
     (case supp of
        None \<Rightarrow> ([], Inl NilDeref)
      | Some _ \<Rightarrow>
          (case addr of
             None \<Rightarrow> ([ProtectEv fd], Inl NilDeref)
           | Some a \<Rightarrow>
               (let sa = sockaddr_of n a in
                  case sys_Connect n fd sa of
                    Some e \<Rightarrow> ([ProtectEv fd, ConnectEv fd sa], Inr (Inl (SysError e)))
                  | None \<Rightarrow>
                      ([ProtectEv fd, ConnectEv fd sa, FileConnEv fd],
                       Inr (case net_FileConn n fd of Inl e \<Rightarrow> Inl (SysError e) | Inr c \<Rightarrow> Inr c)))))"

definition dial_socket ::
  "('e, 'c, 'w::len word) net \<Rightarrow> 's option \<Rightarrow> int \<Rightarrow> int \<Rightarrow> 'e + netaddr option \<Rightarrow> ('e, 'c) dial" where
  "dial_socket n supp typ proto addr =
     (case addr of
        Inl e \<Rightarrow> ([], Inr (Inl (SysError e)))
      | Inr a \<Rightarrow>
          (case sys_Socket n AF_INET6 typ proto of
             Inl e \<Rightarrow> ([SocketEv AF_INET6 typ proto], Inr (Inl (SysError e)))
           | Inr fd \<Rightarrow>
               (let (evs, r) = dial_connect n supp a fd in (SocketEv AF_INET6 typ proto # evs, r))))"

definition Dial ::
  "('e, 'c, 'w::len word) net \<Rightarrow> ('s, 'i, 'l) VPNSupport \<Rightarrow> string \<Rightarrow> string \<Rightarrow> ('e, 'c) dial" where
  "Dial n v network Address =
     (if strings_HasPrefix network ''tcp'' then
        dial_socket n (VpnSupportSet v) SOCK_STREAM IPPROTO_TCP
          (dial_address (tcpprepared (prepareddomain v)) (ResolveTCPAddr n) network Address)
      else if strings_HasPrefix network ''udp'' then
        dial_socket n (VpnSupportSet v) SOCK_DGRAM IPPROTO_UDP
          (dial_address (udpprepared (prepareddomain v)) (ResolveUDPAddr n) network Address)
      else ([], Inr (Inl PtoUdf)))"

section \<open>The dialer of the next-generation tunnel\<close>

text \<open>
  \<open>VPN/oceanDialer.go\<close>: the destination is a nil interface for an unknown network, and holds a nil
  pointer when resolution failed. What the core makes of it is a parameter.
\<close>

datatype net_dest = NoAddr | TCPDest "netaddr option" | UDPDest "netaddr option"

definition V2Dialer_dest ::
  "('e, 'c, 'w::len word) net \<Rightarrow> string \<Rightarrow> string \<Rightarrow> 16 word \<Rightarrow> net_dest" where
  "V2Dialer_dest n network address port =
     (let hostport = address @ '':'' @ Itoa (uint port) in
        if network = ''tcp4'' then
          TCPDest (case ResolveTCPAddr n network hostport of Inl _ \<Rightarrow> None | Inr a \<Rightarrow> Some a)
        else if network = ''udp4'' then
          UDPDest (case ResolveUDPAddr n network hostport of Inl _ \<Rightarrow> None | Inr a \<Rightarrow> Some a)
        else NoAddr)"

definition V2Dialer_Dial ::
  "('e, 'c, 'w::len word) net \<Rightarrow> (net_dest \<Rightarrow> 'd go) \<Rightarrow> ('i \<Rightarrow> 'd \<Rightarrow> 'e + 'c) \<Rightarrow> 'i \<Rightarrow>
     string \<Rightarrow> string \<Rightarrow> 16 word \<Rightarrow> ('e + 'c) go" where
  "V2Dialer_Dial n destination core_Dial ser network address port =
     go_bind (destination (V2Dialer_dest n network address port)) (\<lambda>d. Inr (core_Dial ser d))"

section \<open>What a dial does\<close>

lemma dial_connect_cases:
  obtains "supp = None" "dial_connect n supp addr fd = ([], Inl NilDeref)"
  | "supp \<noteq> None" "addr = None" "dial_connect n supp addr fd = ([ProtectEv fd], Inl NilDeref)"
  | a e where "supp \<noteq> None" "addr = Some a" "sys_Connect n fd (sockaddr_of n a) = Some e"
      "dial_connect n supp addr fd =
         ([ProtectEv fd, ConnectEv fd (sockaddr_of n a)], Inr (Inl (SysError e)))"
  | a r where "supp \<noteq> None" "addr = Some a" "sys_Connect n fd (sockaddr_of n a) = None"
      "dial_connect n supp addr fd =
         ([ProtectEv fd, ConnectEv fd (sockaddr_of n a), FileConnEv fd], Inr r)"
proof (cases supp)
  case None
  then show thesis by (intro that(1)) (simp_all add: dial_connect_def)
next
  case (Some x)
  show thesis
  proof (cases addr)
    case None
    with Some show thesis by (intro that(2)) (simp_all add: dial_connect_def)
  next
    case (Some a)
    with \<open>supp = Some x\<close> show thesis
      by (cases "sys_Connect n fd (sockaddr_of n a)")
        (auto simp: dial_connect_def intro: that(3,4))
  qed
qed

text \<open>A call that does anything does it on one socket, the first thing it opens.\<close>

lemma dial_socket_trace:
  assumes "dial_socket n supp typ proto addr = (evs, r)" and "evs \<noteq> []"
  obtains "evs = [SocketEv AF_INET6 typ proto]"
  | a fd evs' where "addr = Inr a" "sys_Socket n AF_INET6 typ proto = Inr fd"
      "dial_connect n supp a fd = (evs', r)" "evs = SocketEv AF_INET6 typ proto # evs'"
  using assms
  by (auto simp: dial_socket_def split: sum.splits prod.splits)

lemma dial_connect_protects:
  assumes "dial_connect n supp addr fd = (evs, r)" and "ConnectEv fd' sa \<in> set evs"
  shows "\<exists>a rest. addr = Some a \<and> fd' = fd \<and> sa = sockaddr_of n a \<and>
    evs = ProtectEv fd # ConnectEv fd sa # rest \<and> (\<forall>fd2 sa2. ConnectEv fd2 sa2 \<notin> set rest)"
  by (cases rule: dial_connect_cases [of supp n addr fd]) (use assms in auto)

text \<open>The address a dial uses.\<close>

definition dial_lookup ::
  "('e, 'c, 'w::len word) net \<Rightarrow> ('s, 'i, 'l) VPNSupport \<Rightarrow> string \<Rightarrow> string \<Rightarrow> 'e + netaddr option" where
  "dial_lookup n v network Address =
     (if strings_HasPrefix network ''tcp''
      then dial_address (tcpprepared (prepareddomain v)) (ResolveTCPAddr n) network Address
      else dial_address (udpprepared (prepareddomain v)) (ResolveUDPAddr n) network Address)"

lemma Dial_trace:
  assumes "Dial n v network Address = (evs, r)" and "ConnectEv fd sa \<in> set evs"
  shows "\<exists>a rest st proto. dial_lookup n v network Address = Inr (Some a) \<and> sa = sockaddr_of n a \<and>
    sys_Socket n AF_INET6 st proto = Inr fd \<and>
    evs = SocketEv AF_INET6 st proto # ProtectEv fd # ConnectEv fd sa # rest \<and>
    (\<forall>fd2 sa2. ConnectEv fd2 sa2 \<notin> set rest)"
proof -
  obtain st proto where d:
    "dial_socket n (VpnSupportSet v) st proto (dial_lookup n v network Address) = (evs, r)"
    using assms by (auto simp: Dial_def dial_lookup_def split: if_splits)
  have "evs \<noteq> []" using assms(2) by auto
  from d this show ?thesis
  proof (cases rule: dial_socket_trace)
    case 1
    with assms(2) show ?thesis by simp
  next
    case (2 a fd' evs')
    with assms(2) have "ConnectEv fd sa \<in> set evs'" by simp
    from dial_connect_protects [OF 2(3) this] 2 show ?thesis by auto
  qed
qed

text \<open>
  C3. Protect before connect: whenever a dial connects a socket, that socket was opened and
  handed to the VPN service for protection before, and it is the only socket of the call.
\<close>

theorem Dial_protects:
  assumes "Dial n v network Address = (evs, r)" and "evs = pre @ ConnectEv fd sa # post"
  shows "\<exists>st proto. pre = [SocketEv AF_INET6 st proto, ProtectEv fd] \<and>
    sys_Socket n AF_INET6 st proto = Inr fd \<and> (\<forall>fd' sa'. ConnectEv fd' sa' \<notin> set post)"
proof -
  have "ConnectEv fd sa \<in> set evs" using assms(2) by simp
  from Dial_trace [OF assms(1) this] obtain rest st proto where
    t: "sys_Socket n AF_INET6 st proto = Inr fd"
      "pre @ ConnectEv fd sa # post = SocketEv AF_INET6 st proto # ProtectEv fd # ConnectEv fd sa # rest"
      "\<forall>fd2 sa2. ConnectEv fd2 sa2 \<notin> set rest"
    using assms(2) by auto
  then have "ConnectEv fd sa \<notin> set rest" by blast
  with t(2) have "pre = [SocketEv AF_INET6 st proto, ProtectEv fd] \<and> post = rest"
    by (auto simp: append_eq_Cons_conv)
  with t show ?thesis by auto
qed

section \<open>Prepared names\<close>

definition resolved :: "'e + netaddr \<Rightarrow> netaddr option" where
  "resolved r = (case r of Inl _ \<Rightarrow> None | Inr a \<Rightarrow> Some a)"

lemma prepared_lookup:
  "tcpprepared (foldl (prepare_name n c) p names) name =
     (if name \<in> set names then Some (resolved (ResolveTCPAddr n (TCPVersion c) name))
      else tcpprepared p name)"
  "udpprepared (foldl (prepare_name n c) p names) name =
     (if name \<in> set names then Some (resolved (ResolveUDPAddr n (UDPVersion c) name))
      else udpprepared p name)"
  by (induction names arbitrary: p) (auto simp: prepare_name_def Let_def resolved_def)

lemma prepareDomainName_lookup:
  assumes "prepareDomainName n v = Inr v'" and "VpnSupportSet v = Some s"
    and "PreparedDomainName (vpn_Conf v) = Some c" and "name \<in> set (DomainNameList c)"
  shows "VpnSupportSet v' = Some s"
    and "dial_lookup n' v' network name =
      Inr (if strings_HasPrefix network ''tcp'' then resolved (ResolveTCPAddr n (TCPVersion c) name)
           else resolved (ResolveUDPAddr n (UDPVersion c) name))"
  using assms by (auto simp: prepareDomainName_def dial_lookup_def dial_address_def prepared_lookup)

lemma dial_socket_resolvers [simp]:
  "dial_socket (n\<lparr>ResolveTCPAddr := f, ResolveUDPAddr := g\<rparr>) = dial_socket n"
  by (intro ext) (auto simp: dial_socket_def dial_connect_def sockaddr_of_def
      split: sum.splits option.splits)

text \<open>
  C11. The DNS loop fix: a dial to a prepared name does not ask the resolver, whatever the
  network, and it connects to the address the name had when it was prepared.
\<close>

theorem Dial_prepared:
  assumes "prepareDomainName n v = Inr v'" and "VpnSupportSet v = Some s"
    and "PreparedDomainName (vpn_Conf v) = Some c" and "name \<in> set (DomainNameList c)"
    and "ResolveTCPAddr n (TCPVersion c) name = Inr a" and "ResolveUDPAddr n (UDPVersion c) name = Inr b"
  shows "Dial (n'\<lparr>ResolveTCPAddr := f, ResolveUDPAddr := g\<rparr>) v' network name = Dial n' v' network name \<and>
    (\<forall>evs r fd sa. Dial n' v' network name = (evs, r) \<longrightarrow> ConnectEv fd sa \<in> set evs \<longrightarrow>
       sa = sockaddr_of n' (if strings_HasPrefix network ''tcp'' then a else b))"
proof
  have p: "tcpprepared (prepareddomain v') name = Some (Some a)"
    "udpprepared (prepareddomain v') name = Some (Some b)"
    using assms by (auto simp: prepareDomainName_def prepared_lookup resolved_def)
  show "Dial (n'\<lparr>ResolveTCPAddr := f, ResolveUDPAddr := g\<rparr>) v' network name = Dial n' v' network name"
    unfolding Dial_def dial_address_def p by simp
  show "\<forall>evs r fd sa. Dial n' v' network name = (evs, r) \<longrightarrow> ConnectEv fd sa \<in> set evs \<longrightarrow>
       sa = sockaddr_of n' (if strings_HasPrefix network ''tcp'' then a else b)"
    using Dial_trace [of n' v' network name] prepareDomainName_lookup(2) [OF assms(1-4), of n' network] assms(5,6)
    by (fastforce simp: resolved_def)
qed

text \<open>
  C29. A name that could not be resolved while it was prepared is remembered with a nil address: a
  later dial to it opens and protects a socket and then panics, even if the name resolves by then.
\<close>

theorem Dial_unresolved_panics:
  assumes "prepareDomainName n v = Inr v'" and "VpnSupportSet v = Some s"
    and "PreparedDomainName (vpn_Conf v) = Some c" and "name \<in> set (DomainNameList c)"
    and "ResolveTCPAddr n (TCPVersion c) name = Inl e" and "strings_HasPrefix network ''tcp''"
    and "sys_Socket n' AF_INET6 SOCK_STREAM IPPROTO_TCP = Inr fd"
  shows "Dial n' v' network name =
    ([SocketEv AF_INET6 SOCK_STREAM IPPROTO_TCP, ProtectEv fd], Inl NilDeref)"
  using prepareDomainName_lookup(1) [OF assms(1-4)]
    prepareDomainName_lookup(2) [OF assms(1-4), of n' network] assms(5-)
  by (simp add: Dial_def dial_lookup_def dial_socket_def dial_connect_def resolved_def)

section \<open>Instances\<close>

text \<open>A resolver that knows one name, and a system on which every call succeeds.\<close>

definition demo_addr :: netaddr where
  "demo_addr = \<lparr>IP = [8, 8, 4, 4], Port = 443, Zone = []\<rparr>"

definition demo_net :: "(unit, unit, 32 word) net" where
  "demo_net = \<lparr>ResolveTCPAddr = (\<lambda>_ name. if name = ''a:443'' then Inr demo_addr else Inl ()),
     ResolveUDPAddr = (\<lambda>_ name. if name = ''a:443'' then Inr demo_addr else Inl ()),
     InterfaceByName = (\<lambda>_. Inl ()), sys_Socket = (\<lambda>_ _ _. Inr 5), sys_Connect = (\<lambda>_ _. None),
     net_FileConn = (\<lambda>_. Inr ())\<rparr>"

definition demo_fix :: "string list \<Rightarrow> DNSLoopFix" where
  "demo_fix names = \<lparr>TCPVersion = ''tcp4'', UDPVersion = ''udp4'', DomainNameList = names\<rparr>"

definition demo_vpn :: "string list \<Rightarrow> (unit, unit, unit) VPNSupport" where
  "demo_vpn names =
     \<lparr>prepareddomain = \<lparr>tcpprepared = Map.empty, udpprepared = Map.empty\<rparr>, VpnSupportSet = Some (),
      vpn_status = Some new_Status,
      vpn_Conf = \<lparr>Service = None, PreparedDomainName = Some (demo_fix names)\<rparr>,
      Estr = None, usewaVingOceanVPNBackend = False, lowerup = None\<rparr>"

lemma demo_prepared: "\<exists>v'. prepareDomainName demo_net (demo_vpn names) = Inr v' \<and> VpnSupportSet v' = Some ()"
  by (simp add: prepareDomainName_def demo_vpn_def)

definition demo_trace :: "net_event list" where
  "demo_trace = [SocketEv 10 1 6, ProtectEv 5,
     ConnectEv 5 \<lparr>sa_Port = 443, sa_ZoneId = 0, sa_Addr = [0,0,0,0,0,0,0,0,0,0,255,255,8,8,4,4]\<rparr>,
     FileConnEv 5]"

lemma demo_dial: "Dial demo_net (demo_vpn []) ''tcp4'' ''a:443'' = (demo_trace, Inr (Inr ()))"
  by (simp add: Dial_def demo_net_def demo_vpn_def demo_addr_def demo_trace_def strings_HasPrefix_def
      dial_address_def dial_socket_def dial_connect_def sockaddr_of_def zoneToInt_def go_copy_def
      To16_def v4_prefix_def AF_INET6_def SOCK_STREAM_def IPPROTO_TCP_def numeral_eq_Suc)

theorem Dial_protects_witness:
  "\<exists>st proto. take 2 demo_trace = [SocketEv AF_INET6 st proto, ProtectEv 5]"
  using Dial_protects [OF demo_dial, of "take 2 demo_trace" 5 _ "[FileConnEv 5]"]
  by (auto simp: demo_trace_def)

theorem Dial_prepared_witness:
  "\<exists>v'. prepareDomainName demo_net (demo_vpn [''a:443'']) = Inr v' \<and>
     Dial (demo_net\<lparr>ResolveTCPAddr := \<lambda>_ _. Inl (), ResolveUDPAddr := \<lambda>_ _. Inl ()\<rparr>) v' ''tcp'' ''a:443'' =
     Dial demo_net v' ''tcp'' ''a:443''"
proof -
  obtain v' where v': "prepareDomainName demo_net (demo_vpn [''a:443'']) = Inr v'"
    using demo_prepared by blast
  have "Dial (demo_net\<lparr>ResolveTCPAddr := \<lambda>_ _. Inl (), ResolveUDPAddr := \<lambda>_ _. Inl ()\<rparr>) v' ''tcp'' ''a:443'' =
     Dial demo_net v' ''tcp'' ''a:443''"
    by (rule Dial_prepared [where c = "demo_fix [''a:443'']", THEN conjunct1, OF v'])
      (simp_all add: demo_vpn_def demo_net_def demo_fix_def)
  with v' show ?thesis by blast
qed

theorem Dial_unresolved_panics_witness:
  "\<exists>v'. prepareDomainName demo_net (demo_vpn [''b:53'']) = Inr v' \<and>
     Dial demo_net v' ''tcp'' ''b:53'' =
       ([SocketEv AF_INET6 SOCK_STREAM IPPROTO_TCP, ProtectEv 5], Inl NilDeref)"
proof -
  obtain v' where v': "prepareDomainName demo_net (demo_vpn [''b:53'']) = Inr v'"
    using demo_prepared by blast
  have "Dial demo_net v' ''tcp'' ''b:53'' =
       ([SocketEv AF_INET6 SOCK_STREAM IPPROTO_TCP, ProtectEv 5], Inl NilDeref)"
    by (rule Dial_unresolved_panics [where c = "demo_fix [''b:53'']", OF v'])
      (simp_all add: demo_vpn_def demo_net_def demo_fix_def strings_HasPrefix_def)
  with v' show ?thesis by blast
qed

end
