(* ===== verification/VpnService.thy ===== *)
theory VpnService
  imports Dialer
begin

text \<open>
  The VPN service of \<open>VPN/vpnservice_interact.go\<close>: preparing, starting and shutting down the tunnel,
  with the Java side, the tunnel process and the next-generation tunnel as a trace of calls. The
  escort of the tunnel process is the goroutine system of \<open>EscortSystem\<close>; stopping it may block.
\<close>

section \<open>Calls to the outside\<close>

datatype 'i vpn_event =
    PrepareEv
  | SetupEv string
  | UseDialer
  | SpawnEscort string "string list" int
  | SetBlocking int
  | NewLowerUp int 'i
  | LowerUpUp
  | CloseFd int
  | ShutdownEv
  | LowerUpDown

type_synonym ('s, 'i, 'l) vpn_result = "('i vpn_event list \<times> ('s, 'i, 'l) VPNSupport) go"

definition vpn_SetStatus ::
  "'i Status option \<Rightarrow> ('s, 'i, 'l) VPNSupport \<Rightarrow> ('s, 'i, 'l) VPNSupport" where
  "vpn_SetStatus st v = v\<lparr>vpn_status := st\<rparr>"

definition OptinNextGenerationTunInterface ::
  "('s, 'i, 'l) VPNSupport \<Rightarrow> ('s, 'i, 'l) VPNSupport" where
  "OptinNextGenerationTunInterface v = v\<lparr>usewaVingOceanVPNBackend := True\<rparr>"

section \<open>Starting\<close>

text \<open>
  \<open>fd\<close> is what \<open>GetVPNFd\<close> answers and \<open>lower\<close> the tunnel \<open>NewLowerUp\<close> makes. The assertion on the
  running core panics when there is none.
\<close>

definition startNextGen :: "'l \<Rightarrow> int \<Rightarrow> ('s, 'i, 'l) VPNSupport \<Rightarrow> ('s, 'i, 'l) vpn_result" where
  "startNextGen lower fd v =
     go_bind (deref (VpnSupportSet v)) (\<lambda>_.
     go_bind (deref (vpn_status v)) (\<lambda>st.
       (case Vpoint st of
          None \<Rightarrow> Inl BadAssertion
        | Some ser \<Rightarrow>
            Inr ([SetBlocking fd, NewLowerUp fd ser, LowerUpUp], v\<lparr>lowerup := Some lower\<rparr>))))"

text \<open>
  A new escort with the status of the VPN service, made ready by \<open>EscortingUPV\<close>, and one goroutine
  that keeps the tunnel process alive (not forgiveable).
\<close>

definition new_estr :: "'i Status option \<Rightarrow> esys" where
  "new_estr st =
     (let s = esys_init\<lparr>es_running := (case st of None \<Rightarrow> False | Some x \<Rightarrow> IsRunning x),
                         has_status := st \<noteq> None\<rparr>
      in the (estep (SpawnRun False) (the (estep UpV s))))"

definition startVPNRequire :: "'l \<Rightarrow> int \<Rightarrow> ('s, 'i, 'l) VPNSupport \<Rightarrow> ('s, 'i, 'l) vpn_result" where
  "startVPNRequire lower fd v =
     (if \<not> usewaVingOceanVPNBackend v then
        go_bind (deref (Service (vpn_Conf v))) (\<lambda>c.
        go_bind (deref (VpnSupportSet v)) (\<lambda>_.
          Inr ([SpawnEscort (vs_Target c) (vs_Args c) fd], v\<lparr>Estr := Some (new_estr (vpn_status v))\<rparr>)))
      else startNextGen lower fd v)"

definition VpnSupportReady :: "'l \<Rightarrow> int \<Rightarrow> ('s, 'i, 'l) VPNSupport \<Rightarrow> ('s, 'i, 'l) vpn_result" where
  "VpnSupportReady lower fd v =
     go_bind (deref (vpn_status v)) (\<lambda>st.
       if \<not> VpnSupportnodup st then
         go_bind (deref (VpnSupportSet v)) (\<lambda>_.
         go_bind (deref (Service (vpn_Conf v))) (\<lambda>c.
         go_bind (startVPNRequire lower fd v) (\<lambda>(evs, v').
           Inr (SetupEv (VPNSetupArg c) # UseDialer # evs, v'))))
       else Inr ([], v))"

section \<open>Setting up and shutting down\<close>

definition askSupportSetInit :: "('s, 'i, 'l) VPNSupport \<Rightarrow> ('s, 'i, 'l) vpn_result" where
  "askSupportSetInit v = go_bind (deref (VpnSupportSet v)) (\<lambda>_. Inr ([PrepareEv], v))"

definition VpnSetup ::
  "('e, 'c, 'w::len word) net \<Rightarrow> ('s, 'i, 'l) VPNSupport \<Rightarrow> ('s, 'i, 'l) vpn_result" where
  "VpnSetup n v =
     go_bind (deref (Service (vpn_Conf v))) (\<lambda>c.
       if VPNSetupArg c \<noteq> [] then go_bind (prepareDomainName n v) askSupportSetInit
       else Inr ([], v))"

text \<open>
  \<open>EscortingDown\<close> called while the goroutines of the escort go on as \<open>ls\<close> tries to make them (a step
  that is not enabled is passed over): it has returned when no call is left in its send or past it.
  A panic of any goroutine ends the process.
\<close>

fun sched :: "elabel list \<Rightarrow> esys \<Rightarrow> esys" where
  "sched [] s = s"
| "sched (l # ls) s =
     (if crashed s then s else (case estep l s of None \<Rightarrow> sched ls s | Some t \<Rightarrow> sched ls t))"

lemma sched_erun: "erun ls s = Some t \<Longrightarrow> sched ls s = t"
  by (induction ls arbitrary: s) (auto split: if_splits option.splits)

lemma sched_append: "sched (xs @ ys) s = sched ys (sched xs s)"
proof (induction xs arbitrary: s)
  case (Cons x xs)
  have "crashed s \<Longrightarrow> sched ys s = s" by (cases ys) auto
  with Cons show ?case by (auto split: option.split)
qed simp

datatype 'a stop = Stopped 'a | Waiting 'a

definition EscortingDown :: "elabel list \<Rightarrow> esys \<Rightarrow> esys stop go" where
  "EscortingDown ls s =
     (let t = sched (DownCall # ls) s in
        if crashed t then Inl NilDeref
        else if down_sending t = 0 \<and> down_clearing t = 0 then Inr (Stopped t)
        else Inr (Waiting t))"

text \<open>The escort reads \<open>IsRunning\<close> through the status pointer it was given.\<close>

definition sync_running :: "'i Status option \<Rightarrow> esys \<Rightarrow> esys" where
  "sync_running st s = (case st of None \<Rightarrow> s | Some x \<Rightarrow> s\<lparr>es_running := IsRunning x\<rparr>)"

text \<open>The last statement of \<open>VpnShutdown\<close>, reached when the stop has returned.\<close>

definition shutdown_done :: "('s, 'i, 'l) VPNSupport \<Rightarrow> ('s, 'i, 'l) VPNSupport go" where
  "shutdown_done v =
     go_bind (deref (vpn_status v)) (\<lambda>st. Inr (v\<lparr>vpn_status := Some (st\<lparr>VpnSupportnodup := False\<rparr>)\<rparr>))"

definition stopNextGen :: "('s, 'i, 'l) VPNSupport \<Rightarrow> ('s, 'i, 'l) vpn_result" where
  "stopNextGen v = go_bind (deref (lowerup v)) (\<lambda>_. Inr ([LowerUpDown], v))"

definition stop_backend ::
  "elabel list \<Rightarrow> ('s, 'i, 'l) VPNSupport \<Rightarrow> ('i vpn_event list \<times> ('s, 'i, 'l) VPNSupport stop) go" where
  "stop_backend ls v =
     (if \<not> usewaVingOceanVPNBackend v then
        go_bind (deref (Estr v)) (\<lambda>es.
        go_bind (EscortingDown ls (sync_running (vpn_status v) es)) (\<lambda>r.
          Inr ([], map_stop (\<lambda>t. v\<lparr>Estr := Some t\<rparr>) r)))
      else go_bind (stopNextGen v) (\<lambda>(evs, v'). Inr (evs, Stopped v')))"

definition VpnShutdown ::
  "elabel list \<Rightarrow> int \<Rightarrow> ('s, 'i, 'l) VPNSupport \<Rightarrow>
     ('i vpn_event list \<times> ('s, 'i, 'l) VPNSupport stop) go" where
  "VpnShutdown ls fd v =
     go_bind (deref (Service (vpn_Conf v))) (\<lambda>c.
       if VPNSetupArg c \<noteq> [] then
         go_bind (deref (VpnSupportSet v)) (\<lambda>_.
         go_bind (stop_backend ls v) (\<lambda>(evs, r).
           (case r of
              Waiting v' \<Rightarrow> Inr (CloseFd fd # ShutdownEv # evs, Waiting v')
            | Stopped v' \<Rightarrow>
                go_bind (shutdown_done v') (\<lambda>v''. Inr (CloseFd fd # ShutdownEv # evs, Stopped v'')))))
       else go_bind (shutdown_done v) (\<lambda>v'. Inr ([], Stopped v')))"

section \<open>A life of the service\<close>

lemma new_estr_fields [simp]:
  "procs (new_estr st) = Some []" "crashed (new_estr st) = False" "down_sending (new_estr st) = 0"
  "down_clearing (new_estr st) = 0" "killed (new_estr st) = []" "runners (new_estr st) = [new_runner False]"
  by (simp_all add: new_estr_def esys_init_def)

lemma calm_reach_new_estr: "calm_reach (new_estr (Some st))"
proof -
  have "calm_run [SetRunning (IsRunning st), UpV, SpawnRun False] esys_init = Some (new_estr (Some st))"
    by (simp add: new_estr_def esys_init_def)
  then show ?thesis by (rule calm.run_init)
qed

lemma calm_sync: "calm_reach s \<Longrightarrow> \<not> crashed s \<Longrightarrow> calm_reach (sync_running st s)"
  by (cases st) (auto simp: sync_running_def intro: calm_step [of _ "SetRunning _"])

lemma sync_running_frame [simp]:
  "procs (sync_running st s) = procs s" "crashed (sync_running st s) = crashed s"
  "down_sending (sync_running st s) = down_sending s" "down_clearing (sync_running st s) = down_clearing s"
  "killed (sync_running st s) = killed s"
  by (simp_all add: sync_running_def split: option.split)

text \<open>Stopping an escort that has lived without alarm, once its closer is scheduled.\<close>

lemma EscortingDown_calm:
  assumes "calm_reach s" and "\<not> crashed s" and "procs s = Some ps" and "None \<notin> set ps"
    and "down_sending s = 0" and "down_clearing s = 0"
  shows "\<exists>t. EscortingDown [CloserGetsDown, DownClears] s = Inr (Stopped t) \<and> procs t = None \<and>
     killed t = killed s @ map the ps"
proof -
  have "0 < closers_waiting s" using calm.reach_inv [OF assms(1)] assms by (simp add: calm_inv_def)
  with assms show ?thesis by (simp add: EscortingDown_def down_call_def Let_def)
qed

text \<open>
  C12. Shutting the tunnel down: when the service runs the shipped tunnel process, and its escort has
  only lived through restarts and no alarm and every start succeeded, the shutdown closes the
  tunnel descriptor, tells the VPN service, kills the tunnel processes and returns; the escort has
  then forgotten them and a new network interruption is not suppressed.
\<close>

theorem VpnShutdown_completes:
  assumes "Service (vpn_Conf v) = Some c" and "VPNSetupArg c \<noteq> []" and "VpnSupportSet v = Some s"
    and "vpn_status v = Some st" and "\<not> usewaVingOceanVPNBackend v"
    and "Estr v = Some es" and "calm_reach es" and "\<not> crashed es"
    and "procs es = Some ps" and "None \<notin> set ps" and "down_sending es = 0" and "down_clearing es = 0"
  shows "\<exists>v' t. VpnShutdown [CloserGetsDown, DownClears] fd v = Inr ([CloseFd fd, ShutdownEv], Stopped v') \<and>
     Estr v' = Some t \<and> procs t = None \<and> killed t = killed es @ map the ps \<and> vpn_status v' = Some (st\<lparr>VpnSupportnodup := False\<rparr>)"
proof -
  obtain t where "EscortingDown [CloserGetsDown, DownClears] (sync_running (Some st) es) = Inr (Stopped t)"
    "procs t = None" "killed t = killed es @ map the ps"
    using EscortingDown_calm [OF calm_sync [OF assms(7,8)], of "Some st" ps] assms(8-) by auto
  with assms(1-6) show ?thesis by (simp add: VpnShutdown_def stop_backend_def shutdown_done_def)
qed

text \<open>
  C31. Shutting down too early: between the set-up and the moment the Java side reports that the
  tunnel is ready, there is no escort, and a shutdown ends the process with a nil pointer panic.
\<close>

theorem VpnShutdown_before_ready:
  assumes "VpnSetup n v = Inr ([PrepareEv], v')" and "Estr v = None" and "\<not> usewaVingOceanVPNBackend v"
  shows "VpnShutdown ls fd v' = Inl NilDeref"
proof -
  from assms(1) obtain c where c: "Service (vpn_Conf v) = Some c" "VPNSetupArg c \<noteq> []"
    "prepareDomainName n v = Inr v'" "VpnSupportSet v' \<noteq> None"
    by (auto simp: VpnSetup_def askSupportSetInit_def go_bind_Inr_iff split: if_splits)
  then have "vpn_Conf v' = vpn_Conf v" "Estr v' = Estr v"
    "usewaVingOceanVPNBackend v' = usewaVingOceanVPNBackend v"
    by (auto simp: prepareDomainName_def go_bind_Inr_iff split: option.splits)
  with c assms(2,3) show ?thesis
    by (auto simp: VpnShutdown_def stop_backend_def)
qed

text \<open>
  A second "ready": nothing ever suppresses it, so it starts a second tunnel process under a
  new escort that knows none of the processes the first one has started; a later shutdown kills
  only those of the second.
\<close>

theorem VpnSupportReady_twice:
  assumes "VpnSupportReady lower fd v = Inr (evs, v1)" and "\<not> usewaVingOceanVPNBackend v"
    and "vpn_status v = Some st" and "\<not> VpnSupportnodup st"
  shows "\<exists>c v2. VpnSupportReady lower' fd' (v1\<lparr>Estr := Some es\<rparr>) =
       Inr ([SetupEv (VPNSetupArg c), UseDialer, SpawnEscort (vs_Target c) (vs_Args c) fd'], v2) \<and>
     Service (vpn_Conf v) = Some c \<and>
     Estr v2 = Some (new_estr (Some st)) \<and> procs (new_estr (Some st)) = Some []"
proof -
  from assms obtain c s where c: "Service (vpn_Conf v) = Some c" "VpnSupportSet v = Some s"
    and v1: "v1 = v\<lparr>Estr := Some (new_estr (Some st))\<rparr>"
    by (auto simp: VpnSupportReady_def startVPNRequire_def go_bind_Inr_iff)
  then have "VpnSupportReady lower' fd' (v1\<lparr>Estr := Some es\<rparr>) =
      Inr ([SetupEv (VPNSetupArg c), UseDialer, SpawnEscort (vs_Target c) (vs_Args c) fd'],
        v\<lparr>Estr := Some (new_estr (Some st))\<rparr>)"
    using assms(2-4) by (simp add: VpnSupportReady_def startVPNRequire_def)
  with c(1) show ?thesis
    by (intro exI [of _ c] exI [of _ "v\<lparr>Estr := Some (new_estr (Some st))\<rparr>"]) simp
qed

section \<open>Instances\<close>

definition demo_service :: VPNServiceConfig where
  "demo_service = \<lparr>vs_Target = ''/t'', vs_Args = [], VPNSetupArg = ''m,1500''\<rparr>"

definition demo_up :: "(unit, unit, unit) VPNSupport" where
  "demo_up = (demo_vpn [])\<lparr>vpn_Conf := \<lparr>Service = Some demo_service,
     PreparedDomainName = Some (demo_fix [])\<rparr>\<rparr>"

text \<open>The escort of a tunnel process that was restarted once.\<close>

definition tunnel_labels :: "elabel list" where
  "tunnel_labels = [BuildEnv 0, StartProc 0 (Some 7), ProcExits 0, BuildEnv 0, StartProc 0 (Some 8)]"

lemma tunnel_run:
  assumes "IsRunning st"
  shows "\<exists>es. calm_run tunnel_labels (new_estr (Some st)) = Some es \<and> procs es = Some [Some 7, Some 8] \<and>
     \<not> crashed es \<and> down_sending es = 0 \<and> down_clearing es = 0 \<and> killed es = []"
  using assms
  by (simp add: tunnel_labels_def new_estr_def esys_init_def new_runner_def escort_budget_def runner_in_def
      build_env_def start_proc_def proc_exits_def Let_def)

theorem VpnShutdown_completes_witness:
  "\<exists>es v' t. calm_run tunnel_labels (new_estr (Some (new_Status\<lparr>IsRunning := True\<rparr> :: unit Status))) = Some es \<and>
     VpnShutdown [CloserGetsDown, DownClears] 9 (demo_up\<lparr>Estr := Some es\<rparr>) =
       Inr ([CloseFd 9, ShutdownEv], Stopped v') \<and> Estr v' = Some t \<and> procs t = None \<and> killed t = [7, 8]"
proof -
  let ?st = "new_Status\<lparr>IsRunning := True\<rparr> :: unit Status"
  obtain es where es: "calm_run tunnel_labels (new_estr (Some ?st)) = Some es" "procs es = Some [Some 7, Some 8]"
    "\<not> crashed es" "down_sending es = 0" "down_clearing es = 0" "killed es = []"
    using tunnel_run [of ?st] by auto
  have "calm_reach es" by (rule calm.run_reach [OF calm_reach_new_estr es(1)])
  from VpnShutdown_completes [of "demo_up\<lparr>Estr := Some es\<rparr>" demo_service "()" new_Status es
      "[Some 7, Some 8]" 9, OF _ _ _ _ _ _ this es(3,2) _ es(4,5)] es(1,6)
  show ?thesis by (auto simp: demo_up_def demo_vpn_def demo_service_def)
qed

theorem VpnShutdown_before_ready_witness:
  "\<exists>v'. VpnSetup demo_net demo_up = Inr ([PrepareEv], v') \<and> VpnShutdown [] 9 v' = Inl NilDeref"
proof -
  obtain v' where v': "VpnSetup demo_net demo_up = Inr ([PrepareEv], v')"
    by (simp add: VpnSetup_def prepareDomainName_def askSupportSetInit_def demo_up_def demo_vpn_def
        demo_service_def)
  have "VpnShutdown [] 9 v' = Inl NilDeref"
    by (rule VpnShutdown_before_ready [OF v']) (simp_all add: demo_up_def demo_vpn_def)
  with v' show ?thesis by blast
qed

theorem VpnSupportReady_twice_witness:
  "\<exists>evs v1 v2. VpnSupportReady () 9 demo_up = Inr (evs, v1) \<and>
     VpnSupportReady () 9 (v1\<lparr>Estr := Some esys_init\<rparr>) =
       Inr ([SetupEv ''m,1500'', UseDialer, SpawnEscort ''/t'' [] 9], v2)"
proof -
  obtain evs v1 where v1: "VpnSupportReady () 9 demo_up = Inr (evs, v1)"
    by (simp add: VpnSupportReady_def startVPNRequire_def demo_up_def demo_vpn_def demo_service_def new_Status_def)
  have "vpn_status demo_up = Some new_Status" "\<not> usewaVingOceanVPNBackend demo_up"
    "Service (vpn_Conf demo_up) = Some demo_service"
    by (simp_all add: demo_up_def demo_vpn_def)
  with VpnSupportReady_twice [OF v1, of new_Status "()" 9 esys_init] v1 show ?thesis
    by (auto simp: new_Status_def demo_service_def)
qed

end
