(* ===== verification/Scripts.thy ===== *)
theory Scripts
  imports Escort
begin

text \<open>
  The up and down scripts (\<open>Process/UpDownScript/runscript.go\<close>): the command line and the
  environment of the shell each of them runs in. The exit status is discarded by both callers.
\<close>

record 'i UpDownScript =
  ud_status :: "'i Status option"
  ud_Configure :: "UpDownScripts option"
  ud_Env :: "EnvironmentVar option"

definition new_UpDownScript :: "'i UpDownScript" where
  "new_UpDownScript = \<lparr>ud_status = None, ud_Configure = None, ud_Env = None\<rparr>"

definition ud_SetStatus :: "'i Status option \<Rightarrow> 'i UpDownScript \<Rightarrow> 'i UpDownScript" where
  "ud_SetStatus st v = v\<lparr>ud_status := st\<rparr>"

definition ud_creater :: "'i UpDownScript \<Rightarrow> 'i EnvironmentCreater" where
  "ud_creater v = \<lparr>ec_Conf = ud_Env v, ec_Context = ud_status v\<rparr>"

text \<open>\<open>Runbash\<close> adds the inherited environment and the status variables once more.\<close>

definition Runbash ::
  "int \<Rightarrow> string list \<Rightarrow> 'i UpDownScript \<Rightarrow> string \<Rightarrow> string list \<Rightarrow> command go" where
  "Runbash uid environ v cc env =
     go_bind (AddEnvironment uid (ud_creater v) (env @ environ)) (\<lambda>env'.
       Inr \<lparr>cmd_path = ''/system/bin/sh'', cmd_args = [''-c'', cc], cmd_env = env',
            cmd_ExtraFiles = []\<rparr>)"

definition run_script ::
  "int \<Rightarrow> (string \<times> string) list \<Rightarrow> string list \<Rightarrow> 'i UpDownScript \<Rightarrow> (UpDownScripts \<Rightarrow> string) \<Rightarrow>
     command go" where
  "run_script uid it environ v sel =
     go_bind (deref (ud_Configure v)) (\<lambda>c.
     go_bind (child_env uid it environ (ud_creater v)) (\<lambda>env.
       Runbash uid environ v (sel c) env))"

definition RunUpScript ::
  "int \<Rightarrow> (string \<times> string) list \<Rightarrow> string list \<Rightarrow> 'i UpDownScript \<Rightarrow> command go" where
  "RunUpScript uid it environ v = run_script uid it environ v UpScript"

definition RunDownScript ::
  "int \<Rightarrow> (string \<times> string) list \<Rightarrow> string list \<Rightarrow> 'i UpDownScript \<Rightarrow> command go" where
  "RunDownScript uid it environ v = run_script uid it environ v DownScript"

lemma run_script_ok:
  assumes "ud_status v = Some st" and "ud_Configure v = Some c"
    and "may_range it (ud_creater v)" and "keys_ok (conf_vars (ud_creater v))"
  shows "\<exists>e. run_script uid it environ v sel =
       Inr \<lparr>cmd_path = ''/system/bin/sh'', cmd_args = [''-c'', sel c], cmd_env = e, cmd_ExtraFiles = []\<rparr> \<and>
     effective_env e =
       (conf_vars (ud_creater v) ++ effective_env environ) ++ status_vars uid st"
proof -
  have ctx: "ec_Context (ud_creater v) = Some st" using assms(1) by (simp add: ud_creater_def)
  then obtain e where e: "child_env uid it environ (ud_creater v) = Inr e"
    "effective_env e = ((conf_vars (ud_creater v) ++ status_vars uid st) ++ effective_env environ) ++ status_vars uid st"
    using child_env_ok [OF ctx, of uid it environ] assms(3,4) by blast
  have "effective_env ((e @ environ) @ [kv ''proxyuid'' (Itoa uid), kv ''datadir'' (getDataDir (PackageName st))]) =
      (conf_vars (ud_creater v) ++ effective_env environ) ++ status_vars uid st"
    unfolding effective_env_append effective_status_vars e(2)
    by (auto simp: fun_eq_iff map_add_def status_vars_def split: option.split)
  then show ?thesis
    using assms(2) ctx e(1) by (auto simp: run_script_def Runbash_def AddEnvironment_Some)
qed

text \<open>
  C27. Scripts: with a status and a configuration in place, the up and the down script run as the
  argument of \<open>/system/bin/sh -c\<close>, unchanged, in an environment where the status variables win over the
  inherited ones and those over the configured ones; without a status, or without a
  configuration, both calls panic.
\<close>

theorem scripts_run:
  assumes "ranges it m" and "keys_ok m" and "ud_Env v = Some \<lparr>Vars = m\<rparr>"
  shows "(case (ud_status v, ud_Configure v) of
       (Some st, Some c) \<Rightarrow>
         (\<exists>up down. RunUpScript uid it environ v = Inr up \<and> RunDownScript uid it environ v = Inr down \<and>
            cmd_path up = ''/system/bin/sh'' \<and> cmd_path down = ''/system/bin/sh'' \<and>
            cmd_args up = [''-c'', UpScript c] \<and> cmd_args down = [''-c'', DownScript c] \<and>
            effective_env (cmd_env up) = (m ++ effective_env environ) ++ status_vars uid st \<and>
            effective_env (cmd_env down) = effective_env (cmd_env up))
     | _ \<Rightarrow> RunUpScript uid it environ v = Inl NilDeref \<and> RunDownScript uid it environ v = Inl NilDeref)"
proof (cases "ud_status v")
  case None
  then show ?thesis
    by (cases "ud_Configure v")
      (simp_all add: RunUpScript_def RunDownScript_def run_script_def child_env_nil ud_creater_def)
next
  case (Some st)
  show ?thesis
  proof (cases "ud_Configure v")
    case None
    with Some show ?thesis by (simp add: RunUpScript_def RunDownScript_def run_script_def)
  next
    case conf: (Some c)
    have "may_range it (ud_creater v)" "keys_ok (conf_vars (ud_creater v))" "conf_vars (ud_creater v) = m"
      using assms by (simp_all add: ud_creater_def may_range_def conf_vars_def)
    with run_script_ok [OF Some conf, of it uid environ UpScript]
      run_script_ok [OF Some conf, of it uid environ DownScript] Some conf
    show ?thesis by (auto simp: RunUpScript_def RunDownScript_def)
  qed
qed

theorem scripts_run_witness:
  "\<exists>up. RunUpScript 0 [] [] \<lparr>ud_status = Some (new_Status :: unit Status),
        ud_Configure = Some \<lparr>UpScript = ''#none'', DownScript = ''#none''\<rparr>, ud_Env = Some \<lparr>Vars = Map.empty\<rparr>\<rparr> = Inr up \<and>
     cmd_path up = ''/system/bin/sh'' \<and> cmd_args up = [''-c'', ''#none''] \<and>
     effective_env (cmd_env up) ''datadir'' = Some (getDataDir [])"
  using scripts_run [of "[]" Map.empty "\<lparr>ud_status = Some (new_Status :: unit Status),
        ud_Configure = Some \<lparr>UpScript = ''#none'', DownScript = ''#none''\<rparr>, ud_Env = Some \<lparr>Vars = Map.empty\<rparr>\<rparr>" 0 "[]"]
  by (auto simp: keys_ok_def status_vars_def new_Status_def)

end
