(* ===== verification/FirstRun.thy ===== *)
theory FirstRun
  imports CoreStatus
begin

text \<open>
  The export of the shipped binaries (\<open>shippedBinarys/firstrun.go\<close>). \<open>AssetDir\<close> and \<open>RestoreAsset\<close>
  are generated by go-bindata and are parameters; the file system is the one of \<open>GoFS\<close>.
\<close>

record 'i FirstRun = fr_status :: "'i Status option"

definition SetCoreI :: "'i Status option \<Rightarrow> 'i FirstRun \<Rightarrow> 'i FirstRun" where
  "SetCoreI st v = v\<lparr>fr_status := st\<rparr>"

type_synonym restorer = "string \<Rightarrow> string \<Rightarrow> fs \<Rightarrow> fs"

text \<open>One asset: restored below the data directory, made executable, and linked by its base name.\<close>

definition export_asset :: "restorer \<Rightarrow> string \<Rightarrow> string \<Rightarrow> string \<Rightarrow> fs \<Rightarrow> fs" where
  "export_asset restore datadir sub fn s =
     (let s1 = restore datadir (sub @ fn) s;
          s2 = fst (os_Chmod (datadir @ sub @ fn) 448 s1)
      in fst (os_Symlink (datadir @ sub @ fn) (datadir @ fn) s2))"

text \<open>The second loop: a directory per architecture, each listed when it is its turn.\<close>

fun export_archs ::
  "(string \<Rightarrow> 'e + string list) \<Rightarrow> restorer \<Rightarrow> string \<Rightarrow> string list \<Rightarrow> fs \<Rightarrow> fs \<times> 'e option" where
  "export_archs assetdir restore datadir [] s = (s, None)"
| "export_archs assetdir restore datadir (fn # fns) s =
     (case assetdir (''ArchDep/'' @ fn) of
        Inl e \<Rightarrow> (s, Some e)
      | Inr names \<Rightarrow>
          export_archs assetdir restore datadir fns
            (fold (export_asset restore datadir (''ArchDep/'' @ fn @ ''/'')) names s))"

definition stamp :: string where
  "stamp = Itoa CheckVersion"

text \<open>
  Only the answer "does not exist" for the stamp starts the export. The stamp is made last, after
  both loops, and whether that works is ignored.
\<close>

definition checkIfRcExist ::
  "(string \<Rightarrow> 'e + string list) \<Rightarrow> restorer \<Rightarrow> 'i FirstRun \<Rightarrow> fs \<Rightarrow> (fs \<times> 'e option) go" where
  "checkIfRcExist assetdir restore v s =
     go_bind (GetDataDir (fr_status v)) (\<lambda>datadir.
       if os_Stat s (datadir @ stamp) \<noteq> Inl ENOENT then Inr (s, None)
       else
         (case assetdir ''ArchIndep'' of
            Inl e \<Rightarrow> Inr (s, Some e)
          | Inr indep \<Rightarrow>
              (let s1 = fold (export_asset restore datadir ''ArchIndep/'') indep s in
                 case assetdir ''ArchDep'' of
                   Inl e \<Rightarrow> Inr (s1, Some e)
                 | Inr archs \<Rightarrow>
                     (case export_archs assetdir restore datadir archs s1 of
                        (s2, Some e) \<Rightarrow> Inr (s2, Some e)
                      | (s2, None) \<Rightarrow> Inr (fst (os_Create (datadir @ stamp) s2), None)))))"

definition CheckAndExport ::
  "(string \<Rightarrow> 'e + string list) \<Rightarrow> restorer \<Rightarrow> 'i FirstRun \<Rightarrow> fs \<Rightarrow> (fs \<times> 'e option) go" where
  "CheckAndExport = checkIfRcExist"

lemma os_Stat_stamp_iff: "os_IsNotExist e \<longleftrightarrow> (Inl e :: fs_error + node) = Inl ENOENT"
  by (simp add: os_IsNotExist_def)

section \<open>The list of exports\<close>

definition exports :: "string list \<Rightarrow> string list \<Rightarrow> (string \<Rightarrow> string list) \<Rightarrow> (string \<times> string) list" where
  "exports indep archs dep =
     map (Pair ''ArchIndep/'') indep @
     concat (map (\<lambda>a. map (Pair (''ArchDep/'' @ a @ ''/'')) (dep a)) archs)"

definition export_all :: "restorer \<Rightarrow> string \<Rightarrow> (string \<times> string) list \<Rightarrow> fs \<Rightarrow> fs" where
  "export_all restore datadir = fold (\<lambda>(sub, fn). export_asset restore datadir sub fn)"

lemma export_all_simps [simp]:
  "export_all restore d [] s = s"
  "export_all restore d ((sub, fn) # xs) s = export_all restore d xs (export_asset restore d sub fn s)"
  "export_all restore d (xs @ ys) s = export_all restore d ys (export_all restore d xs s)"
  by (simp_all add: export_all_def)

lemma export_all_Pair:
  "export_all restore d (map (Pair sub) fns) s = fold (export_asset restore d sub) fns s"
  by (induction fns arbitrary: s) auto

lemma export_archs_all:
  assumes "\<And>a. a \<in> set archs \<Longrightarrow> assetdir (''ArchDep/'' @ a) = Inr (dep a)"
  shows "export_archs assetdir restore d archs s =
    (export_all restore d (concat (map (\<lambda>a. map (Pair (''ArchDep/'' @ a @ ''/'')) (dep a)) archs)) s, None)"
  using assms by (induction archs arbitrary: s) (auto simp: export_all_Pair)

section \<open>What an export leaves behind\<close>

text \<open>
  The documented behaviour of \<open>RestoreAsset\<close> on a path where a file can be written: the file has
  the content of the asset, and besides only missing directories above it have been made.
\<close>

definition restored :: "string \<Rightarrow> string \<Rightarrow> fs \<Rightarrow> fs \<Rightarrow> bool" where
  "restored p c s s' \<longleftrightarrow>
     denied s' = denied s \<and> (\<exists>m. nodes s' p = Some (File c m)) \<and>
     (\<forall>q. q \<noteq> p \<longrightarrow> nodes s' q = nodes s q \<or>
        nodes s q = None \<and> nodes s' q = Some Dir \<and> prefix (q @ ''/'') p)"

definition writable :: "fs \<Rightarrow> string \<Rightarrow> bool" where
  "writable s p \<longleftrightarrow> (case nodes s p of None \<Rightarrow> True | Some (File _ _) \<Rightarrow> True | _ \<Rightarrow> False)"

definition restores :: "restorer \<Rightarrow> (string \<Rightarrow> string) \<Rightarrow> string \<Rightarrow> string set \<Rightarrow> bool" where
  "restores restore content d names \<longleftrightarrow>
     (\<forall>n \<in> names. \<forall>s. (\<forall>q. \<not> denied s q) \<longrightarrow> writable s (d @ n) \<longrightarrow>
        restored (d @ n) (content n) s (restore d n s))"

text \<open>
  Export lists without clashes: base names are distinct, and none of them, nor the stamp or an
  asset, is a directory of an asset.
\<close>

definition asset_name :: "string \<times> string \<Rightarrow> string" where
  "asset_name x = fst x @ snd x"

definition base_name_ok :: "(string \<times> string) list \<Rightarrow> string \<Rightarrow> bool" where
  "base_name_ok xs fn \<longleftrightarrow>
     CHR ''/'' \<notin> set fn \<and> (\<forall>x \<in> set xs. \<not> prefix (fn @ ''/'') (asset_name x))"

definition exports_ok :: "(string \<times> string) list \<Rightarrow> bool" where
  "exports_ok xs \<longleftrightarrow>
     distinct (map snd xs) \<and> base_name_ok xs stamp \<and> stamp \<notin> snd ` set xs \<and>
     (\<forall>x \<in> set xs. base_name_ok xs (snd x) \<and> CHR ''/'' \<in> set (fst x) \<and>
        (\<forall>y \<in> set xs. \<not> prefix (asset_name x @ ''/'') (asset_name y)))"

text \<open>The data directory before an export, with \<open>todo\<close> still to do and \<open>ready\<close> done.\<close>

definition export_inv ::
  "(string \<Rightarrow> string) \<Rightarrow> string \<Rightarrow> (string \<times> string) set \<Rightarrow> (string \<times> string) set \<Rightarrow> fs \<Rightarrow> bool" where
  "export_inv content d ready todo s \<longleftrightarrow>
     (\<forall>q. \<not> denied s q) \<and> nodes s (path_Dir (d @ stamp)) = Some Dir \<and> nodes s (d @ stamp) = None \<and>
     (\<forall>x \<in> todo. nodes s (d @ snd x) = None \<and> writable s (d @ asset_name x)) \<and>
     (\<forall>x \<in> ready. nodes s (d @ snd x) = Some (Symlink (d @ asset_name x)) \<and>
        nodes s (d @ asset_name x) = Some (File (content (asset_name x)) 448))"

lemma path_Dir_data:
  assumes "pkg = [] \<or> plain_elem pkg" and "CHR ''/'' \<notin> set name"
  shows "path_Dir (getDataDir pkg @ name) = ''/data/data/'' @ package_name pkg"
proof -
  let ?es = "[''data'', ''data'', package_name pkg]"
  have "\<forall>e \<in> set ?es. plain_elem e"
    using plain_package_name [OF assms(1)] by (simp add: plain_elem_def)
  then have "path_Dir (CHR ''/'' # strings_Join CHR ''/'' ?es @ CHR ''/'' # name) =
      CHR ''/'' # strings_Join CHR ''/'' ?es"
    using assms(2) by (intro path_Dir_rooted) auto
  then show ?thesis by (simp add: getDataDir_elems)
qed

lemma restored_other:
  "restored p c s s' \<Longrightarrow> q \<noteq> p \<Longrightarrow> nodes s' q = nodes s q \<or>
     nodes s q = None \<and> nodes s' q = Some Dir \<and> prefix (q @ ''/'') p"
  by (auto simp: restored_def)

text \<open>One export in terms of the map of nodes.\<close>

lemma export_asset_nodes:
  assumes r: "restored (d @ sub @ fn) c s (restore d (sub @ fn) s)"
    and acc: "\<And>q. \<not> denied s q"
    and free: "nodes s (d @ fn) = None" "\<not> prefix (fn @ ''/'') (sub @ fn)" "fn \<noteq> sub @ fn"
    and dir: "nodes s (path_Dir (d @ fn)) = Some Dir" "path_Dir (d @ fn) \<noteq> d @ sub @ fn"
  shows "nodes (export_asset restore d sub fn s) =
      (nodes (restore d (sub @ fn) s))(d @ sub @ fn \<mapsto> File c 448, d @ fn \<mapsto> Symlink (d @ sub @ fn))"
    and "denied (export_asset restore d sub fn s) = denied s"
proof -
  let ?p = "d @ sub @ fn" and ?s1 = "restore d (sub @ fn) s"
  obtain m where m: "nodes ?s1 ?p = Some (File c m)" and den: "denied ?s1 = denied s"
    using r by (auto simp: restored_def)
  have "follow max_links ?s1 ?p = Inr (?p, Some (File c m))"
    using follow_direct [of ?s1 ?p max_links] m den acc by (simp add: max_links_def)
  then have chmod: "fst (os_Chmod ?p 448 ?s1) = set_node ?p (File c 448) ?s1"
    by (simp add: os_Chmod_def)
  have l: "nodes ?s1 (d @ fn) = None"
    using restored_other [OF r, of "d @ fn"] free by auto
  have dl: "nodes ?s1 (path_Dir (d @ fn)) = Some Dir" using r dir by (auto simp: restored_def)
  then have "is_dir (set_node ?p (File c 448) ?s1) (path_Dir (d @ fn))"
    using acc den dir(2) by (simp add: is_dir_def os_Stat_direct)
  then have link: "fst (os_Symlink ?p (d @ fn) (set_node ?p (File c 448) ?s1)) =
      set_node (d @ fn) (Symlink ?p) (set_node ?p (File c 448) ?s1)"
    using l free(3) acc den by (simp add: os_Symlink_def)
  show "nodes (export_asset restore d sub fn s) =
      (nodes ?s1)(?p \<mapsto> File c 448, d @ fn \<mapsto> Symlink ?p)"
    and "denied (export_asset restore d sub fn s) = denied s"
    unfolding export_asset_def Let_def chmod link using den by simp_all
qed

lemma export_inv_step:
  assumes inv: "export_inv content d ready (insert x todo) s" and ok: "exports_ok xs"
    and sub: "insert x (ready \<union> todo) \<subseteq> set xs" "x \<notin> ready" "x \<notin> todo"
    and r: "restored (d @ asset_name x) (content (asset_name x)) s (restore d (asset_name x) s)"
    and dirs: "\<And>fn. CHR ''/'' \<notin> set fn \<Longrightarrow> path_Dir (d @ fn) = path_Dir (d @ stamp)"
  shows "export_inv content d (insert x ready) todo (export_asset restore d (fst x) (snd x) s)"
proof -
  let ?p = "d @ asset_name x" and ?l = "d @ snd x" and ?s1 = "restore d (asset_name x) s"
  let ?t = "export_asset restore d (fst x) (snd x) s"
  have name: "CHR ''/'' \<in> set (asset_name y)" "CHR ''/'' \<notin> set (snd y)" if "y \<in> set xs" for y
    using ok that by (auto simp: exports_ok_def base_name_ok_def asset_name_def)
  have x: "x \<in> set xs" and acc: "\<And>q. \<not> denied s q" and dir: "nodes s (path_Dir (d @ stamp)) = Some Dir"
    and w: "nodes s ?l = None" "writable s ?p"
    using inv sub by (auto simp: export_inv_def)
  have noslash: "CHR ''/'' \<notin> set stamp" using ok by (simp add: exports_ok_def base_name_ok_def)
  have Dp: "path_Dir (d @ stamp) \<noteq> ?p" using dir w(2) by (auto simp: writable_def)
  have Dl: "path_Dir (d @ stamp) \<noteq> ?l" using dir w(1) by auto
  have fst_x: "fst x \<noteq> []" using ok x by (auto simp: exports_ok_def)
  have nodes_t: "nodes ?t = (nodes ?s1)(?p \<mapsto> File (content (asset_name x)) 448, ?l \<mapsto> Symlink ?p)"
    and den: "denied ?t = denied s"
    using export_asset_nodes [of d "fst x" "snd x" "content (asset_name x)" s restore]
      r acc w(1) dir Dp dirs [OF name(2) [OF x]] name [OF x] ok x fst_x
    by (auto simp: asset_name_def exports_ok_def base_name_ok_def)
  have base: "nodes ?t (d @ fn) = None"
    if "nodes s (d @ fn) = None" "base_name_ok xs fn" "fn \<noteq> snd x" for fn
  proof -
    have "d @ fn \<noteq> ?p" using that(2) name(1) [OF x] by (auto simp: base_name_ok_def)
    moreover from this have "nodes ?s1 (d @ fn) = None"
      using r that x by (auto simp: restored_def base_name_ok_def)
    ultimately show ?thesis using that(3) by (simp add: nodes_t)
  qed
  have snds: "snd y \<noteq> snd x" if "y \<in> set xs" "y \<noteq> x" for y
    using ok that x by (auto simp: exports_ok_def distinct_map inj_on_def)
  have kept: "nodes ?t q = nodes s q" if "nodes s q \<noteq> None" "q \<noteq> ?p" for q
    using that r w(1) by (auto simp: nodes_t restored_def)
  have "nodes ?t (d @ snd y) = None \<and> writable ?t (d @ asset_name y)" if y: "y \<in> todo" for y
  proof -
    have y': "y \<in> set xs" "y \<noteq> x" "nodes s (d @ snd y) = None" "writable s (d @ asset_name y)"
      using sub y inv by (auto simp: export_inv_def)
    have "writable ?t (d @ asset_name y)"
    proof (cases "asset_name y = asset_name x")
      case True
      then show ?thesis using name [OF x] by (auto simp: writable_def nodes_t)
    next
      case False
      have "asset_name y \<noteq> snd x" using name(1) [OF y'(1)] name(2) [OF x] by metis
      moreover have "\<not> prefix (asset_name y @ ''/'') (asset_name x)"
        using ok x y'(1) by (auto simp: exports_ok_def)
      ultimately show ?thesis
        using r y'(4) False by (auto simp: writable_def nodes_t restored_def split: option.splits)
    qed
    moreover have "base_name_ok xs (snd y)" using ok y'(1) by (auto simp: exports_ok_def)
    ultimately show ?thesis using base y'(3) snds [OF y'(1,2)] by blast
  qed
  moreover have "nodes ?t (d @ snd y) = Some (Symlink (d @ asset_name y)) \<and>
      nodes ?t (d @ asset_name y) = Some (File (content (asset_name y)) 448)" if y: "y \<in> ready" for y
  proof -
    have y': "y \<in> set xs" "nodes s (d @ snd y) = Some (Symlink (d @ asset_name y))"
      "nodes s (d @ asset_name y) = Some (File (content (asset_name y)) 448)"
      using sub y inv by (auto simp: export_inv_def)
    have "d @ snd y \<noteq> ?p" using w(2) y'(2) by (auto simp: writable_def)
    moreover have "asset_name y = asset_name x \<Longrightarrow>
        nodes ?t (d @ asset_name y) = Some (File (content (asset_name y)) 448)"
      using name [OF x] by (auto simp: nodes_t)
    ultimately show ?thesis using kept y' by fastforce
  qed
  moreover have "nodes ?t ?l = Some (Symlink ?p)" "nodes ?t ?p = Some (File (content (asset_name x)) 448)"
    using name [OF x] by (auto simp: nodes_t)
  moreover have "nodes ?t (path_Dir (d @ stamp)) = Some Dir" using kept dir Dp by simp
  moreover have "nodes ?t (d @ stamp) = None"
    using base [of stamp] inv ok x by (auto simp: export_inv_def exports_ok_def)
  ultimately show ?thesis using acc den by (auto simp: export_inv_def)
qed

lemma export_inv_all:
  assumes ok: "exports_ok xs" and r: "restores restore content d (asset_name ` set xs)"
    and dirs: "\<And>fn. CHR ''/'' \<notin> set fn \<Longrightarrow> path_Dir (d @ fn) = path_Dir (d @ stamp)"
  shows "export_inv content d ready (set todo) s \<Longrightarrow> ready \<union> set todo \<subseteq> set xs \<Longrightarrow>
    distinct todo \<Longrightarrow> ready \<inter> set todo = {} \<Longrightarrow>
    export_inv content d (ready \<union> set todo) {} (export_all restore d todo s)"
proof (induction todo arbitrary: ready s)
  case (Cons x todo)
  have "(\<forall>q. \<not> denied s q)" "writable s (d @ asset_name x)" "asset_name x \<in> asset_name ` set xs"
    using Cons.prems by (auto simp: export_inv_def)
  with r have rx: "restored (d @ asset_name x) (content (asset_name x)) s (restore d (asset_name x) s)"
    by (auto simp: restores_def)
  have "export_inv content d (insert x ready) (set todo) (export_asset restore d (fst x) (snd x) s)"
    by (rule export_inv_step [OF _ ok]) (use Cons.prems rx dirs in auto)
  from Cons.IH [OF this] Cons.prems show ?case by (cases x) auto
qed simp

lemma checkIfRcExist_run:
  assumes "fr_status v = Some st" and "d = getDataDir (PackageName st)"
    and "os_Stat s (d @ stamp) = Inl ENOENT"
    and "assetdir ''ArchIndep'' = Inr indep" and "assetdir ''ArchDep'' = Inr archs"
    and "\<And>a. a \<in> set archs \<Longrightarrow> assetdir (''ArchDep/'' @ a) = Inr (dep a)"
  shows "checkIfRcExist assetdir restore v s =
    Inr (fst (os_Create (d @ stamp) (export_all restore d (exports indep archs dep) s)), None)"
  using assms export_archs_all [where archs = archs and assetdir = assetdir and dep = dep]
  by (simp add: checkIfRcExist_def exports_def export_all_Pair Let_def)

text \<open>
  C10. First run: in a package without a stamp, when go-bindata restores every asset, the export
  succeeds, every shipped binary can then be opened and executed under its base name in the data
  directory, and a second run changes nothing.
\<close>

theorem first_run_exports:
  assumes "fr_status v = Some st" and "PackageName st = [] \<or> plain_elem (PackageName st)"
    and "d = getDataDir (PackageName st)" and "xs = exports indep archs dep"
    and "assetdir ''ArchIndep'' = Inr indep" and "assetdir ''ArchDep'' = Inr archs"
    and "\<And>a. a \<in> set archs \<Longrightarrow> assetdir (''ArchDep/'' @ a) = Inr (dep a)"
    and "exports_ok xs" and "restores restore content d (asset_name ` set xs)"
    and "export_inv content d {} (set xs) s"
  shows "\<exists>s'. CheckAndExport assetdir restore v s = Inr (s', None) \<and>
     (\<forall>(sub, fn) \<in> set xs. os_Stat s' (d @ fn) = Inr (File (content (sub @ fn)) 448)) \<and>
     CheckAndExport assetdir restore v s' = Inr (s', None)"
proof -
  let ?t = "export_all restore d xs s" and ?t' = "set_node (d @ stamp) (File [] 438) (export_all restore d xs s)"
  have noslash: "CHR ''/'' \<notin> set stamp" using assms(8) by (simp add: exports_ok_def base_name_ok_def)
  have dirs: "path_Dir (d @ fn) = path_Dir (d @ stamp)" if "CHR ''/'' \<notin> set fn" for fn
    using path_Dir_data [OF assms(2)] that noslash assms(3) by simp
  have "distinct xs" using assms(8) by (simp add: exports_ok_def distinct_map)
  then have t: "export_inv content d (set xs) {} ?t"
    using export_inv_all [OF assms(8,9) dirs, of "{}" xs s] assms(10) by simp
  then have acc: "\<And>q. \<not> denied ?t q" by (simp add: export_inv_def)
  have "os_Stat s (d @ stamp) = Inl ENOENT"
    using assms(10) by (simp add: export_inv_def os_Stat_direct)
  from checkIfRcExist_run [OF assms(1,3) this assms(5,6,7)]
  have run: "checkIfRcExist assetdir restore v s = Inr (fst (os_Create (d @ stamp) ?t), None)"
    by (simp add: assms(4))
  have "follow max_links ?t (d @ stamp) = Inr (d @ stamp, None)"
    using follow_direct [of ?t "d @ stamp" max_links] t by (simp add: export_inv_def max_links_def)
  moreover have "is_dir ?t (path_Dir (d @ stamp))"
    using t by (simp add: export_inv_def is_dir_def os_Stat_direct)
  ultimately have create: "fst (os_Create (d @ stamp) ?t) = ?t'"
    by (simp add: os_Create_def ioutil_WriteFile_def)
  have "os_Stat ?t' (d @ fn) = Inr (File (content (sub @ fn)) 448)" if "(sub, fn) \<in> set xs" for sub fn
  proof -
    have n: "nodes ?t (d @ fn) = Some (Symlink (d @ sub @ fn))"
      "nodes ?t (d @ sub @ fn) = Some (File (content (sub @ fn)) 448)"
      using t that by (auto simp: export_inv_def asset_name_def)
    then have "fn \<noteq> stamp" "sub @ fn \<noteq> stamp" using t by (auto simp: export_inv_def)
    with n acc show ?thesis by (simp add: os_Stat_def max_links_def numeral_eq_Suc)
  qed
  moreover have "checkIfRcExist assetdir restore v ?t' = Inr (?t', None)"
    using assms(1,3) acc by (simp add: checkIfRcExist_def os_Stat_direct)
  ultimately show ?thesis using run create by (auto simp: CheckAndExport_def)
qed

section \<open>Instances\<close>

text \<open>Two assets of one architecture and a restorer that makes directories and writes the file.\<close>

definition demo_restore :: restorer where
  "demo_restore d n s = set_node (d @ n) (File n 0) s"

definition demo_assetdir :: "string \<Rightarrow> unit + string list" where
  "demo_assetdir p =
     (if p = ''ArchIndep'' then Inr [''c''] else if p = ''ArchDep'' then Inr [''a'']
      else if p = ''ArchDep/a'' then Inr [''t''] else Inl ())"

definition demo_home :: fs where
  "demo_home = \<lparr>nodes = [''/data/data/p'' \<mapsto> Dir], denied = (\<lambda>_. False)\<rparr>"

lemma stamp_eq: "stamp = ''27''"
  by code_simp

theorem first_run_exports_witness:
  "\<exists>s'. CheckAndExport demo_assetdir demo_restore \<lparr>fr_status = Some ((new_Status :: unit Status)\<lparr>PackageName := ''p''\<rparr>)\<rparr>
       demo_home = Inr (s', None) \<and> os_Stat s' ''/data/data/p/t'' = Inr (File ''ArchDep/a/t'' 448)"
proof -
  let ?st = "(new_Status :: unit Status)\<lparr>PackageName := ''p''\<rparr>"
  let ?d = "getDataDir (PackageName ?st)" and ?xs = "exports [''c''] [''a''] (\<lambda>_. [''t''])"
  have d: "?d = ''/data/data/p/''" by (simp add: getDataDir_def)
  have xs: "?xs = [(''ArchIndep/'', ''c''), (''ArchDep/a/'', ''t'')]" by (simp add: exports_def)
  have ok: "exports_ok ?xs"
    unfolding xs by (auto simp: exports_ok_def base_name_ok_def asset_name_def stamp_eq)
  have r: "restores demo_restore id ?d (asset_name ` set ?xs)"
    by (auto simp: restores_def restored_def demo_restore_def)
  have "path_Dir (?d @ stamp) = ''/data/data/p''"
    using path_Dir_data [of "''p''" stamp] by (simp add: stamp_eq plain_elem_def package_name_def)
  then have i: "export_inv id ?d {} (set ?xs) demo_home"
    unfolding d xs by (simp add: export_inv_def demo_home_def writable_def asset_name_def stamp_eq)
  from first_run_exports [of "\<lparr>fr_status = Some ?st\<rparr>" ?st ?d ?xs "[''c'']" "[''a'']" "\<lambda>_. [''t'']" demo_assetdir, OF _ _ refl refl _ _ _ ok r i]
  show ?thesis using d by (auto simp: demo_assetdir_def xs plain_elem_def)
qed

end
