(* ===== verification/ConfContext.thy ===== *)
theory ConfContext
  imports CoreStatus
begin

text \<open>
  The context object of \<open>context.go\<close>: the selected configuration file, persisted as a property
  in the package's \<open>config\<close> directory, the directory listing offered to the user, and the two
  callbacks. The property store is an interface (a locale) with the laws the selection relies
  on; \<open>ReadProp\<close> and \<open>WriteProp\<close> on the file system interpret it.
\<close>

section \<open>The context\<close>

datatype callback = OnRefreshNeeded | OnFileSelectTriggerd

text \<open>\<open>Callbacks\<close> is an interface value, nil or not; calls on it are recorded in order.\<close>

record 'i V2RayContext =
  configureFile :: string
  Callbacks :: bool
  ctx_Status :: "'i Status option"

definition NewLib2rayContext :: "'i V2RayContext" where
  "NewLib2rayContext = \<lparr>configureFile = [], Callbacks = False, ctx_Status = Some new_Status\<rparr>"

definition configureFile_prop :: string where
  "configureFile_prop = ''ConfigureFile''"

definition invoke :: "'i V2RayContext \<Rightarrow> callback \<Rightarrow> callback list \<Rightarrow> callback list go" where
  "invoke vc c tr = (if Callbacks vc then Inr (tr @ [c]) else Inl NilDeref)"

definition exists_file :: "fs \<Rightarrow> string \<Rightarrow> bool" where
  "exists_file s path =
     (case os_Stat s path of
        Inr _ \<Rightarrow> True
      | Inl err \<Rightarrow> if os_IsNotExist err then False else False)"

definition CheckConfigureFile :: "fs \<Rightarrow> 'i V2RayContext \<Rightarrow> bool" where
  "CheckConfigureFile s vc = (if \<not> exists_file s (configureFile vc) then False else True)"

definition SetPackageName :: "string \<Rightarrow> 'i V2RayContext \<Rightarrow> 'i V2RayContext go" where
  "SetPackageName pkg vc =
     go_bind (deref (ctx_Status vc)) (\<lambda>st.
       Inr (vc\<lparr>ctx_Status := Some (st\<lparr>PackageName := pkg\<rparr>)\<rparr>))"

definition GetBriefDesc :: "string \<Rightarrow> string" where
  "GetBriefDesc pathn = snd (path_Split pathn)"

section \<open>Properties\<close>

definition ReadProp :: "string \<Rightarrow> 'i V2RayContext \<Rightarrow> fs \<Rightarrow> (fs \<times> (fs_error + string)) go" where
  "ReadProp name vc s =
     go_bind (GetDataDir (ctx_Status vc)) (\<lambda>dir.
       (let s' = fst (os_MkdirAll (dir @ ''config'') s)
        in Inr (s', go_bind (os_Open s' (dir @ ''config/'' @ name)) ReadAll)))"

definition ReadPropD :: "string \<Rightarrow> 'i V2RayContext \<Rightarrow> fs \<Rightarrow> (fs \<times> string) go" where
  "ReadPropD name vc s =
     go_bind (ReadProp name vc s) (\<lambda>(s', r). Inr (s', case r of Inl _ \<Rightarrow> [] | Inr c \<Rightarrow> c))"

definition WriteProp ::
  "string \<Rightarrow> string \<Rightarrow> 'i V2RayContext \<Rightarrow> fs \<Rightarrow> (fs \<times> fs_error option) go" where
  "WriteProp name cont vc s =
     go_bind (GetDataDir (ctx_Status vc)) (\<lambda>dir.
       (let s' = fst (os_MkdirAll (dir @ ''config'') s)
        in Inr (ioutil_WriteFile (dir @ ''config/'' @ name) cont 384 s')))"

text \<open>The selection is read once and cached; an unreadable property is the empty selection.\<close>

definition GetConfigureFile ::
  "'i V2RayContext \<Rightarrow> fs \<Rightarrow> ('i V2RayContext \<times> fs \<times> string) go" where
  "GetConfigureFile vc s =
     (if configureFile vc = [] then
        go_bind (ReadProp configureFile_prop vc s) (\<lambda>(s', r).
          (let cf = (case r of Inl _ \<Rightarrow> [] | Inr c \<Rightarrow> c)
           in Inr (vc\<lparr>configureFile := cf\<rparr>, s', cf)))
      else Inr (vc, s, configureFile vc))"

text \<open>A selection that ends in two dots is a request to browse, not a file.\<close>

definition AssignConfigureFile ::
  "string \<Rightarrow> 'i V2RayContext \<Rightarrow> fs \<Rightarrow> ('i V2RayContext \<times> fs \<times> callback list) go" where
  "AssignConfigureFile cf vc s =
     (if strings_HasSuffix cf ''..'' then
        go_bind (invoke vc OnRefreshNeeded []) (\<lambda>tr.
        go_bind (invoke vc OnFileSelectTriggerd tr) (\<lambda>tr'. Inr (vc, s, tr')))
      else
        (let vc' = vc\<lparr>configureFile := cf\<rparr> in
         go_bind (WriteProp configureFile_prop cf vc' s) (\<lambda>(s', _).
         go_bind (invoke vc' OnRefreshNeeded []) (\<lambda>tr. Inr (vc', s', tr)))))"

text \<open>
  \<open>readdir dir\<close> is the answer of \<open>os.Open(dir)\<close> and \<open>Readdirnames(128)\<close>: an error, or between one
  and 128 names.
\<close>

definition ListConfigureFileDir ::
  "(fs \<Rightarrow> string \<Rightarrow> fs_error + string list) \<Rightarrow> 'i V2RayContext \<Rightarrow> fs \<Rightarrow>
     ('i V2RayContext \<times> fs \<times> StringArrayList) go" where
  "ListConfigureFileDir readdir vc s =
     go_bind (GetConfigureFile vc s) (\<lambda>(vc', s', cf).
       if cf = [] then Inr (vc', s', \<lparr>sal_list = [''..'']\<rparr>)
       else
         (case readdir s' (path_Dir (configureFile vc')) of
            Inl e \<Rightarrow> Inr (vc', s', \<lparr>sal_list = [''..'']\<rparr>)
          | Inr d \<Rightarrow>
              Inr (vc', s',
                \<lparr>sal_list = map (\<lambda>n. path_Dir (configureFile vc') @ ''/'' @ n) (d @ [''..''])\<rparr>)))"

section \<open>The property store as an interface\<close>

text \<open>
  A store of named values: what is read after a write, that reading disturbs nothing, and that
  writes under other names do not either, all under an invariant every operation keeps. Two
  different names stand for different values only when both are proper names.
\<close>

datatype store_op = TouchOp | WriteOp string string

locale prop_store =
  fixes read :: "string \<Rightarrow> 's \<Rightarrow> 'e + string"
    and touch :: "'s \<Rightarrow> 's"
    and store :: "string \<Rightarrow> string \<Rightarrow> 's \<Rightarrow> 's \<times> 'e option"
    and invar :: "'s \<Rightarrow> bool"
    and proper :: "string \<Rightarrow> bool"
  assumes invar_touch: "invar s \<Longrightarrow> invar (touch s)"
    and invar_write: "invar s \<Longrightarrow> invar (fst (store k v s))"
    and read_write: "store k v s = (s', None) \<Longrightarrow> read k s' = Inr v"
    and read_touch: "read k s = Inr v \<Longrightarrow> read k (touch s) = Inr v"
    and read_write_other: "invar s \<Longrightarrow> proper k \<Longrightarrow> proper k' \<Longrightarrow> k' \<noteq> k \<Longrightarrow> read k' s = Inr u \<Longrightarrow> read k' (fst (store k v s)) = Inr u"
begin

fun store_step :: "store_op \<Rightarrow> 's \<Rightarrow> 's" where
  "store_step TouchOp s = touch s"
| "store_step (WriteOp k v) s = fst (store k v s)"

lemma invar_steps: "invar s \<Longrightarrow> invar (fold store_step ops s)"
proof (induction ops arbitrary: s)
  case (Cons x xs)
  then show ?case by (cases x) (auto simp: invar_touch invar_write)
qed simp

lemma read_kept:
  "invar s \<Longrightarrow> proper k \<Longrightarrow> read k s = Inr v \<Longrightarrow> (\<And>k' u. WriteOp k' u \<in> set ops \<Longrightarrow> proper k' \<and> k' \<noteq> k) \<Longrightarrow>
     read k (fold store_step ops s) = Inr v"
proof (induction ops arbitrary: s)
  case (Cons x xs)
  have "read k (store_step x s) = Inr v \<and> invar (store_step x s)"
  proof (cases x)
    case TouchOp
    with Cons.prems show ?thesis by (simp add: read_touch invar_touch)
  next
    case (WriteOp k' u)
    with Cons.prems(4) have "k' \<noteq> k" "proper k'" by auto
    with WriteOp Cons.prems show ?thesis by (simp add: read_write_other invar_write)
  qed
  moreover have "proper k' \<and> k' \<noteq> k" if "WriteOp k' u \<in> set xs" for k' u
    using Cons.prems(4) [of k' u] that by simp
  ultimately have "read k (fold store_step xs (store_step x s)) = Inr v"
    using Cons.IH [of "store_step x s"] Cons.prems(2) by blast
  then show ?case by simp
qed simp

lemma persists:
  assumes "invar s" and "proper k" and "snd (store k v s) = None"
    and "\<And>k' u. WriteOp k' u \<in> set ops \<Longrightarrow> proper k' \<and> k' \<noteq> k"
  shows "read k (fold store_step ops (fst (store k v s))) = Inr v"
proof -
  have "read k (fst (store k v s)) = Inr v"
    using assms(3) read_write [of k v s] by (cases "store k v s") auto
  then show ?thesis using assms by (intro read_kept) (auto intro: invar_write)
qed

end

section \<open>The file system as a property store\<close>

text \<open>
  The file of a property. Its path is the name behind the directory, and paths are compared as
  byte strings (\<open>GoFS\<close>), which is what the kernel does when the name is one plain path element:
  \<open>./ConfigureFile\<close> would be another string for the same file. What is proved of several
  properties is therefore restricted to plain names.
\<close>

definition plain_elem :: "string \<Rightarrow> bool" where
  "plain_elem name \<longleftrightarrow> name \<noteq> [] \<and> name \<noteq> ''.'' \<and> name \<noteq> ''..'' \<and> CHR ''/'' \<notin> set name"

definition prop_path :: "string \<Rightarrow> string \<Rightarrow> string" where
  "prop_path pkg name = getDataDir pkg @ ''config/'' @ name"

definition prop_touch :: "string \<Rightarrow> fs \<Rightarrow> fs" where
  "prop_touch pkg s = fst (os_MkdirAll (getDataDir pkg @ ''config'') s)"

definition prop_read :: "string \<Rightarrow> string \<Rightarrow> fs \<Rightarrow> fs_error + string" where
  "prop_read pkg name s = ioutil_ReadFile (prop_touch pkg s) (prop_path pkg name)"

definition prop_write :: "string \<Rightarrow> string \<Rightarrow> string \<Rightarrow> fs \<Rightarrow> fs \<times> fs_error option" where
  "prop_write pkg name cont s = ioutil_WriteFile (prop_path pkg name) cont 384 (prop_touch pkg s)"

text \<open>The properties are files of their own, not links.\<close>

definition prop_invar :: "string \<Rightarrow> fs \<Rightarrow> bool" where
  "prop_invar pkg s \<longleftrightarrow> (\<forall>k t. nodes s (prop_path pkg k) \<noteq> Some (Symlink t))"

lemma ReadProp_store:
  "ctx_Status vc = Some st \<Longrightarrow>
     ReadProp k vc s = Inr (prop_touch (PackageName st) s, prop_read (PackageName st) k s)"
  by (simp add: ReadProp_def prop_read_def prop_touch_def prop_path_def ioutil_ReadFile_def Let_def)

lemma WriteProp_store:
  "ctx_Status vc = Some st \<Longrightarrow> WriteProp k c vc s = Inr (prop_write (PackageName st) k c s)"
  by (simp add: WriteProp_def prop_write_def prop_touch_def prop_path_def Let_def)

lemma prop_touch_adds: "only_adds_dirs s (prop_touch pkg s)"
  by (simp add: prop_touch_def MkdirAll_only_adds)

lemma prop_invar_touch: "prop_invar pkg s \<Longrightarrow> prop_invar pkg (prop_touch pkg s)"
  using prop_touch_adds [of s pkg]
  unfolding prop_invar_def only_adds_dirs_def by (metis node.distinct(3) option.inject)

text \<open>Making the directories a second time changes nothing that can be read.\<close>

lemma prop_read_direct:
  "ioutil_ReadFile s (prop_path pkg k) = Inr v \<Longrightarrow> prop_read pkg k s = Inr v"
  unfolding prop_read_def by (rule only_adds_dirs_read [OF prop_touch_adds])

lemma prop_read_touch: "prop_read pkg k s = Inr v \<Longrightarrow> prop_read pkg k (prop_touch pkg s) = Inr v"
  unfolding prop_read_def by (rule only_adds_dirs_read [OF prop_touch_adds])

lemma prop_write_shape:
  assumes "prop_invar pkg s"
  shows "fst (prop_write pkg k c s) = prop_touch pkg s \<or>
    (\<exists>m. fst (prop_write pkg k c s) = set_node (prop_path pkg k) (File c m) (prop_touch pkg s))"
proof (cases "prop_write pkg k c s")
  case (Pair s' e)
  show ?thesis
  proof (cases e)
    case None
    with Pair obtain q r m where w: "follow max_links (prop_touch pkg s) (prop_path pkg k) = Inr (q, r)"
      "s' = set_node q (File c m) (prop_touch pkg s)"
      by (auto simp: prop_write_def WriteFile_ok_iff)
    have direct: "nodes (prop_touch pkg s) (prop_path pkg k) \<noteq> Some (Symlink t)" for t
      using prop_invar_touch [OF assms] by (simp add: prop_invar_def)
    have "\<not> denied (prop_touch pkg s) (prop_path pkg k)"
      using w(1) by (cases "denied (prop_touch pkg s) (prop_path pkg k)")
        (simp_all add: max_links_def numeral_eq_Suc)
    with direct w(1) have "q = prop_path pkg k"
      by (simp add: follow_direct max_links_def)
    with w(2) Pair show ?thesis by auto
  next
    case (Some x)
    with Pair show ?thesis using WriteFile_error_frame by (force simp: prop_write_def)
  qed
qed

lemma prop_path_inject: "prop_path pkg k = prop_path pkg k' \<longleftrightarrow> k = k'"
  by (simp add: prop_path_def)

lemma prop_invar_write:
  assumes "prop_invar pkg s"
  shows "prop_invar pkg (fst (prop_write pkg k c s))"
  using prop_write_shape [OF assms, of k c] prop_invar_touch [OF assms]
  by (auto simp: prop_invar_def split: if_splits)

lemma follow_other:
  assumes "nodes s p = Some (File c m) \<or> nodes s p = None \<or> nodes s p = Some Dir" and "q \<noteq> p"
  shows "follow max_links (set_node q n s) p = follow max_links s p"
  using assms by (auto simp: max_links_def numeral_eq_Suc)

lemma prop_read_write_other:
  assumes "prop_invar pkg s" and "plain_elem k" and "plain_elem k'" and "k' \<noteq> k" and "prop_read pkg k' s = Inr u"
  shows "prop_read pkg k' (fst (prop_write pkg k c s)) = Inr u"
proof (rule prop_read_direct)
  let ?s = "prop_touch pkg s" and ?p = "prop_path pkg k'"
  have rd: "ioutil_ReadFile ?s ?p = Inr u" using assms(5) by (simp add: prop_read_def)
  have "\<forall>t. nodes ?s ?p \<noteq> Some (Symlink t)"
    using prop_invar_touch [OF assms(1)] by (simp add: prop_invar_def)
  then have "nodes ?s ?p = None \<or> nodes ?s ?p = Some Dir \<or> (\<exists>c m. nodes ?s ?p = Some (File c m))"
    by (metis node.exhaust option.exhaust)
  then have "follow max_links (set_node (prop_path pkg k) n ?s) ?p = follow max_links ?s ?p" for n
    using assms(4) by (auto simp: prop_path_inject follow_other)
  with rd prop_write_shape [OF assms(1), of k c]
  show "ioutil_ReadFile (fst (prop_write pkg k c s)) ?p = Inr u"
    by (auto simp: ioutil_ReadFile_def os_Open_def os_Stat_def)
qed

lemma prop_read_write: "prop_write pkg k v s = (s', None) \<Longrightarrow> prop_read pkg k s' = Inr v"
  unfolding prop_write_def by (intro prop_read_direct read_after_write)

interpretation props: prop_store "prop_read pkg" "prop_touch pkg" "prop_write pkg" "prop_invar pkg"
    plain_elem
  for pkg
  by unfold_locales
    (auto simp: prop_invar_touch prop_invar_write prop_read_touch prop_read_write_other
      intro: prop_read_write)

text \<open>Other calls on the store, from the same process or a later one: reads and writes by name.\<close>

fun prop_call :: "string \<Rightarrow> store_op \<Rightarrow> fs \<Rightarrow> fs" where
  "prop_call pkg TouchOp s = prop_touch pkg s"
| "prop_call pkg (WriteOp k v) s = fst (prop_write pkg k v s)"

lemma prop_call_step: "prop_call pkg = props.store_step pkg"
  by (intro ext) (metis prop_call.simps props.store_step.simps store_op.exhaust)

section \<open>The selected file\<close>

lemma AssignConfigureFile_file:
  assumes "\<not> suffix ''..'' cf" and "ctx_Status vc = Some st"
  shows "AssignConfigureFile cf vc s =
     (if Callbacks vc
      then Inr (vc\<lparr>configureFile := cf\<rparr>,
                fst (prop_write (PackageName st) configureFile_prop cf s), [OnRefreshNeeded])
      else Inl NilDeref)"
  using assms
  by (auto simp: AssignConfigureFile_def strings_HasSuffix_def WriteProp_store invoke_def
      split: prod.split)

text \<open>
  C8. Persistence of the selection: after the user selects a file and the property is written,
  a new context of the same package (a restart of the application) reads the same selection back,
  whatever other properties were read or written in between, as long as each has a plain name (one
  path element) different from the selection's.
\<close>

theorem selection_persists:
  assumes "ctx_Status vc = Some st" and "Callbacks vc" and "prop_invar (PackageName st) s"
    and "\<not> suffix ''..'' cf"
    and "snd (prop_write (PackageName st) configureFile_prop cf s) = None"
    and "\<forall>k u. WriteOp k u \<in> set ops \<longrightarrow> plain_elem k \<and> k \<noteq> configureFile_prop"
    and "ctx_Status fresh = Some st'" and "PackageName st' = PackageName st"
    and "configureFile fresh = []"
  shows "\<exists>vc' s' fresh' s''. AssignConfigureFile cf vc s = Inr (vc', s', [OnRefreshNeeded]) \<and>
     configureFile vc' = cf \<and>
     GetConfigureFile fresh (fold (prop_call (PackageName st)) ops s') = Inr (fresh', s'', cf)"
proof -
  let ?s = "fst (prop_write (PackageName st) configureFile_prop cf s)"
  have "prop_read (PackageName st) configureFile_prop (fold (prop_call (PackageName st)) ops ?s) = Inr cf"
    unfolding prop_call_step using assms(3,5,6)
    by (intro props.persists) (auto simp: configureFile_prop_def plain_elem_def)
  then have "GetConfigureFile fresh (fold (prop_call (PackageName st)) ops ?s) =
      Inr (fresh\<lparr>configureFile := cf\<rparr>,
           prop_touch (PackageName st) (fold (prop_call (PackageName st)) ops ?s), cf)"
    using assms(7-9) by (simp add: GetConfigureFile_def ReadProp_store)
  then show ?thesis
    using assms(1,2,4) by (simp add: AssignConfigureFile_file)
qed

definition config_fs :: fs where
  "config_fs = \<lparr>nodes = [''/data'' \<mapsto> Dir, ''/data/data'' \<mapsto> Dir, ''/data/data/a'' \<mapsto> Dir],
     denied = (\<lambda>_. False)\<rparr>"

theorem selection_persists_witness:
  "\<exists>vc' s' fresh' s''. AssignConfigureFile ''/sd/v.json''
        ((NewLib2rayContext :: unit V2RayContext)\<lparr>Callbacks := True,
           ctx_Status := Some (new_Status\<lparr>PackageName := ''a''\<rparr>)\<rparr>) config_fs =
      Inr (vc', s', [OnRefreshNeeded]) \<and> configureFile vc' = ''/sd/v.json'' \<and>
     GetConfigureFile (NewLib2rayContext\<lparr>ctx_Status := Some (new_Status\<lparr>PackageName := ''a''\<rparr>)\<rparr> :: unit V2RayContext)
        (fold (prop_call ''a'') [TouchOp, WriteOp ''Other'' ''x''] s') = Inr (fresh', s'', ''/sd/v.json'')"
proof -
  let ?st = "new_Status\<lparr>PackageName := ''a''\<rparr> :: unit Status"
  have "snd (prop_write ''a'' configureFile_prop ''/sd/v.json'' config_fs) = None" by code_simp
  moreover have "prop_invar ''a'' config_fs" by (simp add: prop_invar_def config_fs_def)
  ultimately show ?thesis
    using selection_persists [where st = ?st and st' = ?st and cf = "''/sd/v.json''" and s = config_fs
        and vc = "NewLib2rayContext\<lparr>Callbacks := True, ctx_Status := Some ?st\<rparr>"
        and fresh = "NewLib2rayContext\<lparr>ctx_Status := Some ?st\<rparr>"
        and ops = "[TouchOp, WriteOp ''Other'' ''x'']"]
    by (simp add: NewLib2rayContext_def configureFile_prop_def suffix_def plain_elem_def)
qed

lemma AssignConfigureFile_browse:
  "Callbacks vc \<Longrightarrow> suffix ''..'' cf \<Longrightarrow>
     AssignConfigureFile cf vc s = Inr (vc, s, [OnRefreshNeeded, OnFileSelectTriggerd])"
  by (simp add: AssignConfigureFile_def strings_HasSuffix_def invoke_def)

lemma ListConfigureFileDir_shape:
  "ListConfigureFileDir readdir vc s = Inr (vc', s', al) \<Longrightarrow>
     \<exists>p xs. sal_list al = xs @ [p @ ''..''] \<and> (p = [] \<or> p = path_Dir (configureFile vc') @ ''/'')"
  by (auto simp: ListConfigureFileDir_def go_bind_Inr_iff split: if_splits sum.splits)

text \<open>
  Browsing: the directory listing is never empty, and its last entry is always one that,
  chosen as a configuration file, changes neither the selection nor the stored property and asks
  the application to refresh and to open the file browser.
\<close>

theorem last_entry_browses:
  assumes "ListConfigureFileDir readdir vc s = Inr (vc', s', al)" and "Callbacks vc'"
  shows "\<exists>cf. GetElementById al (GetLen al - 1) = Inr cf \<and>
     AssignConfigureFile cf vc' s' = Inr (vc', s', [OnRefreshNeeded, OnFileSelectTriggerd])"
proof -
  obtain p xs where "sal_list al = xs @ [p @ ''..'']"
    using ListConfigureFileDir_shape [OF assms(1)] by blast
  then have "GetElementById al (GetLen al - 1) = Inr (p @ ''..'')"
    by (simp add: GetElementById_def GetLen_def go_index_def nth_append)
  moreover have "suffix ''..'' (p @ ''..'')" by (simp add: suffix_def)
  ultimately show ?thesis using AssignConfigureFile_browse [OF assms(2)] by blast
qed

theorem last_entry_browses_witness:
  "\<exists>vc' s' al cf. ListConfigureFileDir (\<lambda>s d. Inr [''b.json''])
        (NewLib2rayContext\<lparr>Callbacks := True, configureFile := ''/sd/v.json''\<rparr> :: unit V2RayContext)
        config_fs = Inr (vc', s', al) \<and>
     sal_list al = [''/sd/b.json'', ''/sd/..''] \<and> GetElementById al (GetLen al - 1) = Inr cf \<and>
     AssignConfigureFile cf vc' s' = Inr (vc', s', [OnRefreshNeeded, OnFileSelectTriggerd])"
proof -
  let ?vc = "NewLib2rayContext\<lparr>Callbacks := True, configureFile := ''/sd/v.json''\<rparr> :: unit V2RayContext"
  have "path_Dir ''/sd/v.json'' = ''/sd''" by code_simp
  then have l: "ListConfigureFileDir (\<lambda>s d. Inr [''b.json'']) ?vc config_fs =
      Inr (?vc, config_fs, \<lparr>sal_list = [''/sd/b.json'', ''/sd/..'']\<rparr>)"
    by (simp add: ListConfigureFileDir_def GetConfigureFile_def)
  then show ?thesis using last_entry_browses [OF l] by simp
qed

end
