(* ===== verification/QRScan.thy ===== *)
theory QRScan
  imports ConfContext Words
begin

text \<open>
  Importing a configuration from a series of QR codes: the scan context of \<open>qrscan.go\<close> and the
  decoder it drives (\<open>QRDecoding.go\<close>, \<open>libv2rayURL.go\<close> and \<open>PackedConfigure.go\<close> of
  V2RayConfigureFileUtil). The legacy scheme, base91, protocol buffers, SHA-3, gzip and the
  Reed-Solomon code are one record of functions, a parameter.
\<close>

section \<open>Messages and the codec\<close>

record QRCode =
  MsgChecksum :: string
  MessageSegType :: int
  GroupCount :: "32 word"
  MessgaeNumber :: "32 word"
  qr_Payload :: "string option"
  PayloadChecksum :: string
  OriginalSegmentNum :: "32 word"
  PayloadTotalSize :: "32 word"

datatype config_type = Invaild | FullJsonFile | FullProto | SimpleProtoV1 | UnknownType int

record PackedConfig =
  ConfigType :: config_type
  pk_CheckSum :: string
  pk_Payload :: string
  GzipCompressed :: bool

text \<open>
  \<open>rs_Reconstruct\<close> stands for \<open>reedsolomon.New\<close> and \<open>Reconstruct\<close>, \<open>rs_Join\<close> for what \<open>Join\<close> writes
  (its error is ignored by the caller). A nil byte slice is \<open>None\<close>.
\<close>

record 'e codec =
  TryRender :: "string \<Rightarrow> bool \<times> string \<times> string option"
  base91_Decode :: "string \<Rightarrow> string option"
  unmarshal_QR :: "string \<Rightarrow> 'e + QRCode"
  sha3_Sum256 :: "string \<Rightarrow> string"
  rs_Reconstruct :: "int \<Rightarrow> int \<Rightarrow> string option list \<Rightarrow> 'e + string option list"
  rs_Join :: "int \<Rightarrow> string option list \<Rightarrow> int \<Rightarrow> string"
  unmarshal_Packed :: "string \<Rightarrow> 'e + PackedConfig"
  gunzip :: "string \<Rightarrow> 'e + string"

datatype 'e qr_error = CodecError 'e | Inconsistent | BadChecksum | NotReady | ChecksumMismatch | CannotGuess | RSFailed

definition slice_bytes :: "string option \<Rightarrow> string" where
  "slice_bytes p = (case p of None \<Rightarrow> [] | Some b \<Rightarrow> b)"

definition LibV2RayURLSignature :: string where
  "LibV2RayURLSignature = ''libv2ray:?''"

definition V2RayURLToByte :: "'e codec \<Rightarrow> string \<Rightarrow> string option" where
  "V2RayURLToByte c url =
     (if \<not> strings_HasPrefix url LibV2RayURLSignature then None
      else base91_Decode c (drop (length LibV2RayURLSignature) url))"

section \<open>The decoder\<close>

record QRDecoder =
  notfirstQR :: bool
  firstMessage :: "QRCode option"
  payload :: "string option list"
  PieceNeeded :: int
  PieceReceived :: int

definition StartQRDecode :: QRDecoder where
  "StartQRDecode = \<lparr>notfirstQR = False, firstMessage = None, payload = [], PieceNeeded = 0, PieceReceived = 0\<rparr>"

text \<open>\<open>make\<close> with a negative length panics.\<close>

definition memalloc :: "QRCode \<Rightarrow> string option list go" where
  "memalloc m =
     (if MessageSegType m = 0 then Inr [None]
      else if sint (GroupCount m) < 0 then Inl SliceBounds
      else Inr (replicate (nat (sint (GroupCount m))) None))"

definition assign_payload ::
  "'e codec \<Rightarrow> QRCode \<Rightarrow> QRDecoder \<Rightarrow> (QRDecoder \<times> 'e qr_error option) go" where
  "assign_payload c m qd =
     (if sha3_Sum256 c (slice_bytes (qr_Payload m)) \<noteq> PayloadChecksum m then Inr (qd, Some BadChecksum)
      else
        go_bind (go_index (payload qd) (sint (MessgaeNumber m))) (\<lambda>slot.
          if slot = None then
            Inr (qd\<lparr>payload := (payload qd)[nat (sint (MessgaeNumber m)) := qr_Payload m],
                    PieceReceived := PieceReceived qd + 1\<rparr>, None)
          else Inr (qd, None)))"

definition OnNewDataScanned ::
  "'e codec \<Rightarrow> string \<Rightarrow> QRDecoder \<Rightarrow> (QRDecoder \<times> 'e qr_error option) go" where
  "OnNewDataScanned c data qd =
     (case unmarshal_QR c data of
        Inl e \<Rightarrow> Inr (qd, Some (CodecError e))
      | Inr m \<Rightarrow>
          if \<not> notfirstQR qd then
            go_bind (memalloc m) (\<lambda>ps.
              assign_payload c m (qd\<lparr>payload := ps, notfirstQR := True, firstMessage := Some m,
                PieceNeeded := sint (OriginalSegmentNum m)\<rparr>))
          else
            go_bind (deref (firstMessage qd)) (\<lambda>f.
              if MsgChecksum m \<noteq> MsgChecksum f then Inr (qd, Some Inconsistent)
              else assign_payload c m qd))"

definition IsDecodeReady :: "QRDecoder \<Rightarrow> bool" where
  "IsDecodeReady qd \<longleftrightarrow> PieceNeeded qd \<le> PieceReceived qd"

definition qd_Finish :: "'e codec \<Rightarrow> QRDecoder \<Rightarrow> ('e qr_error + string) go" where
  "qd_Finish c qd =
     (if \<not> IsDecodeReady qd then Inr (Inl NotReady)
      else
        go_bind (deref (firstMessage qd)) (\<lambda>f.
          if MessageSegType f = 0 then
            go_bind (go_index (payload qd) 0) (\<lambda>p. Inr (Inr (slice_bytes p)))
          else
            (case rs_Reconstruct c (sint (OriginalSegmentNum f))
                    (sint (GroupCount f - OriginalSegmentNum f)) (payload qd) of
               Inl e \<Rightarrow> Inr (Inl (CodecError e))
             | Inr shards \<Rightarrow>
                 Inr (Inr (rs_Join c (sint (OriginalSegmentNum f)) shards (sint (PayloadTotalSize f)))))))"

text \<open>The type of a configuration file by its name, and the extension of a type.\<close>

definition GuessConfigType :: "string \<Rightarrow> config_type option" where
  "GuessConfigType name =
     (if strings_HasSuffix name ''.LibV2RaySimpleProtoV1.pb'' then Some SimpleProtoV1
      else if strings_HasSuffix name ''.pb'' then Some FullProto
      else if strings_HasSuffix name ''.json'' then Some FullJsonFile
      else None)"

definition config_extension :: "config_type \<Rightarrow> string" where
  "config_extension t =
     (case t of
        SimpleProtoV1 \<Rightarrow> ''.LibV2RaySimpleProtoV1.pb''
      | FullProto \<Rightarrow> ''.pb''
      | FullJsonFile \<Rightarrow> ''.json''
      | _ \<Rightarrow> [])"

definition UnpackV2RayConfB :: "'e codec \<Rightarrow> string \<Rightarrow> 'e qr_error + string \<times> string" where
  "UnpackV2RayConfB c data =
     (case unmarshal_Packed c data of
        Inl e \<Rightarrow> Inl (CodecError e)
      | Inr p \<Rightarrow>
          (case (if GzipCompressed p then gunzip c (pk_Payload p) else Inr (pk_Payload p)) of
             Inl e \<Rightarrow> Inl (CodecError e)
           | Inr plctx \<Rightarrow>
               if pk_CheckSum p \<noteq> sha3_Sum256 c plctx then Inl ChecksumMismatch
               else Inr (config_extension (ConfigType p), plctx)))"

section \<open>The scan context\<close>

datatype qr_event = ReadyToFinish | StatUpdate int int

record 'i QRScanContext =
  qd :: "QRDecoder option"
  ScanReporter :: bool
  vctx :: "'i V2RayContext option"
  surpressFinish :: bool
  legencyScanned :: bool
  legencyScannedExt :: string
  legencyScannedCtx :: string

type_synonym 'i scan_state = "'i QRScanContext \<times> qr_event list"

definition reports :: "qr_event \<Rightarrow> 'i scan_state \<Rightarrow> 'i scan_state go" where
  "reports e q = (if ScanReporter (fst q) then Inr (fst q, snd q @ [e]) else Inl NilDeref)"

datatype 'i scan_outcome = Reply "'i scan_state" string | Accepted "'i scan_state" | Retry "'i scan_state"

text \<open>\<open>OnNewScanResult\<close> up to the point where it calls itself or reports its progress.\<close>

definition scan_begin :: "'e codec \<Rightarrow> string \<Rightarrow> 'i scan_state \<Rightarrow> 'i scan_outcome go" where
  "scan_begin c data = (\<lambda>(qs, evs).
     (let qs = (if qd qs = None then qs\<lparr>qd := Some StartQRDecode, surpressFinish := False\<rparr> else qs);
          (ok, ext, fb) = TryRender c data in
        if ok \<and> fb \<noteq> None then
          (let qs = qs\<lparr>legencyScanned := True, legencyScannedExt := ext, legencyScannedCtx := the fb\<rparr> in
             if \<not> surpressFinish qs then
               go_bind (reports ReadyToFinish (qs\<lparr>surpressFinish := True\<rparr>, evs)) (\<lambda>q.
                 Inr (Reply q ''Legacy Scanned''))
             else Inr (Reply (qs, evs) ''Legacy Scanned''))
        else
          (case V2RayURLToByte c data of
             None \<Rightarrow> Inr (Reply (qs, evs) ''Unknown schema'')
           | Some res \<Rightarrow>
               go_bind (deref (qd qs)) (\<lambda>d.
               go_bind (OnNewDataScanned c res d) (\<lambda>(d', e).
                 (case e of
                    None \<Rightarrow> Inr (Accepted (qs\<lparr>qd := Some d'\<rparr>, evs))
                  | Some _ \<Rightarrow> Inr (Retry (qs\<lparr>qd := None\<rparr>, evs))))))))"

definition scan_report :: "'i scan_state \<Rightarrow> ('i scan_state \<times> string) go" where
  "scan_report q =
     go_bind (deref (qd (fst q))) (\<lambda>d.
       if IsDecodeReady d \<and> \<not> surpressFinish (fst q) then
         go_bind (reports ReadyToFinish ((fst q)\<lparr>surpressFinish := True\<rparr>, snd q)) (\<lambda>q'. Inr (q', ''Scanned''))
       else
         go_bind (reports (StatUpdate (PieceNeeded d) (PieceReceived d)) q) (\<lambda>q'. Inr (q', ''Scanned'')))"

text \<open>
  The method calls itself after any error of the decoder (its condition ends in \<open>|| true\<close>), so it
  need not return: \<open>None\<close> is a call that never does. \<open>allowdiscard\<close> has no effect.
\<close>

partial_function (option) OnNewScanResult ::
  "'e codec \<Rightarrow> string \<Rightarrow> bool \<Rightarrow> 'i scan_state \<Rightarrow> ('i scan_state \<times> string) go option" where
  "OnNewScanResult c data allowdiscard q =
     (case scan_begin c data q of
        Inl p \<Rightarrow> Some (Inl p)
      | Inr out \<Rightarrow>
          (case out of
             Reply q' s \<Rightarrow> Some (Inr (q', s))
           | Accepted q' \<Rightarrow> Some (scan_report q')
           | Retry q' \<Rightarrow>
               Option.bind (OnNewScanResult c data allowdiscard q') (\<lambda>r.
                 (case r of Inl p \<Rightarrow> Some (Inl p) | Inr (q'', s) \<Rightarrow> Some (scan_report q'')))))"

definition Discard :: "'i QRScanContext \<Rightarrow> 'i QRScanContext" where
  "Discard qs = qs\<lparr>qd := None\<rparr>"

definition qr_Init :: "'i QRScanContext \<Rightarrow> 'i QRScanContext \<times> 'i QRScanContext option" where
  "qr_Init qs = (qs, Some qs)"

text \<open>The package variable \<open>CurrentScan\<close> is an argument and a result.\<close>

definition ScanQR :: "'i V2RayContext \<Rightarrow> 'i QRScanContext option \<Rightarrow> 'i QRScanContext \<times> 'i QRScanContext option" where
  "ScanQR vc current =
     (case current of
        Some cur \<Rightarrow> (cur, current)
      | None \<Rightarrow> qr_Init \<lparr>qd = None, ScanReporter = False, vctx = Some vc, surpressFinish = False,
                  legencyScanned = False, legencyScannedExt = [], legencyScannedCtx = []\<rparr>)"

section \<open>Finish\<close>

text \<open>
  The file is written beside the selected configuration file. A panic loses the result but not
  what has been written before it.
\<close>

definition write_beside ::
  "string \<Rightarrow> string \<Rightarrow> 'i QRScanContext \<Rightarrow> fs \<Rightarrow> ('i QRScanContext \<times> fs \<times> fs_error option) go" where
  "write_beside file cont qs s =
     go_bind (deref (vctx qs)) (\<lambda>vc.
     go_bind (GetConfigureFile vc s) (\<lambda>(vc', s', cf).
       (let (s'', e) = ioutil_WriteFile (path_Dir cf @ ''/'' @ file) cont 384 s'
        in Inr (qs\<lparr>vctx := Some vc'\<rparr>, s'', e))))"

definition finish_packed ::
  "'e codec \<Rightarrow> string \<Rightarrow> 'i QRScanContext \<Rightarrow> fs \<Rightarrow> 'i QRScanContext \<times> fs \<times> bool go" where
  "finish_packed c name qs s =
     (case qd qs of
        None \<Rightarrow> (qs, s, Inl NilDeref)
      | Some d \<Rightarrow>
          if \<not> IsDecodeReady d then (qs, s, Inr False)
          else
            (case qd_Finish c d of
               Inl p \<Rightarrow> (qs, s, Inl p)
             | Inr (Inl e) \<Rightarrow> (qs, s, Inr False)
             | Inr (Inr dec) \<Rightarrow>
                 (let qs' = qs\<lparr>qd := None\<rparr> in
                    case UnpackV2RayConfB c dec of
                      Inl e \<Rightarrow> (qs', s, Inr False)
                    | Inr (suf, towrite) \<Rightarrow>
                        (case write_beside (name @ suf) towrite qs' s of
                           Inl p \<Rightarrow> (qs', s, Inl p)
                         | Inr (qs'', s', None) \<Rightarrow> (qs'', s', Inr True)
                         | Inr (qs'', s', Some e) \<Rightarrow> (qs'', s', Inr False)))))"

definition Finish ::
  "'e codec \<Rightarrow> string \<Rightarrow> 'i QRScanContext \<Rightarrow> fs \<Rightarrow> 'i QRScanContext \<times> fs \<times> bool go" where
  "Finish c name qs s =
     (if legencyScanned qs then
        (case write_beside (name @ legencyScannedExt qs) (legencyScannedCtx qs) qs s of
           Inl p \<Rightarrow> (qs, s, Inl p)
         | Inr (qs', s', Some e) \<Rightarrow> (qs', s', Inr False)
         | Inr (qs', s', None) \<Rightarrow> finish_packed c name (Discard (qs'\<lparr>legencyScanned := False\<rparr>)) s')
      else finish_packed c name qs s)"

section \<open>Codes that are never accepted\<close>

text \<open>A code is damaged when its message does not parse or its own checksum does not match.\<close>

definition damaged :: "'e codec \<Rightarrow> string \<Rightarrow> bool" where
  "damaged c data \<longleftrightarrow>
     \<not> fst (TryRender c data) \<and>
     (\<exists>res. V2RayURLToByte c data = Some res \<and>
        (case unmarshal_QR c res of
           Inl e \<Rightarrow> True
         | Inr m \<Rightarrow> (MessageSegType m = 0 \<or> 0 \<le> sint (GroupCount m)) \<and>
             sha3_Sum256 c (slice_bytes (qr_Payload m)) \<noteq> PayloadChecksum m))"

lemma scan_begin_code:
  assumes "\<not> fst (TryRender c data)" and "V2RayURLToByte c data = Some res"
  shows "scan_begin c data (qs, evs) =
    (let qs' = (if qd qs = None then qs\<lparr>qd := Some StartQRDecode, surpressFinish := False\<rparr> else qs) in
       go_bind (OnNewDataScanned c res (the (qd qs'))) (\<lambda>(d', e).
         Inr (case e of None \<Rightarrow> Accepted (qs'\<lparr>qd := Some d'\<rparr>, evs) | Some _ \<Rightarrow> Retry (qs'\<lparr>qd := None\<rparr>, evs))))"
proof -
  obtain ok ext fb where t: "TryRender c data = (ok, ext, fb)" by (cases "TryRender c data")
  with assms(1) have "\<not> ok" by simp
  with t assms(2) show ?thesis
    by (cases "qd qs") (auto simp: scan_begin_def Let_def split: option.split intro!: arg_cong [where f = "go_bind _"])
qed

lemma damaged_retry:
  assumes "damaged c data" and "qd qs = None \<or> (\<exists>d. qd qs = Some d \<and> (notfirstQR d \<longrightarrow> firstMessage d \<noteq> None))"
  shows "\<exists>qs'. scan_begin c data (qs, evs) = Inr (Retry (qs', evs)) \<and> qd qs' = None"
proof -
  from assms(1) obtain res where "\<not> fst (TryRender c data)" "V2RayURLToByte c data = Some res"
    "case unmarshal_QR c res of Inl e \<Rightarrow> True
     | Inr m \<Rightarrow> (MessageSegType m = 0 \<or> 0 \<le> sint (GroupCount m)) \<and>
         sha3_Sum256 c (slice_bytes (qr_Payload m)) \<noteq> PayloadChecksum m"
    by (auto simp: damaged_def)
  then show ?thesis
    using assms(2)
    by (cases "unmarshal_QR c res")
      (auto simp: scan_begin_code Let_def OnNewDataScanned_def assign_payload_def memalloc_def StartQRDecode_def)
qed

lemma scan_damaged_no_result:
  "OnNewScanResult c data ad q = Some r \<Longrightarrow> damaged c data \<Longrightarrow>
     qd (fst q) = None \<or> (\<exists>d. qd (fst q) = Some d \<and> (notfirstQR d \<longrightarrow> firstMessage d \<noteq> None)) \<Longrightarrow> False"
proof (induction arbitrary: r rule: OnNewScanResult.raw_induct [rotated, consumes 1, case_names step])
  case (step f c data ad q r)
  obtain qs evs where q: "q = (qs, evs)" by force
  with step.prems damaged_retry [of c data qs evs] obtain qs' where
    "scan_begin c data q = Inr (Retry (qs', evs))" "qd qs' = None" by auto
  note r = this
  with step(2) obtain x where x: "f c data ad (qs', evs) = Some x" by (auto split: bind_splits)
  from step(1) [OF x step.prems(1)] r(2) show False by simp
qed

text \<open>
  C32. A damaged code is never reported: scanning it, with or without codes scanned before, makes the
  method call itself for ever instead of returning the error text it has for that case.
\<close>

theorem damaged_code_never_returns:
  assumes "damaged c data" and "qd qs = None \<or> (\<exists>d f. qd qs = Some d \<and> firstMessage d = Some f)"
  shows "OnNewScanResult c data allowdiscard (qs, evs) = None"
  using scan_damaged_no_result [of c data allowdiscard "(qs, evs)"] assms
  by (cases "OnNewScanResult c data allowdiscard (qs, evs)") auto

section \<open>Finishing a legacy scan\<close>

text \<open>
  C33. Finishing after a legacy code: the file is written, the decoder is dropped, and then the
  method asks the dropped decoder whether it is ready, which panics.
\<close>

theorem legacy_finish_panics:
  assumes "legencyScanned qs"
    and "write_beside (name @ legencyScannedExt qs) (legencyScannedCtx qs) qs s = Inr (qs', s', None)"
  shows "Finish c name qs s = (qs'\<lparr>legencyScanned := False, qd := None\<rparr>, s', Inl NilDeref)"
  using assms by (simp add: Finish_def finish_packed_def Discard_def)

section \<open>Collecting a message\<close>

text \<open>
  A group of codes as the encoder makes them: \<open>g\<close> segments of which any \<open>n\<close> suffice, each with its
  own number and checksum and with the checksum of the message; a single segment is marked as such.
\<close>

definition segment :: "'e codec \<Rightarrow> string \<Rightarrow> nat \<Rightarrow> nat \<Rightarrow> nat \<Rightarrow> (nat \<Rightarrow> string) \<Rightarrow> nat \<Rightarrow> QRCode" where
  "segment c msum g n msize shard i =
     \<lparr>MsgChecksum = msum, MessageSegType = (if g = 1 then 0 else 1), GroupCount = of_nat g, MessgaeNumber = of_nat i,
      qr_Payload = Some (shard i), PayloadChecksum = sha3_Sum256 c (shard i),
      OriginalSegmentNum = of_nat n, PayloadTotalSize = of_nat msize\<rparr>"

definition qr_group ::
  "'e codec \<Rightarrow> (nat \<Rightarrow> string) \<Rightarrow> string \<Rightarrow> nat \<Rightarrow> nat \<Rightarrow> nat \<Rightarrow> (nat \<Rightarrow> string) \<Rightarrow> bool" where
  "qr_group c codes msum g n msize shard \<longleftrightarrow>
     0 < n \<and> n \<le> g \<and> g < 2 ^ 31 \<and> msize < 2 ^ 31 \<and>
     (\<forall>i < g. \<not> fst (TryRender c (codes i)) \<and>
        (\<exists>res. V2RayURLToByte c (codes i) = Some res \<and> unmarshal_QR c res = Inr (segment c msum g n msize shard i)))"

definition pieces :: "nat \<Rightarrow> (nat \<Rightarrow> string) \<Rightarrow> nat set \<Rightarrow> string option list" where
  "pieces g shard S = map (\<lambda>i. if i \<in> S then Some (shard i) else None) [0..<g]"

definition holds_pieces ::
  "'e codec \<Rightarrow> string \<Rightarrow> nat \<Rightarrow> nat \<Rightarrow> nat \<Rightarrow> (nat \<Rightarrow> string) \<Rightarrow> nat set \<Rightarrow> QRDecoder \<Rightarrow> bool" where
  "holds_pieces c msum g n msize shard S d \<longleftrightarrow>
     notfirstQR d \<and> (\<exists>j. firstMessage d = Some (segment c msum g n msize shard j)) \<and>
     payload d = pieces g shard S \<and> PieceNeeded d = int n \<and> PieceReceived d = int (card S)"

lemma pieces_update: "i < g \<Longrightarrow> (pieces g shard S)[i := Some (shard i)] = pieces g shard (insert i S)"
  by (rule nth_equalityI) (auto simp: pieces_def nth_list_update)

lemma pieces_empty: "replicate g None = pieces g shard {}"
  by (simp add: pieces_def map_replicate_const)

lemma assign_piece:
  assumes "payload d = pieces g shard S" and "PieceReceived d = int (card S)" and "finite S"
    and "i < g" and "g < 2 ^ 31"
  shows "\<exists>d'. assign_payload c (segment c msum g n msize shard i) d = Inr (d', None) \<and>
    payload d' = pieces g shard (insert i S) \<and> PieceReceived d' = int (card (insert i S)) \<and>
    notfirstQR d' = notfirstQR d \<and> firstMessage d' = firstMessage d \<and> PieceNeeded d' = PieceNeeded d"
proof -
  have len: "length (pieces g shard S) = g" by (simp add: pieces_def)
  have slot: "pieces g shard S ! i = (if i \<in> S then Some (shard i) else None)"
    using assms(4) by (simp add: pieces_def)
  have "sint (of_nat i :: 32 word) = int i" using assms(4,5) by simp
  then show ?thesis
    using assms len slot pieces_update [OF assms(4), of shard S]
    by (cases "i \<in> S") (auto simp: assign_payload_def segment_def slice_bytes_def go_index_in insert_absorb)
qed

lemma scan_first_piece:
  assumes "qr_group c codes msum g n msize shard" and "i < g" and "unmarshal_QR c res = Inr (segment c msum g n msize shard i)"
  shows "\<exists>d'. OnNewDataScanned c res StartQRDecode = Inr (d', None) \<and> holds_pieces c msum g n msize shard {i} d'"
proof -
  let ?m = "segment c msum g n msize shard i"
  let ?d = "StartQRDecode\<lparr>payload := pieces g shard {}, notfirstQR := True, firstMessage := Some ?m, PieceNeeded := int n\<rparr>"
  have g: "g < 2 ^ 31" "n < 2 ^ 31" using assms(1) by (auto simp: qr_group_def)
  then have "sint (of_nat g :: 32 word) = int g" "sint (of_nat n :: 32 word) = int n" by simp_all
  then have m: "memalloc ?m = Inr (pieces g shard {})" "sint (OriginalSegmentNum ?m) = int n"
    by (simp_all add: memalloc_def segment_def pieces_empty) (simp add: pieces_def)
  obtain d' where "assign_payload c ?m ?d = Inr (d', None)" "holds_pieces c msum g n msize shard {i} d'"
    using assign_piece [of ?d g shard "{}" i c msum n msize] assms(2) g
    by (auto simp: holds_pieces_def StartQRDecode_def)
  with assms(3) m show ?thesis by (simp add: OnNewDataScanned_def StartQRDecode_def)
qed

lemma scan_next_piece:
  assumes "qr_group c codes msum g n msize shard" and "i < g" and "finite S"
    and "unmarshal_QR c res = Inr (segment c msum g n msize shard i)" and "holds_pieces c msum g n msize shard S d"
  shows "\<exists>d'. OnNewDataScanned c res d = Inr (d', None) \<and> holds_pieces c msum g n msize shard (insert i S) d'"
proof -
  have g: "g < 2 ^ 31" using assms(1) by (simp add: qr_group_def)
  obtain j where f: "notfirstQR d" "firstMessage d = Some (segment c msum g n msize shard j)"
    using assms(5) by (auto simp: holds_pieces_def)
  have "MsgChecksum (segment c msum g n msize shard i) = MsgChecksum (segment c msum g n msize shard j)"
    by (simp add: segment_def)
  with f assign_piece [of d g shard S i c msum n msize] assms g show ?thesis
    by (auto simp: OnNewDataScanned_def holds_pieces_def)
qed

text \<open>The context after the codes \<open>S\<close> of a group, and its reports.\<close>

definition scanned ::
  "'e codec \<Rightarrow> string \<Rightarrow> nat \<Rightarrow> nat \<Rightarrow> nat \<Rightarrow> (nat \<Rightarrow> string) \<Rightarrow> nat set \<Rightarrow> 'i QRScanContext \<Rightarrow>
     'i scan_state \<Rightarrow> bool" where
  "scanned c msum g n msize shard S qs0 q \<longleftrightarrow>
     (\<exists>d. qd (fst q) = Some d \<and> holds_pieces c msum g n msize shard S d) \<and>
     surpressFinish (fst q) = (n \<le> card S) \<and>
     count_list (snd q) ReadyToFinish = (if n \<le> card S then 1 else 0) \<and>
     ScanReporter (fst q) \<and> vctx (fst q) = vctx qs0 \<and> legencyScanned (fst q) = legencyScanned qs0"

lemma scan_accepted:
  assumes "scan_begin c data q = Inr (Accepted q')"
  shows "OnNewScanResult c data ad q = Some (scan_report q')"
  using assms by (subst OnNewScanResult.simps) simp

lemma scan_report_piece:
  assumes "qd qs = Some d" and "holds_pieces c msum g n msize shard S d" and "ScanReporter qs"
    and "surpressFinish qs \<longrightarrow> n \<le> card S" and "vctx qs = vctx qs0"
    and "legencyScanned qs = legencyScanned qs0"
    and "count_list evs ReadyToFinish = (if surpressFinish qs then 1 else 0)"
  shows "\<exists>q'. scan_report (qs, evs) = Inr (q', ''Scanned'') \<and> scanned c msum g n msize shard S qs0 q'"
  using assms
  by (auto simp: scan_report_def reports_def scanned_def IsDecodeReady_def holds_pieces_def)

lemma scan_group_begin:
  assumes "qr_group c codes msum g n msize shard" and "i < g"
  obtains res where "unmarshal_QR c res = Inr (segment c msum g n msize shard i)"
    and "\<And>qs evs. scan_begin c (codes i) (qs, evs) =
      (let qs' = (if qd qs = None then qs\<lparr>qd := Some StartQRDecode, surpressFinish := False\<rparr> else qs) in
         go_bind (OnNewDataScanned c res (the (qd qs'))) (\<lambda>(d', e).
           Inr (case e of None \<Rightarrow> Accepted (qs'\<lparr>qd := Some d'\<rparr>, evs) | Some _ \<Rightarrow> Retry (qs'\<lparr>qd := None\<rparr>, evs))))"
proof -
  from assms obtain res where "\<not> fst (TryRender c (codes i))" "V2RayURLToByte c (codes i) = Some res"
    "unmarshal_QR c res = Inr (segment c msum g n msize shard i)"
    by (auto simp: qr_group_def)
  with scan_begin_code that show thesis by blast
qed

lemma scan_group_first:
  assumes "qr_group c codes msum g n msize shard" and "i < g" and "qd qs = None" and "ScanReporter qs"
  shows "\<exists>q'. OnNewScanResult c (codes i) ad (qs, []) = Some (Inr (q', ''Scanned'')) \<and>
    scanned c msum g n msize shard {i} qs q'"
proof -
  obtain res where r: "unmarshal_QR c res = Inr (segment c msum g n msize shard i)"
    and b: "scan_begin c (codes i) (qs, []) =
      (let qs' = (if qd qs = None then qs\<lparr>qd := Some StartQRDecode, surpressFinish := False\<rparr> else qs) in
         go_bind (OnNewDataScanned c res (the (qd qs'))) (\<lambda>(d', e).
           Inr (case e of None \<Rightarrow> Accepted (qs'\<lparr>qd := Some d'\<rparr>, []) | Some _ \<Rightarrow> Retry (qs'\<lparr>qd := None\<rparr>, []))))"
    using scan_group_begin [OF assms(1,2)] by metis
  obtain d' where d': "OnNewDataScanned c res StartQRDecode = Inr (d', None)"
    "holds_pieces c msum g n msize shard {i} d'"
    using scan_first_piece [OF assms(1,2) r] by blast
  let ?q = "qs\<lparr>qd := Some d', surpressFinish := False\<rparr>"
  have "scan_begin c (codes i) (qs, []) = Inr (Accepted (?q, []))"
    using b d'(1) assms(3) by (simp add: Let_def)
  from scan_accepted [OF this] scan_report_piece [of ?q d' c msum g n msize shard "{i}" qs "[]"] d'(2) assms(4)
  show ?thesis by simp
qed

lemma scan_group_next:
  assumes "qr_group c codes msum g n msize shard" and "i < g" and "finite S"
    and "scanned c msum g n msize shard S qs0 q"
  shows "\<exists>q'. OnNewScanResult c (codes i) ad q = Some (Inr (q', ''Scanned'')) \<and>
    scanned c msum g n msize shard (insert i S) qs0 q'"
proof -
  obtain qs evs d where q: "q = (qs, evs)" "qd qs = Some d" and d: "holds_pieces c msum g n msize shard S d"
    and f: "surpressFinish qs = (n \<le> card S)" "count_list evs ReadyToFinish = (if n \<le> card S then 1 else 0)"
      "ScanReporter qs" "vctx qs = vctx qs0" "legencyScanned qs = legencyScanned qs0"
    using assms(4) by (cases q) (auto simp: scanned_def)
  obtain res where r: "unmarshal_QR c res = Inr (segment c msum g n msize shard i)"
    and b: "scan_begin c (codes i) (qs, evs) =
      (let qs' = (if qd qs = None then qs\<lparr>qd := Some StartQRDecode, surpressFinish := False\<rparr> else qs) in
         go_bind (OnNewDataScanned c res (the (qd qs'))) (\<lambda>(d', e).
           Inr (case e of None \<Rightarrow> Accepted (qs'\<lparr>qd := Some d'\<rparr>, evs) | Some _ \<Rightarrow> Retry (qs'\<lparr>qd := None\<rparr>, evs))))"
    using scan_group_begin [OF assms(1,2)] by metis
  obtain d' where d': "OnNewDataScanned c res d = Inr (d', None)"
    "holds_pieces c msum g n msize shard (insert i S) d'"
    using scan_next_piece [OF assms(1-3) r d] by blast
  let ?q = "qs\<lparr>qd := Some d'\<rparr>"
  have "scan_begin c (codes i) (qs, evs) = Inr (Accepted (?q, evs))"
    using b d'(1) q(2) by (simp add: Let_def)
  moreover have "card S \<le> card (insert i S)" using assms(3) by (simp add: card_insert_le)
  ultimately show ?thesis
    using scan_accepted [of c "codes i" q "(?q, evs)" ad] f d'(2) q(1)
      scan_report_piece [of ?q d' c msum g n msize shard "insert i S" qs0 evs]
    by simp
qed

text \<open>Scanning one code after the other.\<close>

fun scan_codes ::
  "'e codec \<Rightarrow> bool \<Rightarrow> string list \<Rightarrow> 'i scan_state \<Rightarrow> 'i scan_state go option" where
  "scan_codes c ad [] q = Some (Inr q)"
| "scan_codes c ad (x # xs) q =
     (case OnNewScanResult c x ad q of
        None \<Rightarrow> None
      | Some (Inl p) \<Rightarrow> Some (Inl p)
      | Some (Inr (q', s)) \<Rightarrow> scan_codes c ad xs q')"

lemma scan_codes_group:
  assumes "qr_group c codes msum g n msize shard" and "set is \<subseteq> {..<g}" and "finite S"
    and "scanned c msum g n msize shard S qs0 q"
  shows "\<exists>q'. scan_codes c ad (map codes is) q = Some (Inr q') \<and>
    scanned c msum g n msize shard (set is \<union> S) qs0 q'"
  using assms(2-)
proof (induction "is" arbitrary: q S)
  case (Cons i "is")
  then obtain q' where "OnNewScanResult c (codes i) ad q = Some (Inr (q', ''Scanned''))"
    "scanned c msum g n msize shard (insert i S) qs0 q'"
    using scan_group_next [OF assms(1), of i S qs0 q ad] by auto
  with Cons.IH [of "insert i S" q'] Cons.prems show ?case by simp
qed simp

lemma scan_codes_all:
  assumes "qr_group c codes msum g n msize shard" and "set is \<subseteq> {..<g}" and "is \<noteq> []"
    and "qd qs = None" and "ScanReporter qs"
  shows "\<exists>q'. scan_codes c ad (map codes is) (qs, []) = Some (Inr q') \<and>
    scanned c msum g n msize shard (set is) qs q'"
proof -
  from assms(3) obtain i js where i: "is = i # js" by (cases "is") auto
  with assms scan_group_first [of c codes msum g n msize shard i qs ad] obtain q' where
    "OnNewScanResult c (codes i) ad (qs, []) = Some (Inr (q', ''Scanned''))"
    "scanned c msum g n msize shard {i} qs q'" by auto
  with scan_codes_group [OF assms(1), of js "{i}" qs q' ad] assms(2) show ?thesis by (auto simp: i)
qed

text \<open>
  C18. Collecting: from a fresh context, the codes of a group scanned in any order and with any
  repetitions are all accepted, the pieces received are exactly the different ones scanned, and the
  application is told to finish exactly once, as soon as \<open>n\<close> different ones are there.
\<close>

theorem qr_codes_collect:
  assumes "qr_group c codes msum g n msize shard" and "set is \<subseteq> {..<g}" and "is \<noteq> []"
    and "qd qs = None" and "ScanReporter qs"
  shows "\<exists>q d. scan_codes c ad (map codes is) (qs, []) = Some (Inr q) \<and> qd (fst q) = Some d \<and>
    payload d = map (\<lambda>i. if i \<in> set is then Some (shard i) else None) [0..<g] \<and>
    PieceReceived d = int (card (set is)) \<and> (IsDecodeReady d \<longleftrightarrow> n \<le> card (set is)) \<and>
    count_list (snd q) ReadyToFinish = (if n \<le> card (set is) then 1 else 0)"
  using scan_codes_all [OF assms, of ad]
  by (auto simp: scanned_def holds_pieces_def pieces_def IsDecodeReady_def)

text \<open>What is handed back when enough pieces are there.\<close>

lemma qd_Finish_pieces:
  assumes "holds_pieces c msum g n msize shard S d" and "0 < n" and "n \<le> g" and "g < 2 ^ 31"
    and "msize < 2 ^ 31" and "n \<le> card S" and "S \<subseteq> {..<g}"
  shows "qd_Finish c d =
    (if g = 1 then Inr (Inr (shard 0))
     else (case rs_Reconstruct c (int n) (int g - int n) (pieces g shard S) of
             Inl e \<Rightarrow> Inr (Inl (CodecError e))
           | Inr shards \<Rightarrow> Inr (Inr (rs_Join c (int n) shards (int msize)))))"
proof -
  obtain j where d: "firstMessage d = Some (segment c msum g n msize shard j)" "payload d = pieces g shard S"
    "IsDecodeReady d"
    using assms(1,6) by (auto simp: holds_pieces_def IsDecodeReady_def)
  have w: "sint (of_nat n :: 32 word) = int n" "sint (of_nat msize :: 32 word) = int msize"
    "sint (of_nat g - of_nat n :: 32 word) = int g - int n"
    using assms(3-5) sint32_diff by simp_all
  show ?thesis
  proof (cases "g = 1")
    case True
    with assms(2,6,7) have "S = {0}" by (cases "S = {}") auto
    with True d show ?thesis
      by (simp add: qd_Finish_def segment_def pieces_def go_index_def slice_bytes_def)
  next
    case False
    with d w show ?thesis by (simp add: qd_Finish_def segment_def cong: sum.case_cong)
  qed
qed

section \<open>Instances\<close>

text \<open>A codec with one group of three codes, two of which suffice, and one legacy code.\<close>

definition demo_shard :: "nat \<Rightarrow> string" where
  "demo_shard i = (if i = 0 then ''a'' else if i = 1 then ''b'' else ''c'')"

definition demo_msg :: "nat \<Rightarrow> QRCode" where
  "demo_msg i =
     \<lparr>MsgChecksum = ''ab'', MessageSegType = 1, GroupCount = of_nat 3, MessgaeNumber = of_nat i,
      qr_Payload = Some (demo_shard i), PayloadChecksum = demo_shard i,
      OriginalSegmentNum = of_nat 2, PayloadTotalSize = of_nat 2\<rparr>"

definition demo_codec :: "unit codec" where
  "demo_codec = \<lparr>TryRender = (\<lambda>s. if s = ''v'' then (True, ''.json'', Some ''{}'') else (False, [], None)),
     base91_Decode = Some,
     unmarshal_QR = (\<lambda>b. if b = ''0'' then Inr (demo_msg 0) else if b = ''1'' then Inr (demo_msg 1)
        else if b = ''2'' then Inr (demo_msg 2) else Inl ()),
     sha3_Sum256 = id, rs_Reconstruct = (\<lambda>_ _ _. Inr [Some ''a'', Some ''b'']),
     rs_Join = (\<lambda>_ ps _. concat (map slice_bytes ps)),
     unmarshal_Packed = (\<lambda>b. Inr \<lparr>ConfigType = FullJsonFile, pk_CheckSum = b, pk_Payload = b, GzipCompressed = False\<rparr>),
     gunzip = Inr\<rparr>"

definition demo_code :: "nat \<Rightarrow> string" where
  "demo_code i = LibV2RayURLSignature @ (if i = 0 then ''0'' else if i = 1 then ''1'' else ''2'')"

definition demo_context :: "unit V2RayContext" where
  "demo_context = \<lparr>configureFile = ''/c/x.json'', Callbacks = False, ctx_Status = None\<rparr>"

definition demo_scan :: "unit QRScanContext" where
  "demo_scan = \<lparr>qd = None, ScanReporter = True, vctx = Some demo_context, surpressFinish = False,
     legencyScanned = False, legencyScannedExt = [], legencyScannedCtx = []\<rparr>"

definition demo_dir :: fs where
  "demo_dir = \<lparr>nodes = [''/c'' \<mapsto> Dir], denied = (\<lambda>_. False)\<rparr>"

lemma demo_url: "V2RayURLToByte demo_codec (LibV2RayURLSignature @ b) = Some b"
  by (simp add: V2RayURLToByte_def strings_HasPrefix_def demo_codec_def)

lemma demo_render: "\<not> fst (TryRender demo_codec (LibV2RayURLSignature @ b))"
  by (simp add: demo_codec_def LibV2RayURLSignature_def)

lemma demo_group: "qr_group demo_codec demo_code ''ab'' 3 2 2 demo_shard"
proof -
  have m: "demo_msg i = segment demo_codec ''ab'' 3 2 2 demo_shard i" for i
    by (simp add: demo_msg_def segment_def demo_codec_def)
  have u: "unmarshal_QR demo_codec ''0'' = Inr (demo_msg 0)" "unmarshal_QR demo_codec ''1'' = Inr (demo_msg 1)"
    "unmarshal_QR demo_codec ''2'' = Inr (demo_msg 2)"
    by (simp_all add: demo_codec_def)
  have "\<exists>res. V2RayURLToByte demo_codec (demo_code i) = Some res \<and>
      unmarshal_QR demo_codec res = Inr (segment demo_codec ''ab'' 3 2 2 demo_shard i)" if "i < 3" for i
  proof -
    have "i = 0 \<or> i = 1 \<or> i = 2" using that by auto
    then show ?thesis by (elim disjE) (simp_all only: demo_code_def demo_url, simp_all add: u m)
  qed
  then show ?thesis using demo_render by (auto simp: qr_group_def demo_code_def)
qed

lemma demo_paths: "path_Dir ''/c/x.json'' = ''/c''" "path_Dir ''/c/n.json'' = ''/c''"
  by code_simp+

lemma demo_write:
  "ioutil_WriteFile (path_Dir ''/c/x.json'' @ ''/'' @ ''n'' @ ''.json'') cont 384 demo_dir =
     (set_node ''/c/n.json'' (File cont 384) demo_dir, None)"
proof -
  have "follow max_links demo_dir ''/c/n.json'' = Inr (''/c/n.json'', None)"
    using follow_direct [of demo_dir "''/c/n.json''" max_links] by (simp add: demo_dir_def max_links_def)
  moreover have "is_dir demo_dir ''/c''" by (simp add: is_dir_def os_Stat_direct demo_dir_def)
  ultimately show ?thesis by (simp add: ioutil_WriteFile_def demo_paths)
qed

lemma demo_configure_file: "GetConfigureFile demo_context s = Inr (demo_context, s, ''/c/x.json'')"
  by (simp add: GetConfigureFile_def demo_context_def)

theorem damaged_code_never_returns_witness:
  "OnNewScanResult demo_codec (LibV2RayURLSignature @ ''x'') False (demo_scan, []) = None"
proof (rule damaged_code_never_returns)
  show "damaged demo_codec (LibV2RayURLSignature @ ''x'')"
    using demo_render demo_url by (auto simp: damaged_def demo_codec_def)
qed (simp add: demo_scan_def)

theorem legacy_finish_panics_witness:
  "\<exists>qs' s'. Finish demo_codec ''n'' (demo_scan\<lparr>legencyScanned := True, legencyScannedExt := ''.json'', legencyScannedCtx := ''{}''\<rparr>)
     demo_dir = (qs', s', Inl NilDeref) \<and> nodes s' ''/c/n.json'' = Some (File ''{}'' 384)"
proof -
  let ?qs = "demo_scan\<lparr>legencyScanned := True, legencyScannedExt := ''.json'', legencyScannedCtx := ''{}''\<rparr>"
  have "write_beside (''n'' @ legencyScannedExt ?qs) (legencyScannedCtx ?qs) ?qs demo_dir =
      Inr (?qs, set_node ''/c/n.json'' (File ''{}'' 384) demo_dir, None)"
    using demo_write [of "''{}''"] by (simp add: write_beside_def demo_scan_def demo_configure_file)
  from legacy_finish_panics [OF _ this, of demo_codec] show ?thesis by simp
qed

theorem qr_codes_collect_witness:
  "\<exists>q d. scan_codes demo_codec False (map demo_code [2, 2, 0]) (demo_scan, []) = Some (Inr q) \<and>
     qd (fst q) = Some d \<and> IsDecodeReady d \<and> count_list (snd q) ReadyToFinish = 1"
  using qr_codes_collect [OF demo_group, of "[2, 2, 0]" demo_scan False] by (auto simp: demo_scan_def)

end
