(* ===== verification/JsonModel.thy ===== *)
theory JsonModel
  imports Prelude "HOL-Library.List_Lexorder" "HOL-Library.Char_ord"
begin

text \<open>
  JSON values as \<open>go-simplejson\<close> holds them (\<open>src/vendor/github.com/bitly/go-simplejson\<close>) and
  what \<open>encoding/json\<close> does when such a value is marshalled and unmarshalled into a Go struct:
  members in key order, fields found by exact name first and then by case folding, \<open>null\<close> leaving
  the field alone, and a type mismatch recorded while decoding goes on.
\<close>

datatype json =
    JNull
  | JBool bool
  | JNumber string
  | JString string
  | JArray "json list"
  | JObject "(string \<times> json) list"

text \<open>A Go map has one value per key; the list of members stands for it in any order.\<close>

datatype json_error = SyntaxError string | TypeAssertion string

section \<open>simplejson\<close>

fun sj_Map :: "json \<Rightarrow> json_error + (string \<rightharpoonup> json)" where
  "sj_Map (JObject kvs) = Inr (map_of kvs)"
| "sj_Map _ = Inl (TypeAssertion ''map[string]interface{}'')"

fun sj_Array :: "json \<Rightarrow> json_error + json list" where
  "sj_Array (JArray js) = Inr js"
| "sj_Array _ = Inl (TypeAssertion ''[]interface{}'')"

fun sj_Bool :: "json \<Rightarrow> json_error + bool" where
  "sj_Bool (JBool b) = Inr b"
| "sj_Bool _ = Inl (TypeAssertion ''bool'')"

fun sj_String :: "json \<Rightarrow> json_error + string" where
  "sj_String (JString s) = Inr s"
| "sj_String _ = Inl (TypeAssertion ''string'')"

definition sj_Get :: "json \<Rightarrow> string \<Rightarrow> json" where
  "sj_Get j key =
     (case sj_Map j of
        Inr m \<Rightarrow> (case m key of Some val \<Rightarrow> val | None \<Rightarrow> JNull)
      | Inl e \<Rightarrow> JNull)"

definition sj_GetPath :: "json \<Rightarrow> string list \<Rightarrow> json" where
  "sj_GetPath j branch = foldl sj_Get j branch"

definition sj_CheckGet :: "json \<Rightarrow> string \<Rightarrow> json option" where
  "sj_CheckGet j key = (case sj_Map j of Inr m \<Rightarrow> m key | Inl e \<Rightarrow> None)"

text \<open>
  \<open>StringArray\<close> on an array with an element that is neither a string nor null returns
  \<open>nil, err\<close> where \<open>err\<close> is the nil error of the array assertion: no strings and no error.
\<close>

fun sj_strings :: "json list \<Rightarrow> string list option" where
  "sj_strings [] = Some []"
| "sj_strings (a # as) =
     (case a of
        JNull \<Rightarrow> map_option (Cons []) (sj_strings as)
      | JString s \<Rightarrow> map_option (Cons s) (sj_strings as)
      | _ \<Rightarrow> None)"

definition sj_StringArray :: "json \<Rightarrow> json_error + string list" where
  "sj_StringArray j =
     go_bind (sj_Array j) (\<lambda>arr. Inr (case sj_strings arr of Some ss \<Rightarrow> ss | None \<Rightarrow> []))"

lemma sj_strings_map_JString [simp]: "sj_strings (map JString ss) = Some ss"
  by (induction ss) auto

section \<open>encoding/json\<close>

text \<open>The marshalled text lists the members of every object in the order of their keys.\<close>

fun sj_MarshalJSON_data :: "json \<Rightarrow> json" where
  "sj_MarshalJSON_data (JArray js) = JArray (map sj_MarshalJSON_data js)"
| "sj_MarshalJSON_data (JObject kvs) =
     JObject (sort_key fst (map (map_prod id sj_MarshalJSON_data) kvs))"
| "sj_MarshalJSON_data j = j"

definition sj_MarshalJSON :: "json \<Rightarrow> json_error + json" where
  "sj_MarshalJSON j = Inr (sj_MarshalJSON_data j)"

text \<open>Case folding of a key: ASCII letters, and the two other code points that fold to one.\<close>

definition ascii_lower :: "char \<Rightarrow> char" where
  "ascii_lower c =
     (if 65 \<le> (of_char c :: nat) \<and> (of_char c :: nat) \<le> 90 then char_of (of_char c + 32 :: nat) else c)"

fun fold_key :: "string \<Rightarrow> string" where
  "fold_key [] = []"
| "fold_key (c # s) =
     (if c = CHR 0xC5 \<and> take 1 s = [CHR 0xBF] then CHR ''s'' # fold_key (drop 1 s)
      else if c = CHR 0xE2 \<and> take 2 s = [CHR 0x84, CHR 0xAA] then CHR ''k'' # fold_key (drop 2 s)
      else ascii_lower c # fold_key s)"

type_synonym 'a decoder = "'a \<Rightarrow> json \<Rightarrow> 'a \<times> bool"

text \<open>
  A decoder takes the value the target holds and returns the new one, and whether an error was
  recorded.
\<close>

fun dec_string :: "string decoder" where
  "dec_string old JNull = (old, False)"
| "dec_string old (JString s) = (s, False)"
| "dec_string old j = (old, True)"

fun dec_bool :: "bool decoder" where
  "dec_bool old JNull = (old, False)"
| "dec_bool old (JBool b) = (b, False)"
| "dec_bool old j = (old, True)"

text \<open>A slice: an element already there is the target of the element decoded into its slot.\<close>

fun dec_elems :: "'a decoder \<Rightarrow> 'a \<Rightarrow> 'a list \<Rightarrow> json list \<Rightarrow> 'a list \<times> bool" where
  "dec_elems dec zero old [] = ([], False)"
| "dec_elems dec zero old (j # js) =
     (let (x, e) = dec (if old = [] then zero else hd old) j;
          (xs, e') = dec_elems dec zero (tl old) js
      in (x # xs, e \<or> e'))"

fun dec_slice :: "'a decoder \<Rightarrow> 'a \<Rightarrow> 'a list decoder" where
  "dec_slice dec zero old JNull = ([], False)"
| "dec_slice dec zero old (JArray js) = dec_elems dec zero old js"
| "dec_slice dec zero old j = (old, True)"

type_synonym 'r fields = "(string \<times> 'r decoder) list"

definition find_field :: "'r fields \<Rightarrow> string \<Rightarrow> 'r decoder option" where
  "find_field fs key =
     (case map_of fs key of
        Some d \<Rightarrow> Some d
      | None \<Rightarrow> map_option snd (find (\<lambda>(n, d). fold_key n = fold_key key) fs))"

fun dec_members :: "'r fields \<Rightarrow> 'r \<Rightarrow> (string \<times> json) list \<Rightarrow> 'r \<times> bool" where
  "dec_members fs r [] = (r, False)"
| "dec_members fs r ((key, j) # kvs) =
     (let (r', e) = (case find_field fs key of None \<Rightarrow> (r, False) | Some d \<Rightarrow> d r j);
          (r'', e') = dec_members fs r' kvs
      in (r'', e \<or> e'))"

fun dec_struct :: "'r fields \<Rightarrow> 'r decoder" where
  "dec_struct fs r JNull = (r, False)"
| "dec_struct fs r (JObject kvs) = dec_members fs r kvs"
| "dec_struct fs r j = (r, True)"

text \<open>A field of a struct as a decoder of the struct.\<close>

definition dec_field :: "('r \<Rightarrow> 'a) \<Rightarrow> (('a \<Rightarrow> 'a) \<Rightarrow> 'r \<Rightarrow> 'r) \<Rightarrow> 'a decoder \<Rightarrow> 'r decoder" where
  "dec_field get upd dec r j = (let (x, e) = dec (get r) j in (upd (\<lambda>_. x) r, e))"

lemma dec_elems_length: "length (fst (dec_elems dec zero old js)) = length js"
  by (induction dec zero old js rule: dec_elems.induct) (auto split: prod.splits)

lemma dec_elems_strings:
  "dec_elems dec_string z old (map JString ss) = (ss, False)"
  by (induction ss arbitrary: old) auto

lemma fold_key_examples:
  "fold_key ''VPNSetupArg'' = ''vpnsetuparg''" "fold_key [CHR 0xC5, CHR 0xBF, CHR ''A''] = ''sa''"
  by code_simp+

end
