(* ===== verification/JsonConvert.thy ===== *)
theory JsonConvert
  imports Environment JsonModel
begin

text \<open>
  Package \<open>configure/jsonConvert\<close>: the \<open>#lib2ray\<close> section of the JSON configuration is parsed
  into the legacy structs (\<open>configure.go\<close>), its variables are expanded (\<open>rendercfg.go\<close>), and it
  is converted to the protobuf structs (\<open>legacyJsonStructToPb.go\<close>). Stripping comments
  (\<open>v2ray.com/ext/encoding/json\<close>) and the JSON decoder are parameters.
\<close>

section \<open>The legacy structs\<close>

record libv2rayconfEscortTarget =
  et_Target :: string
  et_Args :: "string list"
  et_Forgiveable :: bool

record libv2rayconfRenderCfgTarget =
  rt_Target :: string
  rt_Args :: "string list"
  rt_Source :: string

record vpnserviceConfig =
  vc_Target :: string
  vc_Args :: "string list"
  vc_VPNSetupArg :: string

record vpnserviceDnsloopFix =
  dl_DomainNameList :: "string list"
  dl_TCPVersion :: string
  dl_UDPVersion :: string

record libv2rayconf =
  upscript :: string
  downscript :: string
  additionalEnv :: "string list"
  esco :: "libv2rayconfEscortTarget list"
  rend :: "libv2rayconfRenderCfgTarget list"
  vpnConfig :: vpnserviceConfig
  dnsloopfix :: vpnserviceDnsloopFix

record JsonToPbConverter =
  conf :: "libv2rayconf option"
  reading :: string
  Datadir :: string
  Cfgfile :: string
  jc_Env :: "EnvironmentVar option"

definition zero_escort :: libv2rayconfEscortTarget where
  "zero_escort = \<lparr>et_Target = [], et_Args = [], et_Forgiveable = False\<rparr>"

definition zero_render :: libv2rayconfRenderCfgTarget where
  "zero_render = \<lparr>rt_Target = [], rt_Args = [], rt_Source = []\<rparr>"

definition zero_vpnservice :: vpnserviceConfig where
  "zero_vpnservice = \<lparr>vc_Target = [], vc_Args = [], vc_VPNSetupArg = []\<rparr>"

definition zero_dnsloopfix :: vpnserviceDnsloopFix where
  "zero_dnsloopfix = \<lparr>dl_DomainNameList = [], dl_TCPVersion = [], dl_UDPVersion = []\<rparr>"

definition zero_conf :: libv2rayconf where
  "zero_conf = \<lparr>upscript = [], downscript = [], additionalEnv = [], esco = [], rend = [],
     vpnConfig = zero_vpnservice, dnsloopfix = zero_dnsloopfix\<rparr>"

definition zero_converter :: JsonToPbConverter where
  "zero_converter = \<lparr>conf = None, reading = [], Datadir = [], Cfgfile = [], jc_Env = None\<rparr>"

text \<open>The JSON tags of the structs.\<close>

definition escort_fields :: "libv2rayconfEscortTarget fields" where
  "escort_fields =
     [(''Target'', dec_field et_Target et_Target_update dec_string),
      (''Args'', dec_field et_Args et_Args_update (dec_slice dec_string [])),
      (''Forgiveable'', dec_field et_Forgiveable et_Forgiveable_update dec_bool)]"

definition render_fields :: "libv2rayconfRenderCfgTarget fields" where
  "render_fields =
     [(''Target'', dec_field rt_Target rt_Target_update dec_string),
      (''Args'', dec_field rt_Args rt_Args_update (dec_slice dec_string [])),
      (''Source'', dec_field rt_Source rt_Source_update dec_string)]"

definition vpnservice_fields :: "vpnserviceConfig fields" where
  "vpnservice_fields =
     [(''Target'', dec_field vc_Target vc_Target_update dec_string),
      (''Args'', dec_field vc_Args vc_Args_update (dec_slice dec_string [])),
      (''VPNSetupArg'', dec_field vc_VPNSetupArg vc_VPNSetupArg_update dec_string)]"

definition dnsloopfix_fields :: "vpnserviceDnsloopFix fields" where
  "dnsloopfix_fields =
     [(''domainName'', dec_field dl_DomainNameList dl_DomainNameList_update (dec_slice dec_string [])),
      (''tcpVersion'', dec_field dl_TCPVersion dl_TCPVersion_update dec_string),
      (''udpVersion'', dec_field dl_UDPVersion dl_UDPVersion_update dec_string)]"

section \<open>Parsing\<close>

datatype conv_error = JsonErr json_error | ConvErr string

definition jsonStringDefault :: "json \<Rightarrow> string \<Rightarrow> string" where
  "jsonStringDefault jsons def = (case sj_String jsons of Inl e \<Rightarrow> def | Inr s \<Rightarrow> s)"

text \<open>
  The four optional sections have one shape: look the key up, marshal, unmarshal into a field of
  the configuration. The field keeps what was decoded also when an error was recorded.
\<close>

definition parse_section ::
  "string \<Rightarrow> string \<Rightarrow> (libv2rayconf \<Rightarrow> json \<Rightarrow> libv2rayconf \<times> bool) \<Rightarrow> json \<Rightarrow>
     libv2rayconf \<Rightarrow> libv2rayconf \<times> conv_error option" where
  "parse_section key msg dec libconf c =
     (case sj_CheckGet libconf key of
        None \<Rightarrow> (c, None)
      | Some j \<Rightarrow>
          (case sj_MarshalJSON j of
             Inl e \<Rightarrow> (c, Some (ConvErr msg))
           | Inr text \<Rightarrow>
               (let (c', bad) = dec c text
                in (c', if bad then Some (ConvErr (msg @ ''X'')) else None))))"

definition parse_escort :: "json \<Rightarrow> libv2rayconf \<Rightarrow> libv2rayconf \<times> conv_error option" where
  "parse_escort = parse_section ''escort'' ''Failed Type Assert: Config escort''
     (dec_field esco esco_update (dec_slice (dec_struct escort_fields) zero_escort))"

definition parse_render :: "json \<Rightarrow> libv2rayconf \<Rightarrow> libv2rayconf \<times> conv_error option" where
  "parse_render = parse_section ''render'' ''Failed Type Assert: Config render''
     (dec_field rend rend_update (dec_slice (dec_struct render_fields) zero_render))"

definition parse_vpnservice :: "json \<Rightarrow> libv2rayconf \<Rightarrow> libv2rayconf \<times> conv_error option" where
  "parse_vpnservice = parse_section ''vpnservice'' ''Failed Type Assert: Config vpnConfig''
     (dec_field vpnConfig vpnConfig_update (dec_struct vpnservice_fields))"

text \<open>The message of the last section is the same for both of its failures.\<close>

definition parse_dnsloopfix :: "json \<Rightarrow> libv2rayconf \<Rightarrow> libv2rayconf \<times> conv_error option" where
  "parse_dnsloopfix libconf c =
     (case parse_section ''preparedDomainName'' ''Failed Type Assert: Config vpndnsloopFixJ''
             (dec_field dnsloopfix dnsloopfix_update (dec_struct dnsloopfix_fields)) libconf c of
        (c', e) \<Rightarrow>
          (c', map_option (\<lambda>_. ConvErr ''Failed Type Assert: Config vpndnsloopFixJ'') e))"

text \<open>A statement that returns early on an error.\<close>

definition conf_then ::
  "libv2rayconf \<times> conv_error option \<Rightarrow> (libv2rayconf \<Rightarrow> libv2rayconf \<times> conv_error option) \<Rightarrow>
     libv2rayconf \<times> conv_error option" where
  "conf_then r f = (case snd r of None \<Rightarrow> f (fst r) | Some e \<Rightarrow> r)"

definition parse_lib2ray :: "json \<Rightarrow> libv2rayconf \<times> conv_error option" where
  "parse_lib2ray libconf =
     (let c = zero_conf
        \<lparr>upscript := jsonStringDefault (sj_GetPath libconf [''listener'', ''onUp'']) ''#none'',
         downscript := jsonStringDefault (sj_GetPath libconf [''listener'', ''onDown'']) ''#none''\<rparr>
      in case sj_StringArray (sj_GetPath libconf [''env'']) of
           Inl e \<Rightarrow> (c, Some (JsonErr e))
         | Inr env \<Rightarrow>
             conf_then (conf_then (conf_then (parse_escort libconf (c\<lparr>additionalEnv := env\<rparr>))
               (parse_render libconf)) (parse_vpnservice libconf)) (parse_dnsloopfix libconf))"

definition parseConf ::
  "(string \<Rightarrow> string) \<Rightarrow> (string \<Rightarrow> json_error + json) \<Rightarrow> JsonToPbConverter \<Rightarrow>
     JsonToPbConverter \<times> conv_error option" where
  "parseConf strip decode v =
     (case decode (strip (reading v)) of
        Inl e \<Rightarrow> (v, Some (JsonErr e))
      | Inr jsoncf \<Rightarrow>
          (case sj_CheckGet jsoncf ''#lib2ray'' of
             None \<Rightarrow> (v, None)
           | Some libconf \<Rightarrow>
               (case sj_Bool (sj_GetPath libconf [''enabled'']) of
                  Inl e \<Rightarrow> (v, Some (JsonErr e))
                | Inr enabled \<Rightarrow>
                    if \<not> enabled then (v, None)
                    else let (c, e) = parse_lib2ray libconf in (v\<lparr>conf := Some c\<rparr>, e))))"

definition LoadFromString :: "string \<Rightarrow> JsonToPbConverter \<Rightarrow> JsonToPbConverter" where
  "LoadFromString ctx v = v\<lparr>reading := ctx\<rparr>"

definition LoadFromFile ::
  "fs \<Rightarrow> string \<Rightarrow> JsonToPbConverter \<Rightarrow> JsonToPbConverter \<times> fs_error option" where
  "LoadFromFile s loc v =
     (case ioutil_ReadFile s loc of
        Inl e \<Rightarrow> (v, Some e)
      | Inr file \<Rightarrow> (v\<lparr>reading := file\<rparr>, None))"

section \<open>Rendering\<close>

text \<open>
  \<open>uid\<close> is the process's user and \<open>it\<close> the sequence the environment loops visit the variables
  in. One sequence stands for that of every call: the map the lookups read does not depend on it.
\<close>

definition render_creater :: "JsonToPbConverter \<Rightarrow> unit EnvironmentCreater" where
  "render_creater v =
     \<lparr>ec_Conf = jc_Env v, ec_Context = Some (new_Status\<lparr>PackageName := Datadir v\<rparr>)\<rparr>"

definition render_env ::
  "int \<Rightarrow> (string \<times> string) list \<Rightarrow> JsonToPbConverter \<Rightarrow> (string \<rightharpoonup> string) go" where
  "render_env uid it v = go_bind (GetEnvironment uid it (render_creater v)) envToMap"

definition lookup_env :: "(string \<rightharpoonup> string) \<Rightarrow> string \<Rightarrow> string go" where
  "lookup_env envr lookup = Inr (case envr lookup of Some envl \<Rightarrow> envl | None \<Rightarrow> [])"

definition render_escort ::
  "(string \<rightharpoonup> string) \<Rightarrow> libv2rayconfEscortTarget \<Rightarrow> libv2rayconfEscortTarget go" where
  "render_escort envr e =
     go_bind (os_Expand (lookup_env envr) (et_Target e)) (\<lambda>t.
     go_bind (go_map (os_Expand (lookup_env envr)) (et_Args e)) (\<lambda>as.
       Inr (e\<lparr>et_Target := t, et_Args := as\<rparr>)))"

text \<open>The methods below follow \<open>v.conf\<close>, a pointer that \<open>Parse\<close> has checked.\<close>

definition renderesco ::
  "int \<Rightarrow> (string \<times> string) list \<Rightarrow> JsonToPbConverter \<Rightarrow> JsonToPbConverter go" where
  "renderesco uid it v =
     go_bind (render_env uid it v) (\<lambda>envr.
     go_bind (deref (conf v)) (\<lambda>c.
     go_bind (go_map (render_escort envr) (esco c)) (\<lambda>es.
       Inr (v\<lparr>conf := Some (c\<lparr>esco := es\<rparr>)\<rparr>))))"

definition rendervpn ::
  "int \<Rightarrow> (string \<times> string) list \<Rightarrow> JsonToPbConverter \<Rightarrow> JsonToPbConverter go" where
  "rendervpn uid it v =
     go_bind (render_env uid it v) (\<lambda>envr.
     go_bind (deref (conf v)) (\<lambda>c.
     go_bind (go_map (os_Expand (lookup_env envr)) (vc_Args (vpnConfig c))) (\<lambda>as.
     go_bind (os_Expand (lookup_env envr) (vc_Target (vpnConfig c))) (\<lambda>t.
       Inr (v\<lparr>conf := Some (c\<lparr>vpnConfig := (vpnConfig c)\<lparr>vc_Args := as, vc_Target := t\<rparr>\<rparr>)\<rparr>)))))"

text \<open>
  The lookup of a template sees the arguments of its entry as well; it parses them at every call,
  and panics there on an argument without an equals sign.
\<close>

definition render_lookup ::
  "int \<Rightarrow> (string \<times> string) list \<Rightarrow> JsonToPbConverter \<Rightarrow> string list \<Rightarrow> string \<Rightarrow> string go" where
  "render_lookup uid it v args lookup =
     go_bind (GetEnvironment uid it (render_creater v)) (\<lambda>e.
     go_bind (envToMap (e @ args)) (\<lambda>envr. lookup_env envr lookup))"

text \<open>
  One template: an unreadable source counts as empty, the target is created or truncated and
  then written.
\<close>

definition read_source :: "fs \<Rightarrow> string \<Rightarrow> string" where
  "read_source s p = (case ioutil_ReadFile s p of Inl e \<Rightarrow> [] | Inr c \<Rightarrow> c)"

definition write_target :: "string \<Rightarrow> string \<Rightarrow> fs \<Rightarrow> fs" where
  "write_target p c s =
     (case os_Create p s of
        (s', Some e) \<Rightarrow> s'
      | (s', None) \<Rightarrow> fst (ioutil_WriteFile p c 438 s'))"

definition render_template ::
  "int \<Rightarrow> (string \<times> string) list \<Rightarrow> JsonToPbConverter \<Rightarrow> (string \<rightharpoonup> string) \<Rightarrow>
     libv2rayconfRenderCfgTarget \<Rightarrow> fs \<Rightarrow> (libv2rayconfRenderCfgTarget \<times> fs) go" where
  "render_template uid it v envr0 r s =
     go_bind (go_map (os_Expand (lookup_env envr0)) (rt_Args r)) (\<lambda>args.
     (let mf = render_lookup uid it v args in
       go_bind (os_Expand mf (rt_Source r)) (\<lambda>src.
       go_bind (os_Expand mf (rt_Target r)) (\<lambda>ft.
       go_bind (os_Expand mf (read_source s src)) (\<lambda>op.
         Inr (r\<lparr>rt_Args := args\<rparr>, write_target ft op s))))))"

fun render_templates ::
  "int \<Rightarrow> (string \<times> string) list \<Rightarrow> JsonToPbConverter \<Rightarrow> (string \<rightharpoonup> string) \<Rightarrow>
     libv2rayconfRenderCfgTarget list \<Rightarrow> fs \<Rightarrow> (libv2rayconfRenderCfgTarget list \<times> fs) go" where
  "render_templates uid it v envr0 [] s = Inr ([], s)"
| "render_templates uid it v envr0 (r # rs) s =
     go_bind (render_template uid it v envr0 r s) (\<lambda>(r', s').
     go_bind (render_templates uid it v envr0 rs s') (\<lambda>(rs', s''). Inr (r' # rs', s'')))"

definition renderptm ::
  "int \<Rightarrow> (string \<times> string) list \<Rightarrow> JsonToPbConverter \<times> fs \<Rightarrow> (JsonToPbConverter \<times> fs) go" where
  "renderptm uid it = (\<lambda>(v, s).
     go_bind (render_env uid it v) (\<lambda>envr0.
     go_bind (deref (conf v)) (\<lambda>c.
     go_bind (render_templates uid it v envr0 (rend c) s) (\<lambda>(rs, s').
       Inr (v\<lparr>conf := Some (c\<lparr>rend := rs\<rparr>)\<rparr>, s')))))"

definition renderAll ::
  "int \<Rightarrow> (string \<times> string) list \<Rightarrow> JsonToPbConverter \<times> fs \<Rightarrow> (JsonToPbConverter \<times> fs) go" where
  "renderAll uid it = (\<lambda>(v, s).
     go_bind (renderesco uid it v) (\<lambda>v1.
     go_bind (renderptm uid it (v1, s)) (\<lambda>(v2, s2).
     go_bind (rendervpn uid it v2) (\<lambda>v3. Inr (v3, s2)))))"

section \<open>Parse and conversion\<close>

definition Parse ::
  "(string \<Rightarrow> string) \<Rightarrow> (string \<Rightarrow> json_error + json) \<Rightarrow> int \<Rightarrow> (string \<times> string) list \<Rightarrow>
     JsonToPbConverter \<times> fs \<Rightarrow> ((JsonToPbConverter \<times> fs) \<times> conv_error option) go" where
  "Parse strip decode uid it = (\<lambda>(v, s).
     (case parseConf strip decode v of
        (v1, Some e) \<Rightarrow> Inr ((v1, s), Some e)
      | (v1, None) \<Rightarrow>
          (case conf v1 of
             None \<Rightarrow> Inr ((v1\<lparr>jc_Env := Some \<lparr>Vars = Map.empty\<rparr>\<rparr>, s), None)
           | Some c \<Rightarrow>
               go_bind (envToMap (additionalEnv c)) (\<lambda>vars.
               go_bind (renderAll uid it (v1\<lparr>jc_Env := Some \<lparr>Vars = vars\<rparr>\<rparr>, s)) (\<lambda>vs.
                 Inr (vs, None))))))"

definition convert_escort :: "libv2rayconfEscortTarget \<Rightarrow> EscortedProcess" where
  "convert_escort e =
     \<lparr>ep_Target = et_Target e, ep_Args = et_Args e, ep_Forgiveable = et_Forgiveable e\<rparr>"

definition ConvertToPb :: "libv2rayconf \<Rightarrow> LibV2RayConf go" where
  "ConvertToPb leagcy =
     go_bind (envToMap (additionalEnv leagcy)) (\<lambda>vars.
       Inr \<lparr>NoAutoConvert = True,
            VpnConf = Some
              \<lparr>Service = Some
                 \<lparr>vs_Target = vc_Target (vpnConfig leagcy), vs_Args = vc_Args (vpnConfig leagcy),
                  VPNSetupArg = vc_VPNSetupArg (vpnConfig leagcy)\<rparr>,
               PreparedDomainName = Some
                 \<lparr>TCPVersion = dl_TCPVersion (dnsloopfix leagcy),
                  UDPVersion = dl_UDPVersion (dnsloopfix leagcy),
                  DomainNameList = dl_DomainNameList (dnsloopfix leagcy)\<rparr>\<rparr>,
            RootModeConf = Some
              \<lparr>Escorting = map convert_escort (esco leagcy),
               Scripts = Some \<lparr>UpScript = upscript leagcy, DownScript = downscript leagcy\<rparr>\<rparr>,
            Env = Some \<lparr>Vars = vars\<rparr>\<rparr>)"

definition ToPb :: "JsonToPbConverter \<Rightarrow> LibV2RayConf option go" where
  "ToPb v =
     (case conf v of
        None \<Rightarrow> Inr None
      | Some c \<Rightarrow> go_bind (ConvertToPb c) (\<lambda>pb. Inr (Some pb)))"

end
