(* ===== verification/Point.thy ===== *)
theory Point
  imports VpnService Scripts FirstRun QRScan JsonConvert
begin

text \<open>
  The point server of \<open>interact.go\<close>: loading the selected configuration, the main loop that starts
  the core, the escorts, the VPN service and the up script, the stop loop that takes them down
  again, and the calls the application makes. What the core, the decoders and the asset generator
  do is one record of functions, a parameter.
\<close>

section \<open>State\<close>

text \<open>
  \<open>escorter\<close> holds the fields of the escort object, \<open>escorter_run\<close> its goroutines. The status is one
  object to which several components hold a pointer: the record has it once, and a component's copy
  is brought up to date when the component is called (\<open>share\<close>).
\<close>

record ('s, 'i, 'l) V2RayPoint =
  status :: "'i Status"
  confng :: "LibV2RayConf option"
  escorter :: "'i Escorting"
  escorter_run :: esys
  has_Callbacks :: bool
  Context :: "'i V2RayContext option"
  VPNSupports :: "('s, 'i, 'l) VPNSupport"
  UpdownScripts :: "'i UpDownScript"
  interuptDeferto :: int
  pt_PackageName :: string
  ConfigureFile :: string
  ConfigureFileContent :: string

definition zero_VPNSupport :: "('s, 'i, 'l) VPNSupport" where
  "zero_VPNSupport =
     \<lparr>prepareddomain = \<lparr>tcpprepared = Map.empty, udpprepared = Map.empty\<rparr>, VpnSupportSet = None,
      vpn_status = None, vpn_Conf = zero_VPNConfig, Estr = None, usewaVingOceanVPNBackend = False,
      lowerup = None\<rparr>"

definition NewV2RayPoint :: "('s, 'i, 'l) V2RayPoint" where
  "NewV2RayPoint =
     \<lparr>status = new_Status, confng = None, escorter = NewEscort,
      escorter_run = esys_init\<lparr>has_status := False\<rparr>,
      has_Callbacks = False, Context = None, VPNSupports = zero_VPNSupport,
      UpdownScripts = new_UpDownScript, interuptDeferto = 0, pt_PackageName = [],
      ConfigureFile = [], ConfigureFileContent = []\<rparr>"

definition share :: "'i Status \<Rightarrow> 'i Status option \<Rightarrow> 'i Status option" where
  "share st p = map_option (\<lambda>_. st) p"

lemma share_simps [simp]: "share st None = None" "share st (Some x) = Some st"
  by (simp_all add: share_def)

section \<open>Surroundings\<close>

text \<open>
  \<open>LoadJSONConfig\<close> is given what could be read; \<open>extensions\<close> are the instances of the extensions of a
  core configuration, \<open>Some\<close> for a \<open>LibV2RayConf\<close>. A core instance includes the nil pointer
  \<open>core.New\<close> returns with an error; starting or closing it may panic. The two orders are the
  iteration sequences of the environment map while a configuration is parsed and while a script
  is started.
\<close>

record ('cfg, 'i, 'e) platform =
  strip_comments :: "string \<Rightarrow> string"
  json_decode :: "string \<Rightarrow> json_error + json"
  proxy_uid :: int
  parse_order :: "(string \<times> string) list"
  script_order :: "(string \<times> string) list"
  os_Environ :: "string list"
  LoadJSONConfig :: "fs_error + string \<Rightarrow> 'cfg option"
  proto_Unmarshal :: "string \<Rightarrow> 'cfg"
  extensions :: "'cfg \<Rightarrow> LibV2RayConf option list"
  zero_Config :: 'cfg
  core_New :: "'cfg \<Rightarrow> 'i"
  core_Start :: "'i \<Rightarrow> panic option"
  core_Close :: "'i \<Rightarrow> panic option"
  AssetDir :: "string \<Rightarrow> 'e + string list"
  RestoreAsset :: restorer

datatype 'i point_event =
    CoreStart 'i
  | CoreClose 'i
  | VpnEv "'i vpn_event"
  | RunScript command
  | ArmTimer
  | OnEmitStatus int string

definition may_panic :: "panic option \<Rightarrow> unit go" where
  "may_panic p = (case p of None \<Rightarrow> Inr () | Some e \<Rightarrow> Inl e)"

lemma may_panic_simps [simp]: "may_panic None = Inr ()" "may_panic (Some e) = Inl e"
  by (simp_all add: may_panic_def)

section \<open>Loading the configuration\<close>

text \<open>The configuration of the Go part from JSON text; a parse error is ignored by the caller.\<close>

definition confng_of_json ::
  "('cfg, 'i, 'e) platform \<Rightarrow> JsonToPbConverter \<times> fs \<Rightarrow> (LibV2RayConf option \<times> fs) go" where
  "confng_of_json P js =
     go_bind (Parse (strip_comments P) (json_decode P) (proxy_uid P) (parse_order P) js) (\<lambda>((jc, s), _).
     go_bind (ToPb jc) (\<lambda>pb. Inr (pb, s)))"

definition new_converter :: "('s, 'i, 'l) V2RayPoint \<Rightarrow> JsonToPbConverter" where
  "new_converter v = zero_converter\<lparr>Datadir := PackageName (status v)\<rparr>"

text \<open>The last \<open>LibV2RayConf\<close> among the extensions replaces the present one, if there is any.\<close>

definition assert_extensions :: "LibV2RayConf option list \<Rightarrow> LibV2RayConf option \<Rightarrow> LibV2RayConf option" where
  "assert_extensions exts old = fold (\<lambda>d cur. case d of Some vn \<Rightarrow> Some vn | None \<Rightarrow> cur) exts old"

text \<open>\<open>v.Context.GetConfigureFile()\<close>.\<close>

definition context_file ::
  "('s, 'i, 'l) V2RayPoint \<Rightarrow> fs \<Rightarrow> (('s, 'i, 'l) V2RayPoint \<times> fs \<times> string) go" where
  "context_file v s =
     go_bind (deref (Context v)) (\<lambda>vc.
     go_bind (GetConfigureFile (vc\<lparr>ctx_Status := share (status v) (ctx_Status vc)\<rparr>) s) (\<lambda>(vc', s', cf).
       Inr (v\<lparr>Context := Some vc'\<rparr>, s', cf)))"

datatype ('v, 'cfg) loaded = Loaded 'cfg 'v fs | GaveUp 'v fs

definition load_internal ::
  "('cfg, 'i, 'e) platform \<Rightarrow> ('s, 'i, 'l) V2RayPoint \<Rightarrow> fs \<Rightarrow> (('s, 'i, 'l) V2RayPoint, 'cfg) loaded go" where
  "load_internal P v s =
     (if ConfigureFile v = ''V2Ray_internal/ConfigureFileContent'' then
        go_bind (confng_of_json P
                  (LoadFromString (ConfigureFileContent v) (new_converter v), s)) (\<lambda>(pb, s').
        go_bind (deref (LoadJSONConfig P (Inr (ConfigureFileContent v)))) (\<lambda>cfg.
          Inr (Loaded cfg (v\<lparr>confng := pb\<rparr>) s')))
      else
        (let cfg = proto_Unmarshal P (ConfigureFileContent v)
         in Inr (Loaded cfg (v\<lparr>confng := assert_extensions (extensions P cfg) (confng v)\<rparr>) s)))"

definition load_json_file ::
  "('cfg, 'i, 'e) platform \<Rightarrow> ('s, 'i, 'l) V2RayPoint \<Rightarrow> fs \<Rightarrow> (('s, 'i, 'l) V2RayPoint, 'cfg) loaded go" where
  "load_json_file P v s =
     (let jc = new_converter v in
      go_bind (context_file v s) (\<lambda>(v, s, cf).
      go_bind (confng_of_json P (fst (LoadFromFile s cf jc), s)) (\<lambda>(pb, s').
        Inr (Loaded (case LoadJSONConfig P (ioutil_ReadFile s' cf) of None \<Rightarrow> zero_Config P | Some cfg \<Rightarrow> cfg)
               (v\<lparr>confng := pb\<rparr>) s'))))"

definition load_proto_file ::
  "('cfg, 'i, 'e) platform \<Rightarrow> ('s, 'i, 'l) V2RayPoint \<Rightarrow> fs \<Rightarrow> (('s, 'i, 'l) V2RayPoint, 'cfg) loaded go" where
  "load_proto_file P v s =
     go_bind (context_file v s) (\<lambda>(v, s, cf).
       (let cfg = proto_Unmarshal P (case ioutil_ReadFile s cf of Inl _ \<Rightarrow> [] | Inr buf \<Rightarrow> buf)
        in Inr (Loaded cfg (v\<lparr>confng := assert_extensions (extensions P cfg) (confng v)\<rparr>) s)))"

definition load_config ::
  "('cfg, 'i, 'e) platform \<Rightarrow> ('s, 'i, 'l) V2RayPoint \<Rightarrow> fs \<Rightarrow> (('s, 'i, 'l) V2RayPoint, 'cfg) loaded go" where
  "load_config P v s =
     (if strings_HasPrefix (ConfigureFile v) ''V2Ray_internal'' then load_internal P v s
      else
        go_bind (context_file v s) (\<lambda>(v, s, cf).
          (case GuessConfigType cf of
             Some FullJsonFile \<Rightarrow> load_json_file P v s
           | Some FullProto \<Rightarrow> load_proto_file P v s
           | _ \<Rightarrow> Inr (GaveUp v s))))"

section \<open>The main loop\<close>

text \<open>A call of the VPN service, with the shared status handed to it and taken back.\<close>

definition with_vpn ::
  "(('s, 'i, 'l) VPNSupport \<Rightarrow> ('s, 'i, 'l) vpn_result) \<Rightarrow> ('s, 'i, 'l) V2RayPoint \<Rightarrow>
     ('i point_event list \<times> ('s, 'i, 'l) V2RayPoint) go" where
  "with_vpn f v =
     go_bind (f ((VPNSupports v)\<lparr>vpn_status := share (status v) (vpn_status (VPNSupports v))\<rparr>)) (\<lambda>(evs, w).
       Inr (map VpnEv evs,
         v\<lparr>VPNSupports := w, status := (case vpn_status w of None \<Rightarrow> status v | Some st \<Rightarrow> st)\<rparr>))"

definition emit_status ::
  "int \<Rightarrow> string \<Rightarrow> ('s, 'i, 'l) V2RayPoint \<Rightarrow> 'i point_event list go" where
  "emit_status n msg v = (if has_Callbacks v then Inr [OnEmitStatus n msg] else Inl NilDeref)"

text \<open>
  The escorts of the root mode: \<open>Configure\<close> is set, then \<open>EscortingUP\<close> called, whose goroutines go
  on by themselves with the status pointer the escort object has.
\<close>

definition start_escorts :: "RootModeConfig \<Rightarrow> ('s, 'i, 'l) V2RayPoint \<Rightarrow> ('s, 'i, 'l) V2RayPoint" where
  "start_escorts r v =
     v\<lparr>escorter := (escorter v)\<lparr>esc_Configure := Configure.Escorting r\<rparr>,
       escorter_run := the (estep (Up (map ep_Forgiveable (Configure.Escorting r)))
         ((escorter_run v)\<lparr>es_running := IsRunning (status v), has_status := esc_status (escorter v) \<noteq> None\<rparr>))\<rparr>"

text \<open>The set-up of the VPN service and of the scripts, and the up script.\<close>

definition start_vpn ::
  "('e2, 'c, 'w::len word) net \<Rightarrow> LibV2RayConf \<Rightarrow> ('s, 'i, 'l) V2RayPoint \<Rightarrow>
     ('i point_event list \<times> ('s, 'i, 'l) V2RayPoint) go" where
  "start_vpn n c v =
     go_bind (deref (VpnConf c)) (\<lambda>vpn.
       with_vpn (VpnSetup n)
         (v\<lparr>VPNSupports := vpn_SetStatus (Some (status v)) ((VPNSupports v)\<lparr>vpn_Conf := vpn\<rparr>)\<rparr>))"

definition start_scripts ::
  "('cfg, 'i, 'e) platform \<Rightarrow> LibV2RayConf \<Rightarrow> RootModeConfig \<Rightarrow> ('s, 'i, 'l) V2RayPoint \<Rightarrow>
     ('i point_event list \<times> ('s, 'i, 'l) V2RayPoint) go" where
  "start_scripts P c r v =
     (let u = (ud_SetStatus (Some (status v)) (UpdownScripts v))\<lparr>ud_Configure := RootModeConfig.Scripts r, ud_Env := LibV2RayConf.Env c\<rparr>
      in go_bind (RunUpScript (proxy_uid P) (script_order P) (os_Environ P) u) (\<lambda>cmd.
           Inr ([RunScript cmd], v\<lparr>UpdownScripts := u\<rparr>)))"

definition start_services ::
  "('cfg, 'i, 'e) platform \<Rightarrow> ('e2, 'c, 'w::len word) net \<Rightarrow> LibV2RayConf \<Rightarrow> ('s, 'i, 'l) V2RayPoint \<Rightarrow>
     ('i point_event list \<times> ('s, 'i, 'l) V2RayPoint) go" where
  "start_services P n c v =
     go_bind (deref (RootModeConf c)) (\<lambda>r.
     go_bind (start_vpn n c ((start_escorts r v)\<lparr>interuptDeferto := 1\<rparr>)) (\<lambda>(evs1, v1).
     go_bind (start_scripts P c r v1) (\<lambda>(evs2, v2). Inr (ArmTimer # evs1 @ evs2, v2))))"

text \<open>From a loaded configuration on: the export, the core, the services, the report.\<close>

definition start_point ::
  "('cfg, 'i, 'e) platform \<Rightarrow> ('e2, 'c, 'w::len word) net \<Rightarrow> 'cfg \<Rightarrow> ('s, 'i, 'l) V2RayPoint \<Rightarrow> fs \<Rightarrow>
     (('s, 'i, 'l) V2RayPoint \<times> fs \<times> 'i point_event list) go" where
  "start_point P n cfg v s =
     go_bind (CheckAndExport (AssetDir P) (RestoreAsset P) \<lparr>fr_status = Some (status v)\<rparr> s) (\<lambda>(s', _).
     (let inst = core_New P cfg;
          v1 = v\<lparr>status := (status v)\<lparr>Vpoint := Some inst, IsRunning := True\<rparr>\<rparr> in
      go_bind (may_panic (core_Start P inst)) (\<lambda>_.
      go_bind (case confng v1 of None \<Rightarrow> Inr ([], v1) | Some c \<Rightarrow> start_services P n c v1) (\<lambda>(evs, v2).
      go_bind (emit_status 0 ''Running'' v2) (\<lambda>e. Inr (v2, s', CoreStart inst # evs @ e))))))"

definition pointloop ::
  "('cfg, 'i, 'e) platform \<Rightarrow> ('e2, 'c, 'w::len word) net \<Rightarrow> ('s, 'i, 'l) V2RayPoint \<Rightarrow> fs \<Rightarrow>
     (('s, 'i, 'l) V2RayPoint \<times> fs \<times> 'i point_event list) go" where
  "pointloop P n v s =
     go_bind (load_config P (v\<lparr>status := (status v)\<lparr>VpnSupportnodup := False\<rparr>\<rparr>) s) (\<lambda>l.
       (case l of
          GaveUp v s \<Rightarrow> Inr (v, s, [])
        | Loaded cfg v s \<Rightarrow> start_point P n cfg v s))"

section \<open>The stop loop\<close>

text \<open>
  \<open>ls1\<close> and \<open>ls2\<close> are what the goroutines of the two escorts do while \<open>EscortingDown\<close> is called on
  them. A stop that does not return leaves the loop waiting where it is.
\<close>

definition stop_services ::
  "elabel list \<Rightarrow> elabel list \<Rightarrow> int \<Rightarrow> ('s, 'i, 'l) V2RayPoint \<Rightarrow>
     ('i point_event list \<times> ('s, 'i, 'l) V2RayPoint stop) go" where
  "stop_services ls1 ls2 fd v =
     go_bind (VpnShutdown ls1 fd ((VPNSupports v)\<lparr>vpn_status := share (status v) (vpn_status (VPNSupports v))\<rparr>)) (\<lambda>(evs, r).
       (case r of
          Waiting w \<Rightarrow> Inr (map VpnEv evs, Waiting (v\<lparr>VPNSupports := w\<rparr>))
        | Stopped w \<Rightarrow>
            (let v1 = v\<lparr>VPNSupports := w, status := (case vpn_status w of None \<Rightarrow> status v | Some st \<Rightarrow> st)\<rparr> in
             go_bind (EscortingDown ls2 ((escorter_run v1)\<lparr>es_running := IsRunning (status v1)\<rparr>)) (\<lambda>r2.
               Inr (map VpnEv evs, map_stop (\<lambda>t. v1\<lparr>escorter_run := t\<rparr>) r2)))))"

definition down_script ::
  "('cfg, 'i, 'e) platform \<Rightarrow> ('s, 'i, 'l) V2RayPoint \<Rightarrow> 'i point_event list go" where
  "down_script P v =
     go_bind (RunDownScript (proxy_uid P) (script_order P) (os_Environ P)
       ((UpdownScripts v)\<lparr>ud_status := share (status v) (ud_status (UpdownScripts v))\<rparr>)) (\<lambda>cmd. Inr [RunScript cmd])"

definition stop_parts ::
  "('cfg, 'i, 'e) platform \<Rightarrow> elabel list \<Rightarrow> elabel list \<Rightarrow> int \<Rightarrow> ('s, 'i, 'l) V2RayPoint \<Rightarrow>
     ('i point_event list \<times> ('s, 'i, 'l) V2RayPoint stop) go" where
  "stop_parts P ls1 ls2 fd v =
     (if confng v = None then Inr ([], Stopped v)
      else go_bind (down_script P v) (\<lambda>e1.
           go_bind (stop_services ls1 ls2 fd v) (\<lambda>(e2, r). Inr (e1 @ e2, r))))"

definition stopLoopW ::
  "('cfg, 'i, 'e) platform \<Rightarrow> elabel list \<Rightarrow> elabel list \<Rightarrow> int \<Rightarrow> ('s, 'i, 'l) V2RayPoint \<Rightarrow>
     ('i point_event list \<times> ('s, 'i, 'l) V2RayPoint stop) go" where
  "stopLoopW P ls1 ls2 fd v0 =
     (let v = v0\<lparr>status := (status v0)\<lparr>IsRunning := False\<rparr>\<rparr> in
      go_bind (deref (Vpoint (status v))) (\<lambda>inst.
      go_bind (may_panic (core_Close P inst)) (\<lambda>_.
      go_bind (stop_parts P ls1 ls2 fd v) (\<lambda>(evs, r).
        (case r of
           Waiting v' \<Rightarrow> Inr (CoreClose inst # evs, Waiting v')
         | Stopped v' \<Rightarrow> go_bind (emit_status 0 ''Closed'' v') (\<lambda>e. Inr (CoreClose inst # evs @ e, Stopped v')))))))"

section \<open>Calls of the application\<close>

text \<open>\<open>True\<close> when the loop is started, which then runs on its own.\<close>

definition RunLoop :: "('s, 'i, 'l) V2RayPoint \<Rightarrow> ('s, 'i, 'l) V2RayPoint \<times> bool" where
  "RunLoop v =
     (let v' = (if Context v = None
                then v\<lparr>Context := Some \<lparr>configureFile = [], Callbacks = False, ctx_Status = None\<rparr>,
                       status := (status v)\<lparr>PackageName := pt_PackageName v\<rparr>\<rparr>
                else v)
      in (v', \<not> IsRunning (status v')))"

definition StopLoop :: "('s, 'i, 'l) V2RayPoint \<Rightarrow> bool" where
  "StopLoop v = IsRunning (status v)"

definition UpgradeToContext :: "('s, 'i, 'l) V2RayPoint \<Rightarrow> ('s, 'i, 'l) V2RayPoint" where
  "UpgradeToContext v =
     (if Context v = None
      then v\<lparr>Context := Some \<lparr>configureFile = [], Callbacks = False, ctx_Status = Some (status v)\<rparr>\<rparr>
      else v)"

definition GetIsRunning :: "('s, 'i, 'l) V2RayPoint \<Rightarrow> bool" where
  "GetIsRunning v = IsRunning (status v)"

definition pt_VpnSupportReady ::
  "'l \<Rightarrow> int \<Rightarrow> ('s, 'i, 'l) V2RayPoint \<Rightarrow> ('i point_event list \<times> ('s, 'i, 'l) V2RayPoint) go" where
  "pt_VpnSupportReady lower fd = with_vpn (VpnSupportReady lower fd)"

definition SetVpnSupportSet :: "'s option \<Rightarrow> ('s, 'i, 'l) V2RayPoint \<Rightarrow> ('s, 'i, 'l) V2RayPoint" where
  "SetVpnSupportSet vs v = v\<lparr>VPNSupports := (VPNSupports v)\<lparr>VpnSupportSet := vs\<rparr>\<rparr>"

definition pt_OptinNextGenerationTunInterface :: "('s, 'i, 'l) V2RayPoint \<Rightarrow> ('s, 'i, 'l) V2RayPoint" where
  "pt_OptinNextGenerationTunInterface v =
     v\<lparr>VPNSupports := OptinNextGenerationTunInterface (VPNSupports v)\<rparr>"

end
