(* ===== verification/PointProps.thy ===== *)
theory PointProps
  imports Point
begin

text \<open>
  Properties of the point server: what is loaded, a whole session from the main loop to the stop
  loop, the configurations for which the main loop cannot fail on a missing part, and the ways in
  which a session goes wrong.
\<close>

section \<open>Loading\<close>

lemma strings_HasSuffix_json:
  assumes "strings_HasSuffix cf ''.json''"
  shows "GuessConfigType cf = Some FullJsonFile" and "cf \<noteq> []"
proof -
  have last: "last cf = CHR ''n''"
    using assms by (auto simp: strings_HasSuffix_def suffix_def)
  then have "\<not> suffix ''.LibV2RaySimpleProtoV1.pb'' cf" "\<not> suffix ''.pb'' cf"
    by (auto simp: suffix_def)
  with assms show "GuessConfigType cf = Some FullJsonFile"
    by (simp add: GuessConfigType_def strings_HasSuffix_def)
  from assms show "cf \<noteq> []" by (auto simp: strings_HasSuffix_def)
qed

lemma GetConfigureFile_cached:
  assumes "GetConfigureFile vc s = Inr (vc', s', cf)" and "cf \<noteq> []"
  shows "GetConfigureFile (vc'\<lparr>ctx_Status := st\<rparr>) t = Inr (vc'\<lparr>ctx_Status := st\<rparr>, t, cf)"
  using assms by (auto simp: GetConfigureFile_def go_bind_Inr_iff Let_def split: if_splits)

lemma GetConfigureFile_status:
  "GetConfigureFile vc s = Inr (vc', s', cf) \<Longrightarrow> ctx_Status vc' = ctx_Status vc"
  by (auto simp: GetConfigureFile_def go_bind_Inr_iff Let_def split: if_splits)

text \<open>
  C5. The selected JSON file: the core is given what it reads from the file the context has
  selected, and the escorts, scripts and VPN service what the converter makes of the same file with
  the data directory of the package; nothing else of the point server changes.
\<close>

theorem json_file_loaded:
  assumes "\<not> strings_HasPrefix (ConfigureFile v) ''V2Ray_internal''" and "Context v = Some vc"
    and "GetConfigureFile (vc\<lparr>ctx_Status := share (status v) (ctx_Status vc)\<rparr>) s = Inr (vc', s1, cf)"
    and "strings_HasSuffix cf ''.json''" and "ioutil_ReadFile s1 cf = Inr content"
    and "Parse (strip_comments P) (json_decode P) (proxy_uid P) (parse_order P)
       (zero_converter\<lparr>Datadir := PackageName (status v), reading := content\<rparr>, s1) = Inr ((jc, s2), e)"
    and "ToPb jc = Inr pb" and "LoadJSONConfig P (ioutil_ReadFile s2 cf) = Some cfg"
  shows "load_config P v s = Inr (Loaded cfg (v\<lparr>Context := Some vc', confng := pb\<rparr>) s2)"
proof -
  note json = strings_HasSuffix_json [OF assms(4)]
  have "vc'\<lparr>ctx_Status := share (status v) (ctx_Status vc')\<rparr> = vc'"
    using GetConfigureFile_status [OF assms(3)] by (cases "ctx_Status vc") simp_all
  with GetConfigureFile_cached [OF assms(3) json(2), of "share (status v) (ctx_Status vc')" s1]
  have again: "GetConfigureFile (vc'\<lparr>ctx_Status := share (status v) (ctx_Status vc')\<rparr>) s1 = Inr (vc', s1, cf)"
    by simp
  show ?thesis
    using assms json again
    by (simp add: load_config_def context_file_def load_json_file_def confng_of_json_def
        LoadFromFile_def new_converter_def)
qed

section \<open>Configurations that cannot fail on a missing part\<close>

definition complete_conf :: "LibV2RayConf \<Rightarrow> bool" where
  "complete_conf c \<longleftrightarrow>
     (\<exists>r u vpn svc d. RootModeConf c = Some r \<and> RootModeConfig.Scripts r = Some u \<and> VpnConf c = Some vpn \<and>
        Service vpn = Some svc \<and> PreparedDomainName vpn = Some d)"

lemma ConvertToPb_complete: "ConvertToPb l = Inr c \<Longrightarrow> complete_conf c"
  by (auto simp: ConvertToPb_def go_bind_Inr_iff complete_conf_def)

lemma RunUpScript_ok:
  assumes "ud_status u = Some st" and "ud_Configure u = Some c"
  shows "\<exists>cmd. RunUpScript uid it environ u = Inr cmd \<and> cmd_path cmd = ''/system/bin/sh'' \<and> cmd_args cmd = [''-c'', UpScript c]"
    and "\<exists>cmd. RunDownScript uid it environ u = Inr cmd \<and> cmd_path cmd = ''/system/bin/sh'' \<and> cmd_args cmd = [''-c'', DownScript c]"
proof -
  have ctx: "ec_Context (ud_creater u) = Some st" using assms by (simp add: ud_creater_def)
  obtain e where "child_env uid it environ (ud_creater u) = Inr e"
    using child_env_ok [OF ctx] by blast
  then show "\<exists>cmd. RunUpScript uid it environ u = Inr cmd \<and> cmd_path cmd = ''/system/bin/sh'' \<and> cmd_args cmd = [''-c'', UpScript c]"
    and "\<exists>cmd. RunDownScript uid it environ u = Inr cmd \<and> cmd_path cmd = ''/system/bin/sh'' \<and> cmd_args cmd = [''-c'', DownScript c]"
    using assms(2) ctx
    by (simp_all add: RunUpScript_def RunDownScript_def run_script_def Runbash_def AddEnvironment_Some)
qed

lemma VpnSetup_ok:
  assumes "Service (vpn_Conf w) = Some svc" and "PreparedDomainName (vpn_Conf w) = Some d"
    and "VPNSetupArg svc \<noteq> [] \<longrightarrow> VpnSupportSet w \<noteq> None"
  shows "\<exists>p. VpnSetup n w = Inr (if VPNSetupArg svc = [] then [] else [PrepareEv], w\<lparr>prepareddomain := p\<rparr>)"
proof (cases "VPNSetupArg svc = []")
  case True
  with assms(1) show ?thesis by (intro exI [of _ "prepareddomain w"]) (simp add: VpnSetup_def)
next
  case False
  with assms obtain x where "VpnSupportSet w = Some x" by auto
  with False assms(1,2) show ?thesis
    by (simp add: VpnSetup_def prepareDomainName_def askSupportSetInit_def) blast
qed

lemma start_services_ok:
  assumes "RootModeConf c = Some r" and "RootModeConfig.Scripts r = Some u" and "VpnConf c = Some vpn"
    and "Service vpn = Some svc" and "PreparedDomainName vpn = Some d"
    and "VPNSetupArg svc \<noteq> [] \<longrightarrow> VpnSupportSet (VPNSupports v) \<noteq> None"
  shows "\<exists>p cmd. start_services P n c v =
     Inr (ArmTimer # (if VPNSetupArg svc = [] then [] else [VpnEv PrepareEv]) @ [RunScript cmd],
       (start_escorts r v)\<lparr>interuptDeferto := 1,
         VPNSupports := (VPNSupports v)\<lparr>vpn_Conf := vpn, vpn_status := Some (status v), prepareddomain := p\<rparr>,
         UpdownScripts := (UpdownScripts v)\<lparr>ud_status := Some (status v), ud_Configure := Some u, ud_Env := LibV2RayConf.Env c\<rparr>\<rparr>) \<and>
     cmd_path cmd = ''/system/bin/sh'' \<and> cmd_args cmd = [''-c'', UpScript u]"
proof -
  let ?w = "(VPNSupports v)\<lparr>vpn_Conf := vpn, vpn_status := Some (status v)\<rparr>"
  let ?u = "(UpdownScripts v)\<lparr>ud_status := Some (status v), ud_Configure := Some u, ud_Env := LibV2RayConf.Env c\<rparr>"
  obtain p where p: "VpnSetup n ?w =
      Inr (if VPNSetupArg svc = [] then [] else [PrepareEv], ?w\<lparr>prepareddomain := p\<rparr>)"
    using VpnSetup_ok [of ?w svc d n] assms by auto
  obtain cmd where "RunUpScript (proxy_uid P) (script_order P) (os_Environ P) ?u = Inr cmd"
    "cmd_path cmd = ''/system/bin/sh''" "cmd_args cmd = [''-c'', UpScript u]"
    using RunUpScript_ok(1) [of ?u "status v" u "proxy_uid P" "script_order P" "os_Environ P"] by auto
  with p assms(1-3) show ?thesis
    by (auto simp: start_services_def start_vpn_def with_vpn_def start_scripts_def start_escorts_def
        vpn_SetStatus_def ud_SetStatus_def Let_def)
qed

text \<open>The escorts of a point server whose escort object has no status: none has started anything.\<close>

lemma start_escorts_statusless:
  assumes "esc_status (escorter v) = None" and "procs (escorter_run v) = None" and "runners (escorter_run v) = []"
  shows "statusless (escorter_run (start_escorts r v)) \<and>
     runners (escorter_run (start_escorts r v)) = map (\<lambda>e. new_runner (ep_Forgiveable e)) (Configure.Escorting r) \<and>
     crashed (escorter_run (start_escorts r v)) = crashed (escorter_run v)"
  using assms by (auto simp: start_escorts_def statusless_def new_runner_def)

lemma statusless_panic:
  assumes "statusless s" and "i < length (runners s)"
  shows "\<exists>t. estep (BuildEnv i) s = Some t \<and> crashed t"
  using assms by (simp add: statusless_def runner_in_def build_env_def)

text \<open>
  C17. Converted configurations: what the converter makes of a JSON configuration has every part the
  main loop follows, so with a VPN service in place the services are started: the timer is armed,
  the VPN service prepared if the configuration wants it to be, and the up script run. The escorted
  processes are not: each has its goroutine, but in every state the goroutines reach no process has
  been started, and the next step of any of them ends the program.
\<close>

theorem converted_services_start:
  assumes "ConvertToPb l = Inr c" and "VpnSupportSet (VPNSupports v) \<noteq> None"
    and "esc_status (escorter v) = None" and "procs (escorter_run v) = None" and "runners (escorter_run v) = []"
  shows "\<exists>r u vpn svc v' cmd. RootModeConf c = Some r \<and> RootModeConfig.Scripts r = Some u \<and>
    VpnConf c = Some vpn \<and> Service vpn = Some svc \<and>
    start_services P n c v =
      Inr (ArmTimer # (if VPNSetupArg svc = [] then [] else [VpnEv PrepareEv]) @ [RunScript cmd], v') \<and>
    cmd_path cmd = ''/system/bin/sh'' \<and> cmd_args cmd = [''-c'', UpScript u] \<and>
    vpn_Conf (VPNSupports v') = vpn \<and> interuptDeferto v' = 1 \<and>
    length (runners (escorter_run v')) = length (Configure.Escorting r) \<and>
    (\<forall>s i. ereach (escorter_run v') s \<longrightarrow> procs s \<in> {None, Some []} \<and>
       (i < length (runners s) \<longrightarrow> (\<exists>t. estep (BuildEnv i) s = Some t \<and> crashed t)))"
proof -
  from ConvertToPb_complete [OF assms(1)] obtain r u vpn svc d where
    parts: "RootModeConf c = Some r" "RootModeConfig.Scripts r = Some u" "VpnConf c = Some vpn"
    "Service vpn = Some svc" "PreparedDomainName vpn = Some d"
    by (auto simp: complete_conf_def)
  have arg: "VPNSetupArg svc \<noteq> [] \<longrightarrow> VpnSupportSet (VPNSupports v) \<noteq> None" using assms(2) by simp
  from start_services_ok [OF parts arg, of P n] obtain p cmd where
    ok: "start_services P n c v =
     Inr (ArmTimer # (if VPNSetupArg svc = [] then [] else [VpnEv PrepareEv]) @ [RunScript cmd],
       (start_escorts r v)\<lparr>interuptDeferto := 1,
         VPNSupports := (VPNSupports v)\<lparr>vpn_Conf := vpn, vpn_status := Some (status v), prepareddomain := p\<rparr>,
         UpdownScripts := (UpdownScripts v)\<lparr>ud_status := Some (status v), ud_Configure := Some u, ud_Env := LibV2RayConf.Env c\<rparr>\<rparr>)"
    "cmd_path cmd = ''/system/bin/sh''" "cmd_args cmd = [''-c'', UpScript u]"
    by blast
  define v' where "v' = (start_escorts r v)\<lparr>interuptDeferto := 1,
         VPNSupports := (VPNSupports v)\<lparr>vpn_Conf := vpn, vpn_status := Some (status v), prepareddomain := p\<rparr>,
         UpdownScripts := (UpdownScripts v)\<lparr>ud_status := Some (status v), ud_Configure := Some u, ud_Env := LibV2RayConf.Env c\<rparr>\<rparr>"
  have run: "start_services P n c v =
      Inr (ArmTimer # (if VPNSetupArg svc = [] then [] else [VpnEv PrepareEv]) @ [RunScript cmd], v')"
    "vpn_Conf (VPNSupports v') = vpn" "interuptDeferto v' = 1"
    "escorter_run v' = escorter_run (start_escorts r v)"
    using ok(1) by (simp_all add: v'_def)
  note esc = start_escorts_statusless [OF assms(3-5), of r]
  have "procs s \<in> {None, Some []} \<and>
      (i < length (runners s) \<longrightarrow> (\<exists>t. estep (BuildEnv i) s = Some t \<and> crashed t))"
    if "ereach (escorter_run v') s" for s i
  proof -
    have "statusless (escorter_run v')" unfolding run(4) using esc by (rule conjunct1)
    from statusless_forever [OF this that] have s: "statusless s" .
    then have "procs s \<in> {None, Some []}" unfolding statusless_def by (elim conjE)
    with statusless_panic [OF s] show ?thesis by blast
  qed
  moreover have "length (runners (escorter_run v')) = length (Configure.Escorting r)"
    using esc unfolding run(4) by simp
  ultimately show ?thesis using parts run(1-3) ok(2,3) by blast
qed

section \<open>A session\<close>

lemma CheckAndExport_total: "\<exists>s' e. CheckAndExport a r \<lparr>fr_status = Some st\<rparr> s = Inr (s', e)"
  by (auto simp: CheckAndExport_def checkIfRcExist_def Let_def split: sum.split prod.split option.split)

lemma pointloop_loaded:
  assumes "load_config P (v\<lparr>status := (status v)\<lparr>VpnSupportnodup := False\<rparr>\<rparr>) s = Inr (Loaded cfg v2 s2)"
    and "core_Start P (core_New P cfg) = None" and "has_Callbacks v3"
    and "(case confng v2 of None \<Rightarrow> Inr ([], v2\<lparr>status := (status v2)\<lparr>Vpoint := Some (core_New P cfg), IsRunning := True\<rparr>\<rparr>)
          | Some c \<Rightarrow> start_services P n c (v2\<lparr>status := (status v2)\<lparr>Vpoint := Some (core_New P cfg), IsRunning := True\<rparr>\<rparr>)) =
         Inr (evs, v3)"
  shows "\<exists>s3. pointloop P n v s = Inr (v3, s3, CoreStart (core_New P cfg) # evs @ [OnEmitStatus 0 ''Running''])"
proof -
  obtain s' e where "CheckAndExport (AssetDir P) (RestoreAsset P) \<lparr>fr_status = Some (status v2)\<rparr> s2 = Inr (s', e)"
    using CheckAndExport_total by blast
  with assms show ?thesis
    by (simp add: pointloop_def start_point_def emit_status_def)
qed

text \<open>The escort of the tunnel process, as the main part of the point server sees it at a stop.\<close>

definition with_tunnel :: "esys \<Rightarrow> ('s, 'i, 'l) V2RayPoint \<Rightarrow> ('s, 'i, 'l) V2RayPoint" where
  "with_tunnel es v = v\<lparr>VPNSupports := (VPNSupports v)\<lparr>Estr := Some es\<rparr>\<rparr>"

text \<open>
  The stop loop of a running session whose VPN service runs the shipped tunnel process.
\<close>

lemma stopLoopW_session:
  assumes "Vpoint (status v) = Some i" and "core_Close P i = None" and "has_Callbacks v"
    and "confng v \<noteq> None" and "ud_status (UpdownScripts v) \<noteq> None" and "ud_Configure (UpdownScripts v) = Some u"
    and "Service (vpn_Conf (VPNSupports v)) = Some svc" and "VPNSetupArg svc \<noteq> []"
    and "VpnSupportSet (VPNSupports v) = Some x" and "vpn_status (VPNSupports v) \<noteq> None"
    and "\<not> usewaVingOceanVPNBackend (VPNSupports v)" and "Estr (VPNSupports v) = Some es"
    and tunnel: "calm_reach es" "\<not> crashed es" "procs es = Some ps" "None \<notin> set ps" "down_sending es = 0"
      "down_clearing es = 0"
    and escorts: "procs (escorter_run v) = Some []" "0 < closers_waiting (escorter_run v)"
      "\<not> crashed (escorter_run v)" "down_sending (escorter_run v) = 0" "down_clearing (escorter_run v) = 0"
  shows "\<exists>down w t. stopLoopW P [CloserGetsDown, DownClears] [CloserGetsDown, DownClears] fd v =
      Inr ([CoreClose i, RunScript down, VpnEv (CloseFd fd), VpnEv ShutdownEv, OnEmitStatus 0 ''Closed''], Stopped w) \<and>
    cmd_path down = ''/system/bin/sh'' \<and> cmd_args down = [''-c'', DownScript u] \<and>
    \<not> GetIsRunning w \<and> procs (escorter_run w) = None \<and>
    Estr (VPNSupports w) = Some t \<and> procs t = None \<and> killed t = killed es @ map the ps"
proof -
  define st where "st = (status v)\<lparr>IsRunning := False\<rparr>"
  obtain y where y: "vpn_status (VPNSupports v) = Some y" using assms(10) by auto
  obtain z where z: "ud_status (UpdownScripts v) = Some z" using assms(5) by auto
  obtain down where down: "down_script P (v\<lparr>status := st\<rparr>) = Inr [RunScript down]"
    "cmd_path down = ''/system/bin/sh''" "cmd_args down = [''-c'', DownScript u]"
    using RunUpScript_ok(2) [of "(UpdownScripts v)\<lparr>ud_status := Some st\<rparr>" st u
        "proxy_uid P" "script_order P" "os_Environ P"] z assms(6)
    by (auto simp: down_script_def)
  obtain t where t: "EscortingDown [CloserGetsDown, DownClears] (sync_running (Some st) es) = Inr (Stopped t)"
    "procs t = None" "killed t = killed es @ map the ps"
    using EscortingDown_calm [OF calm_sync [OF tunnel(1,2)], of "Some st" ps] tunnel by auto
  obtain t' where t': "EscortingDown [CloserGetsDown, DownClears]
      ((escorter_run v)\<lparr>es_running := False\<rparr>) = Inr (Stopped t')" "procs t' = None"
    using escorts by (simp add: EscortingDown_def down_call_def Let_def)
  show ?thesis
    using assms(1-4,7-9,11,12) y down t t'
    by (simp add: stopLoopW_def stop_parts_def stop_services_def VpnShutdown_def stop_backend_def
        shutdown_done_def emit_status_def GetIsRunning_def st_def Let_def)
qed

text \<open>
  C1. A whole session: with a complete configuration without escorts whose VPN service is set up,
  the main loop starts the core, prepares the VPN service, runs the up script and reports running;
  when the Java side is ready the goroutine of the tunnel process is started. Then let that process
  be started and restarted in any way, as long as no alarm is raised and every start succeeds: the
  stop loop closes the same core, runs the down script, closes the tunnel, kills every process of
  the tunnel's list and reports closed, after which the point server is not running and the process
  lists of both escorts are gone.
\<close>

theorem vpn_session:
  assumes "load_config P (v\<lparr>status := (status v)\<lparr>VpnSupportnodup := False\<rparr>\<rparr>) s = Inr (Loaded cfg v2 s2)"
    and "core_Start P (core_New P cfg) = None" and "core_Close P (core_New P cfg) = None"
    and "has_Callbacks v2" and "confng v2 = Some c"
    and "RootModeConf c = Some r" and "RootModeConfig.Scripts r = Some u" and "Configure.Escorting r = []"
    and "VpnConf c = Some vpn" and "Service vpn = Some svc" and "PreparedDomainName vpn = Some d"
    and "VPNSetupArg svc \<noteq> []" and "VpnSupportSet (VPNSupports v2) = Some x"
    and "\<not> usewaVingOceanVPNBackend (VPNSupports v2)" and "\<not> VpnSupportnodup (status v2)"
    and "escorter_run v2 = esys_init\<lparr>has_status := False\<rparr>"
  shows "\<exists>v3 s3 v4 up i. i = core_New P cfg \<and>
    pointloop P n v s = Inr (v3, s3,
      [CoreStart i, ArmTimer, VpnEv PrepareEv, RunScript up, OnEmitStatus 0 ''Running'']) \<and>
    GetIsRunning v3 \<and> cmd_path up = ''/system/bin/sh'' \<and> cmd_args up = [''-c'', UpScript u] \<and>
    pt_VpnSupportReady lower fd v3 = Inr (map VpnEv
      [SetupEv (VPNSetupArg svc), UseDialer, SpawnEscort (vs_Target svc) (vs_Args svc) fd], v4) \<and>
    IsRunning (status v4) \<and> Estr (VPNSupports v4) = Some (new_estr (Some (status v4))) \<and>
    (\<forall>ls es ps. calm_run ls (new_estr (Some (status v4))) = Some es \<and> \<not> crashed es \<and> down_sending es = 0 \<and> down_clearing es = 0 \<and>
       procs es = Some ps \<and> None \<notin> set ps \<longrightarrow>
       (\<exists>down v5 t. stopLoopW P [CloserGetsDown, DownClears] [CloserGetsDown, DownClears] fd (with_tunnel es v4) =
          Inr ([CoreClose i, RunScript down, VpnEv (CloseFd fd), VpnEv ShutdownEv, OnEmitStatus 0 ''Closed''], Stopped v5) \<and>
        cmd_path down = ''/system/bin/sh'' \<and> cmd_args down = [''-c'', DownScript u] \<and>
        \<not> GetIsRunning v5 \<and> procs (escorter_run v5) = None \<and>
        Estr (VPNSupports v5) = Some t \<and> procs t = None \<and> killed t = killed es @ map the ps))"
proof -
  define i where "i = core_New P cfg"
  define st where "st = (status v2)\<lparr>Vpoint := Some i, IsRunning := True\<rparr>"
  define vs where "vs = v2\<lparr>status := st\<rparr>"
  have arg: "VPNSetupArg svc \<noteq> [] \<longrightarrow> VpnSupportSet (VPNSupports vs) \<noteq> None"
    using assms(13) by (simp add: vs_def)
  from start_services_ok [OF assms(6,7,9,10,11) arg, of P n] assms(12) obtain p up where
    up: "start_services P n c vs = Inr ([ArmTimer, VpnEv PrepareEv, RunScript up],
       (start_escorts r vs)\<lparr>interuptDeferto := 1,
         VPNSupports := (VPNSupports vs)\<lparr>vpn_Conf := vpn, vpn_status := Some (status vs), prepareddomain := p\<rparr>,
         UpdownScripts := (UpdownScripts vs)\<lparr>ud_status := Some (status vs), ud_Configure := Some u, ud_Env := LibV2RayConf.Env c\<rparr>\<rparr>)"
    "cmd_path up = ''/system/bin/sh''" "cmd_args up = [''-c'', UpScript u]"
    by auto
  define w where "w = (VPNSupports v2)\<lparr>vpn_Conf := vpn, vpn_status := Some st, prepareddomain := p\<rparr>"
  define uds where "uds = (UpdownScripts v2)\<lparr>ud_status := Some st, ud_Configure := Some u, ud_Env := LibV2RayConf.Env c\<rparr>"
  define run where "run = escorter_run (start_escorts r vs)"
  define v3 where "v3 = v2\<lparr>status := st, escorter := (escorter v2)\<lparr>esc_Configure := []\<rparr>,
    escorter_run := run, interuptDeferto := 1, VPNSupports := w, UpdownScripts := uds\<rparr>"
  have run: "procs run = Some []" "0 < closers_waiting run" "\<not> crashed run" "down_sending run = 0" "down_clearing run = 0"
    using assms(16) by (simp_all add: run_def start_escorts_def vs_def esys_init_def)
  have esc: "start_escorts r vs = v2\<lparr>status := st, escorter := (escorter v2)\<lparr>esc_Configure := []\<rparr>, escorter_run := run\<rparr>"
    using assms(8) by (simp add: start_escorts_def vs_def run_def)
  have services: "start_services P n c vs = Inr ([ArmTimer, VpnEv PrepareEv, RunScript up], v3)"
    using up(1) unfolding esc by (simp add: v3_def w_def uds_def vs_def)
  from pointloop_loaded [OF assms(1,2), of v3 n] services assms(4,5) obtain s3 where
    loop: "pointloop P n v s = Inr (v3, s3,
      [CoreStart i, ArmTimer, VpnEv PrepareEv, RunScript up, OnEmitStatus 0 ''Running''])"
    by (auto simp: v3_def vs_def st_def i_def)
  define v4 where "v4 = with_tunnel (new_estr (Some st)) v3"
  have ready: "pt_VpnSupportReady lower fd v3 = Inr (map VpnEv
      [SetupEv (VPNSetupArg svc), UseDialer, SpawnEscort (vs_Target svc) (vs_Args svc) fd], v4)"
    using assms(10,13-15)
    by (simp add: pt_VpnSupportReady_def with_vpn_def VpnSupportReady_def startVPNRequire_def with_tunnel_def
        v3_def v4_def w_def st_def)
  have sv: "status v4 = st" by (simp add: v4_def with_tunnel_def v3_def)
  have stop: "\<exists>down v5 t. stopLoopW P [CloserGetsDown, DownClears] [CloserGetsDown, DownClears] fd (with_tunnel es v4) =
      Inr ([CoreClose i, RunScript down, VpnEv (CloseFd fd), VpnEv ShutdownEv, OnEmitStatus 0 ''Closed''], Stopped v5) \<and>
    cmd_path down = ''/system/bin/sh'' \<and> cmd_args down = [''-c'', DownScript u] \<and>
    \<not> GetIsRunning v5 \<and> procs (escorter_run v5) = None \<and>
    Estr (VPNSupports v5) = Some t \<and> procs t = None \<and> killed t = killed es @ map the ps"
    if "calm_run ls (new_estr (Some (status v4))) = Some es \<and> \<not> crashed es \<and> down_sending es = 0 \<and> down_clearing es = 0 \<and>
       procs es = Some ps \<and> None \<notin> set ps" for ls es ps
  proof -
    have "calm_reach es" using that calm.run_reach [OF calm_reach_new_estr] by blast
    then show ?thesis
      using that run assms(3-5,10,12-14)
      by (intro stopLoopW_session [where svc = svc and x = x])
        (simp_all add: with_tunnel_def v4_def v3_def w_def uds_def st_def i_def)
  qed
  have "GetIsRunning v3" "IsRunning (status v4)" "Estr (VPNSupports v4) = Some (new_estr (Some (status v4)))"
    by (simp_all add: GetIsRunning_def sv) (simp_all add: v4_def with_tunnel_def v3_def st_def)
  with loop ready stop up(2,3) i_def show ?thesis by blast
qed

section \<open>Sessions that go wrong\<close>

text \<open>
  C38. The legacy way to name a file: a point server run without \<open>UpgradeToContext\<close> gets a context
  without a status, and unless the configuration is passed by content, the main loop panics on it
  before it has read anything; the file named by \<open>ConfigureFile\<close> is never looked at.
\<close>

theorem run_without_upgrade_panics:
  assumes "Context v = None" and "\<not> strings_HasPrefix (ConfigureFile v) ''V2Ray_internal''"
  shows "pointloop P n (fst (RunLoop v)) s = Inl NilDeref"
  using assms
  by (simp add: pointloop_def RunLoop_def load_config_def context_file_def GetConfigureFile_def ReadProp_def
      Let_def)

text \<open>
  C39. Two starts: as long as the first main loop has not set the running flag, a second \<open>RunLoop\<close>
  starts another one. With a plain configuration both start a core, and the stop loop closes only
  the second; the first goes on with nobody holding it.
\<close>

theorem double_start:
  assumes "load_config P (v1\<lparr>status := (status v1)\<lparr>VpnSupportnodup := False\<rparr>\<rparr>) s = Inr (Loaded cfg v2 s2)"
    and "load_config P' (v3\<lparr>status := (status v3)\<lparr>VpnSupportnodup := False\<rparr>\<rparr>) s3 = Inr (Loaded cfg' v4 s4)"
    and "confng v2 = None" and "confng v4 = None" and "has_Callbacks v2" and "has_Callbacks v4"
    and "core_Start P (core_New P cfg) = None" and "core_Start P' (core_New P' cfg') = None"
    and "core_Close P' (core_New P' cfg') = None"
    and "pointloop P n v1 s = Inr (v3, s3, evs)" and "RunLoop v = (v1, True)"
  shows "RunLoop v1 = (v1, True) \<and>
    (\<exists>v5 s5 v6. evs = [CoreStart (core_New P cfg), OnEmitStatus 0 ''Running''] \<and>
       pointloop P' n v3 s3 = Inr (v5, s5, [CoreStart (core_New P' cfg'), OnEmitStatus 0 ''Running'']) \<and>
       stopLoopW P' ls1 ls2 fd v5 = Inr ([CoreClose (core_New P' cfg'), OnEmitStatus 0 ''Closed''], Stopped v6))"
proof -
  let ?i = "core_New P cfg" and ?j = "core_New P' cfg'"
  let ?v5 = "v4\<lparr>status := (status v4)\<lparr>Vpoint := Some ?j, IsRunning := True\<rparr>\<rparr>"
  have "evs = [CoreStart ?i, OnEmitStatus 0 ''Running'']"
    using pointloop_loaded [OF assms(1,7), of "v2\<lparr>status := (status v2)\<lparr>Vpoint := Some ?i, IsRunning := True\<rparr>\<rparr>" n "[]"]
      assms(3,5,10) by auto
  moreover obtain s5 where "pointloop P' n v3 s3 = Inr (?v5, s5, [CoreStart ?j, OnEmitStatus 0 ''Running''])"
    using pointloop_loaded [OF assms(2,8), of ?v5 n "[]"] assms(4,6) by auto
  moreover have "stopLoopW P' ls1 ls2 fd ?v5 = Inr ([CoreClose ?j, OnEmitStatus 0 ''Closed''],
      Stopped (?v5\<lparr>status := (status ?v5)\<lparr>IsRunning := False\<rparr>\<rparr>))"
    using assms(4,6,9) by (simp add: stopLoopW_def stop_parts_def emit_status_def)
  moreover have "RunLoop v1 = (v1, True)"
    using assms(11) by (auto simp: RunLoop_def Let_def split: if_splits)
  ultimately show ?thesis by blast
qed

text \<open>The state a stop has left, whether it has returned or not.\<close>

fun stop_state :: "'a stop \<Rightarrow> 'a" where
  "stop_state (Stopped x) = x"
| "stop_state (Waiting x) = x"

lemma stop_state_map [simp]: "stop_state (map_stop f r) = f (stop_state r)"
  by (cases r) simp_all

text \<open>
  The states a point server reaches: every call of the application and both loops, with any of the
  platforms \<open>PS\<close> and networks \<open>NS\<close> at each step, and whatever the application writes to the
  exported fields or the escort goroutines do in between.
\<close>

inductive point_reach ::
  "('cfg, 'i, 'e) platform set \<Rightarrow> ('e2, 'c, 'w::len word) net set \<Rightarrow> ('s, 'i, 'l) V2RayPoint \<Rightarrow> bool"
  for PS NS where
  new: "point_reach PS NS NewV2RayPoint"
| loop: "point_reach PS NS v \<Longrightarrow> P \<in> PS \<Longrightarrow> n \<in> NS \<Longrightarrow> pointloop P n v s = Inr (v', s', evs) \<Longrightarrow>
    point_reach PS NS v'"
| stop: "point_reach PS NS v \<Longrightarrow> P \<in> PS \<Longrightarrow>
    stopLoopW P ls1 ls2 fd v = Inr (evs, r) \<Longrightarrow> point_reach PS NS (stop_state r)"
| run: "point_reach PS NS v \<Longrightarrow> RunLoop v = (v', b) \<Longrightarrow> point_reach PS NS v'"
| upgrade: "point_reach PS NS v \<Longrightarrow> point_reach PS NS (UpgradeToContext v)"
| ready: "point_reach PS NS v \<Longrightarrow> pt_VpnSupportReady lower fd v = Inr (evs, v') \<Longrightarrow> point_reach PS NS v'"
| supportset: "point_reach PS NS v \<Longrightarrow> point_reach PS NS (SetVpnSupportSet vs v)"
| optin: "point_reach PS NS v \<Longrightarrow> point_reach PS NS (pt_OptinNextGenerationTunInterface v)"
| fields: "point_reach PS NS v \<Longrightarrow> point_reach PS NS (v\<lparr>has_Callbacks := b, Context := cx, pt_PackageName := p,
    ConfigureFile := f, ConfigureFileContent := t, status := st, escorter_run := es, interuptDeferto := x,
    VPNSupports := w\<rparr>)"

inductive_cases point_reachE: "point_reach PS NS v"

text \<open>No operation gives the escort object a status.\<close>

lemma context_file_escorter [go_frame]:
  "context_file v s = Inr (v', s', cf) \<Longrightarrow> escorter v' = escorter v"
  by (auto simp: context_file_def go_bind_Inr_iff)

lemma load_config_escorter [go_frame]:
  assumes "load_config P v s = Inr l"
  shows "(\<forall>cfg v' s'. l = Loaded cfg v' s' \<longrightarrow> escorter v' = escorter v) \<and>
    (\<forall>v' s'. l = GaveUp v' s' \<longrightarrow> escorter v' = escorter v)"
proof -
  have json: "load_json_file P w t = Inr l \<Longrightarrow>
      (\<forall>cfg v' s'. l = Loaded cfg v' s' \<longrightarrow> escorter v' = escorter w) \<and> (\<forall>v' s'. l \<noteq> GaveUp v' s')" for w t
    by (auto simp: load_json_file_def go_bind_Inr_iff Let_def dest: context_file_escorter)
  have proto: "load_proto_file P w t = Inr l \<Longrightarrow>
      (\<forall>cfg v' s'. l = Loaded cfg v' s' \<longrightarrow> escorter v' = escorter w) \<and> (\<forall>v' s'. l \<noteq> GaveUp v' s')" for w t
    by (auto simp: load_proto_file_def go_bind_Inr_iff Let_def dest: context_file_escorter)
  have int: "load_internal P v s = Inr l \<Longrightarrow>
      (\<forall>cfg v' s'. l = Loaded cfg v' s' \<longrightarrow> escorter v' = escorter v) \<and> (\<forall>v' s'. l \<noteq> GaveUp v' s')"
    by (auto simp: load_internal_def go_bind_Inr_iff Let_def split: if_splits)
  show ?thesis
  proof (cases "strings_HasPrefix (ConfigureFile v) ''V2Ray_internal''")
    case True
    with assms int show ?thesis by (auto simp: load_config_def)
  next
    case False
    with assms obtain w t cf where "context_file v s = Inr (w, t, cf)"
      and l: "(case GuessConfigType cf of Some FullJsonFile \<Rightarrow> load_json_file P w t
        | Some FullProto \<Rightarrow> load_proto_file P w t | _ \<Rightarrow> Inr (GaveUp w t)) = Inr l"
      by (auto simp: load_config_def go_bind_Inr_iff)
    then have "escorter w = escorter v" by (simp add: context_file_escorter)
    with l json proto show ?thesis by (auto split: option.splits config_type.splits)
  qed
qed

lemma with_vpn_escorter [go_frame]: "with_vpn f v = Inr (evs, v') \<Longrightarrow> escorter v' = escorter v"
  by (auto simp: with_vpn_def go_bind_Inr_iff)

lemma start_services_escorter:
  "start_services P n c v = Inr (evs, v') \<Longrightarrow> esc_status (escorter v') = esc_status (escorter v)"
  by (auto simp: start_services_def start_vpn_def start_scripts_def start_escorts_def go_bind_Inr_iff Let_def
      dest!: with_vpn_escorter)

lemma pointloop_escorter:
  assumes "pointloop P n v s = Inr (v', s', evs)"
  shows "esc_status (escorter v') = esc_status (escorter v)"
proof -
  obtain l where l: "load_config P (v\<lparr>status := (status v)\<lparr>VpnSupportnodup := False\<rparr>\<rparr>) s = Inr l"
    "(case l of GaveUp v s \<Rightarrow> Inr (v, s, []) | Loaded cfg v s \<Rightarrow> start_point P n cfg v s) = Inr (v', s', evs)"
    using assms by (auto simp: pointloop_def go_bind_Inr_iff)
  note frame = load_config_escorter [OF l(1)]
  show ?thesis
  proof (cases l)
    case (Loaded cfg w t)
    with l(2) have "esc_status (escorter v') = esc_status (escorter w)"
      by (auto simp: start_point_def go_bind_Inr_iff Let_def dest: start_services_escorter split: option.splits)
    with frame Loaded show ?thesis by simp
  next
    case (GaveUp w t)
    with frame l(2) show ?thesis by simp
  qed
qed

lemma stop_services_escorter:
  assumes "stop_services ls1 ls2 fd v = Inr (evs, r)"
  shows "escorter (stop_state r) = escorter v"
proof -
  obtain e q where q: "VpnShutdown ls1 fd ((VPNSupports v)\<lparr>vpn_status := share (status v) (vpn_status (VPNSupports v))\<rparr>) = Inr (e, q)"
    using assms by (auto simp: stop_services_def go_bind_Inr_iff)
  with assms show ?thesis
    by (cases q) (auto simp: stop_services_def go_bind_Inr_iff Let_def)
qed

lemma stopLoopW_escorter:
  assumes "stopLoopW P ls1 ls2 fd v = Inr (evs, r)"
  shows "escorter (stop_state r) = escorter v"
proof -
  let ?v = "v\<lparr>status := (status v)\<lparr>IsRunning := False\<rparr>\<rparr>"
  obtain i e q where q: "stop_parts P ls1 ls2 fd ?v = Inr (e, q)"
    and r: "(case q of Waiting v' \<Rightarrow> Inr (CoreClose i # e, Waiting v')
      | Stopped v' \<Rightarrow> go_bind (emit_status 0 ''Closed'' v') (\<lambda>em. Inr (CoreClose i # e @ em, Stopped v'))) = Inr (evs, r)"
    using assms by (auto simp: stopLoopW_def Let_def go_bind_Inr_iff)
  have "stop_state r = stop_state q"
    using r by (cases q) (auto simp: go_bind_Inr_iff)
  moreover have "escorter (stop_state q) = escorter ?v"
    using q by (auto simp: stop_parts_def go_bind_Inr_iff split: if_splits dest: stop_services_escorter)
  ultimately show ?thesis by simp
qed

lemma point_reach_no_status: "point_reach PS NS v \<Longrightarrow> esc_status (escorter v) = None"
proof (induction rule: point_reach.induct)
  case new
  show ?case by (simp add: NewV2RayPoint_def NewEscort_def)
next
  case (loop v P n s v' s' evs)
  then show ?case by (simp add: pointloop_escorter)
next
  case (stop v P ls1 ls2 fd evs r)
  then show ?case by (simp add: stopLoopW_escorter)
next
  case (run v v' b)
  then show ?case by (auto simp: RunLoop_def Let_def split: if_splits)
next
  case (ready v lower fd evs v')
  then have "escorter v' = escorter v" by (simp add: pt_VpnSupportReady_def with_vpn_escorter [of _ v])
  with ready show ?case by simp
qed (simp_all add: UpgradeToContext_def SetVpnSupportSet_def pt_OptinNextGenerationTunInterface_def)

text \<open>
  C21. Escorted processes never start: whatever the application does, the escort object of the point
  server has no status, so the goroutine the main loop starts for an escorted process panics while
  it builds the environment, before any process is started.
\<close>

theorem escorts_always_panic:
  assumes "point_reach PS NS v"
  shows "EscortRun uid it environ (escorter v) proc pt forg tapfd rounds running = Inl NilDeref"
  using point_reach_no_status [OF assms] by (rule EscortRun_nil_status)

section \<open>Instances\<close>

text \<open>A platform on which everything succeeds, and a configuration with a VPN service.\<close>

definition demo_conf :: LibV2RayConf where
  "demo_conf = \<lparr>NoAutoConvert = True,
     VpnConf = Some \<lparr>Service = Some demo_service, PreparedDomainName = Some (demo_fix [])\<rparr>,
     RootModeConf = Some \<lparr>RootModeConfig.Escorting = [], Scripts = Some \<lparr>UpScript = ''#up'', DownScript = ''#down''\<rparr>\<rparr>,
     Env = Some \<lparr>Vars = Map.empty\<rparr>\<rparr>"

definition demo_platform :: "LibV2RayConf option list \<Rightarrow> (unit, unit, unit) platform" where
  "demo_platform exts = \<lparr>strip_comments = id, json_decode = (\<lambda>_. Inr JNull), proxy_uid = 0,
     parse_order = [], script_order = [], os_Environ = [], LoadJSONConfig = (\<lambda>_. Some ()),
     proto_Unmarshal = (\<lambda>_. ()), extensions = (\<lambda>_. exts), zero_Config = (), core_New = (\<lambda>_. ()),
     core_Start = (\<lambda>_. None), core_Close = (\<lambda>_. None), AssetDir = (\<lambda>_. Inl ()), RestoreAsset = demo_restore\<rparr>"

definition demo_point :: "(unit, unit, unit) V2RayPoint" where
  "demo_point = NewV2RayPoint\<lparr>has_Callbacks := True,
     ConfigureFile := ''V2Ray_internal/AsPbConfigureFileContent'',
     VPNSupports := zero_VPNSupport\<lparr>VpnSupportSet := Some ()\<rparr>\<rparr>"

lemma demo_load:
  "ConfigureFile v = ''V2Ray_internal/AsPbConfigureFileContent'' \<Longrightarrow>
   load_config (demo_platform exts) v s = Inr (Loaded () (v\<lparr>confng := assert_extensions exts (confng v)\<rparr>) s)"
  by (simp add: load_config_def load_internal_def strings_HasPrefix_def demo_platform_def)

text \<open>A configuration with a VPN service and one escorted process.\<close>

definition escorting_conf :: libv2rayconf where
  "escorting_conf = zero_conf\<lparr>vpnConfig := zero_vpnservice\<lparr>vc_VPNSetupArg := ''m,1500''\<rparr>,
     esco := [\<lparr>et_Target = ''/p'', et_Args = [], et_Forgiveable = False\<rparr>]\<rparr>"

theorem converted_services_start_witness:
  "\<exists>c v' cmd t. ConvertToPb escorting_conf = Inr c \<and>
     start_services (demo_platform []) demo_net c demo_point = Inr ([ArmTimer, VpnEv PrepareEv, RunScript cmd], v') \<and>
     length (runners (escorter_run v')) = 1 \<and> estep (BuildEnv 0) (escorter_run v') = Some t \<and> crashed t"
proof -
  obtain c where c: "ConvertToPb escorting_conf = Inr c"
    by (simp add: ConvertToPb_def escorting_conf_def zero_conf_def envToMap_def)
  have esc: "length (Configure.Escorting r) = 1" if "RootModeConf c = Some r" for r
    using c that by (auto simp: ConvertToPb_def escorting_conf_def zero_conf_def envToMap_def)
  have arg: "VPNSetupArg svc \<noteq> []" if "VpnConf c = Some vpn" "Service vpn = Some svc" for vpn svc
    using c that by (auto simp: ConvertToPb_def escorting_conf_def zero_conf_def envToMap_def)
  have v: "VpnSupportSet (VPNSupports demo_point) \<noteq> None" "esc_status (escorter demo_point) = None"
    "procs (escorter_run demo_point) = None" "runners (escorter_run demo_point) = []"
    by (simp_all add: demo_point_def NewV2RayPoint_def NewEscort_def esys_init_def)
  from converted_services_start [OF c v, of "demo_platform []" demo_net] obtain r vpn svc v' cmd where
    r: "RootModeConf c = Some r" "VpnConf c = Some vpn" "Service vpn = Some svc"
    and run: "start_services (demo_platform []) demo_net c demo_point =
      Inr (ArmTimer # (if VPNSetupArg svc = [] then [] else [VpnEv PrepareEv]) @ [RunScript cmd], v')"
    and len: "length (runners (escorter_run v')) = length (Configure.Escorting r)"
    and panic: "\<forall>s i. ereach (escorter_run v') s \<longrightarrow> procs s \<in> {None, Some []} \<and>
      (i < length (runners s) \<longrightarrow> (\<exists>t. estep (BuildEnv i) s = Some t \<and> crashed t))"
    by blast
  from len esc [OF r(1)] have one: "length (runners (escorter_run v')) = 1" by simp
  with panic ereach_refl [of "escorter_run v'"] obtain t where
    "estep (BuildEnv 0) (escorter_run v') = Some t" "crashed t"
    by (metis zero_less_one)
  with c run one arg [OF r(2,3)] show ?thesis by auto
qed

theorem vpn_session_witness:
  "\<exists>v3 s3 up v4 es down v5 t. pointloop (demo_platform [Some demo_conf]) demo_net demo_point demo_home = Inr (v3, s3,
       [CoreStart (), ArmTimer, VpnEv PrepareEv, RunScript up, OnEmitStatus 0 ''Running'']) \<and>
     pt_VpnSupportReady () 9 v3 = Inr (map VpnEv [SetupEv ''m,1500'', UseDialer, SpawnEscort ''/t'' [] 9], v4) \<and>
     calm_run tunnel_labels (the (Estr (VPNSupports v4))) = Some es \<and>
     stopLoopW (demo_platform [Some demo_conf]) [CloserGetsDown, DownClears] [CloserGetsDown, DownClears] 9 (with_tunnel es v4) =
       Inr ([CoreClose (), RunScript down, VpnEv (CloseFd 9), VpnEv ShutdownEv, OnEmitStatus 0 ''Closed''], Stopped v5) \<and>
     Estr (VPNSupports v5) = Some t \<and> killed t = [7, 8]"
proof -
  let ?P = "demo_platform [Some demo_conf]"
  let ?v = "demo_point\<lparr>status := (status demo_point)\<lparr>VpnSupportnodup := False\<rparr>\<rparr>"
  have load: "load_config ?P ?v demo_home = Inr (Loaded () (?v\<lparr>confng := Some demo_conf\<rparr>) demo_home)"
    using demo_load [of ?v "[Some demo_conf]" demo_home]
    by (simp add: demo_point_def assert_extensions_def)
  have core: "core_Start ?P (core_New ?P ()) = None" "core_Close ?P (core_New ?P ()) = None"
    by (simp_all add: demo_platform_def)
  from vpn_session [OF load core, where c = demo_conf and svc = demo_service
      and r = "\<lparr>RootModeConfig.Escorting = [], Scripts = Some \<lparr>UpScript = ''#up'', DownScript = ''#down''\<rparr>\<rparr>"
      and u = "\<lparr>UpScript = ''#up'', DownScript = ''#down''\<rparr>"
      and vpn = "\<lparr>Service = Some demo_service, PreparedDomainName = Some (demo_fix [])\<rparr>"
      and d = "demo_fix []" and x = "()" and n = demo_net and lower = "()" and fd = 9]
  obtain v3 s3 v4 up where
    loop: "pointloop ?P demo_net demo_point demo_home = Inr (v3, s3,
       [CoreStart (), ArmTimer, VpnEv PrepareEv, RunScript up, OnEmitStatus 0 ''Running''])"
    and ready: "pt_VpnSupportReady () 9 v3 = Inr (map VpnEv [SetupEv ''m,1500'', UseDialer, SpawnEscort ''/t'' [] 9], v4)"
    and es0: "IsRunning (status v4)" "Estr (VPNSupports v4) = Some (new_estr (Some (status v4)))"
    and stop: "\<forall>ls es ps. calm_run ls (new_estr (Some (status v4))) = Some es \<and> \<not> crashed es \<and> down_sending es = 0 \<and> down_clearing es = 0 \<and>
       procs es = Some ps \<and> None \<notin> set ps \<longrightarrow>
       (\<exists>down v5 t. stopLoopW ?P [CloserGetsDown, DownClears] [CloserGetsDown, DownClears] 9 (with_tunnel es v4) =
          Inr ([CoreClose (), RunScript down, VpnEv (CloseFd 9), VpnEv ShutdownEv, OnEmitStatus 0 ''Closed''], Stopped v5) \<and>
        cmd_path down = ''/system/bin/sh'' \<and> cmd_args down = [''-c'', ''#down''] \<and>
        \<not> GetIsRunning v5 \<and> procs (escorter_run v5) = None \<and>
        Estr (VPNSupports v5) = Some t \<and> procs t = None \<and> killed t = killed es @ map the ps)"
    by (auto simp: demo_point_def demo_conf_def demo_service_def NewV2RayPoint_def zero_VPNSupport_def new_Status_def)
  obtain es where es: "calm_run tunnel_labels (new_estr (Some (status v4))) = Some es"
    "procs es = Some [Some 7, Some 8]" "\<not> crashed es" "down_sending es = 0" "down_clearing es = 0" "killed es = []"
    using tunnel_run [OF es0(1)] by blast
  have "None \<notin> set [Some (7::int), Some 8]" by simp
  with stop es obtain down v5 t where
    "stopLoopW ?P [CloserGetsDown, DownClears] [CloserGetsDown, DownClears] 9 (with_tunnel es v4) =
       Inr ([CoreClose (), RunScript down, VpnEv (CloseFd 9), VpnEv ShutdownEv, OnEmitStatus 0 ''Closed''], Stopped v5)"
    "Estr (VPNSupports v5) = Some t" "killed t = killed es @ map the [Some 7, Some 8]"
    by metis
  moreover from this(3) have "killed t = [7, 8]" using es(6) by simp
  moreover have "calm_run tunnel_labels (the (Estr (VPNSupports v4))) = Some es" using es0(2) es(1) by simp
  ultimately show ?thesis using loop ready by blast
qed

theorem run_without_upgrade_panics_witness:
  "pointloop (demo_platform []) demo_net (fst (RunLoop (NewV2RayPoint\<lparr>ConfigureFile := ''/sdcard/c.json''\<rparr> :: (unit, unit, unit) V2RayPoint)))
     demo_home = Inl NilDeref"
  by (rule run_without_upgrade_panics) (simp_all add: NewV2RayPoint_def strings_HasPrefix_def)

theorem double_start_witness:
  "\<exists>(v :: (unit, unit, unit) V2RayPoint) v1 v3 s3 evs v5 s5. RunLoop v = (v1, True) \<and>
     pointloop (demo_platform []) demo_net v1 demo_home = Inr (v3, s3, evs) \<and>
     pointloop (demo_platform []) demo_net v3 s3 = Inr (v5, s5, [CoreStart (), OnEmitStatus 0 ''Running''])"
proof -
  let ?P = "demo_platform []"
  obtain v1 where v1: "RunLoop demo_point = (v1, True)" "confng v1 = None" "has_Callbacks v1"
    "ConfigureFile v1 = ''V2Ray_internal/AsPbConfigureFileContent''"
    by (simp add: RunLoop_def demo_point_def NewV2RayPoint_def new_Status_def)
  have core: "core_Start ?P (core_New ?P ()) = None" "core_Close ?P (core_New ?P ()) = None"
    by (simp_all add: demo_platform_def)
  let ?w = "\<lambda>v. v\<lparr>status := (status v)\<lparr>VpnSupportnodup := False\<rparr>\<rparr>"
  have load: "load_config ?P (?w v) s = Inr (Loaded () (?w v) s)"
    if "ConfigureFile v = ''V2Ray_internal/AsPbConfigureFileContent''" for v :: "(unit, unit, unit) V2RayPoint" and s
    using demo_load [of "?w v" "[]" s] that by (simp add: assert_extensions_def)
  let ?v3 = "(?w v1)\<lparr>status := (status (?w v1))\<lparr>Vpoint := Some (core_New ?P ()), IsRunning := True\<rparr>\<rparr>"
  obtain s3 evs where loop: "pointloop ?P demo_net v1 demo_home = Inr (?v3, s3, evs)"
    using pointloop_loaded [OF load [OF v1(4)] core(1), of ?v3 demo_net "[]" demo_home] v1(2,3) by auto
  have "ConfigureFile ?v3 = ''V2Ray_internal/AsPbConfigureFileContent''" using v1(4) by simp
  from double_start [OF load [OF v1(4)] load [OF this] _ _ _ _ core(1) core(1,2) loop v1(1), of "[]" "[]" 0] v1(2,3)
  have "\<exists>v5 s5. pointloop ?P demo_net ?v3 s3 = Inr (v5, s5, [CoreStart (), OnEmitStatus 0 ''Running''])"
    by auto
  with v1(1) loop show ?thesis by blast
qed

theorem escorts_always_panic_witness:
  "EscortRun 0 [] [] (escorter (UpgradeToContext (NewV2RayPoint :: (unit, unit, unit) V2RayPoint))) ''/p'' [] False 0 [] True =
     Inl NilDeref"
  by (rule escorts_always_panic [where PS = "{demo_platform []}" and NS = "{demo_net}"])
    (rule point_reach.upgrade [OF point_reach.new])

theorem json_file_loaded_witness:
  "\<exists>v' s'. load_config (demo_platform []) (demo_point\<lparr>ConfigureFile := [], Context := Some demo_context\<rparr>)
     (set_node ''/c/x.json'' (File ''{}'' 384) demo_dir) = Inr (Loaded () v' s') \<and> confng v' = None"
proof -
  let ?v = "demo_point\<lparr>ConfigureFile := [], Context := Some demo_context\<rparr>"
  let ?s = "set_node ''/c/x.json'' (File ''{}'' 384) demo_dir" and ?P = "demo_platform []"
  let ?jc = "zero_converter\<lparr>Datadir := PackageName (status ?v), reading := ''{}''\<rparr>"
  have vc: "Context ?v = Some demo_context" by simp
  have cf: "GetConfigureFile (demo_context\<lparr>ctx_Status := share (status ?v) (ctx_Status demo_context)\<rparr>) ?s =
      Inr (demo_context, ?s, ''/c/x.json'')"
    using demo_configure_file by (simp add: demo_context_def)
  have read: "ioutil_ReadFile ?s ''/c/x.json'' = Inr ''{}''"
    by (simp add: ioutil_ReadFile_def os_Open_def os_Stat_direct demo_dir_def)
  obtain jc where parse: "Parse (strip_comments ?P) (json_decode ?P) (proxy_uid ?P) (parse_order ?P) (?jc, ?s) = Inr ((jc, ?s), None)"
    "conf jc = None"
    by (simp add: Parse_def parseConf_def demo_platform_def zero_converter_def sj_CheckGet_def)
  then have "ToPb jc = Inr None" by (simp add: ToPb_def)
  from json_file_loaded [OF _ vc cf _ read parse(1) this, of "()"] show ?thesis
    by (simp add: strings_HasSuffix_def strings_HasPrefix_def demo_platform_def suffix_def)
qed

end
