(* ===== verification/NetInterrupt.thy ===== *)
theory NetInterrupt
  imports Systems
begin

text \<open>
  Restarting the core when the network changes (\<open>NetworkInterrupted\<close> of \<open>interact.go\<close>): goroutines
  that meet on \<open>interuptDeferto\<close>, which the main loop also sets for its first five seconds. A state
  holds that variable, the running flag, whether the present core instance is up, whether there is a
  configuration of the Go part, and for every program point between two accesses to these the
  number of goroutines that stand there. A label is one access; \<open>nstep\<close> is \<open>None\<close> when no
  goroutine stands before it. The atomic operations are taken to be available.
\<close>

section \<open>Program points\<close>

record netsys =
  deferto :: int
  ns_running :: bool
  core_up :: bool
  ns_confng :: bool
  created :: nat        \<comment> \<open>main loops that have made their core\<close>
  flagged :: nat        \<comment> \<open>main loops that have set the flag\<close>
  unguarded :: nat      \<comment> \<open>main loops that have started the core and follow a configuration\<close>
  guarded :: nat        \<comment> \<open>main loops that have set \<open>interuptDeferto\<close> but no timer\<close>
  timers :: nat
  checked :: nat        \<comment> \<open>interruptions that have seen the flag set\<close>
  swapped :: nat        \<comment> \<open>interruptions whose swap succeeded\<close>
  asleep :: nat         \<comment> \<open>interruptions that have closed the core\<close>
  restarted :: nat      \<comment> \<open>interruptions that have started it again\<close>
  stopping :: nat       \<comment> \<open>stop loops that have cleared the flag\<close>

definition netsys_init :: "bool \<Rightarrow> netsys" where
  "netsys_init b = \<lparr>deferto = 0, ns_running = False, core_up = False, ns_confng = b, created = 0,
     flagged = 0, unguarded = 0, guarded = 0, timers = 0, checked = 0, swapped = 0, asleep = 0,
     restarted = 0, stopping = 0\<rparr>"

section \<open>Steps of the main loop\<close>

text \<open>The status gets a new core, which is not up.\<close>

definition loop_new :: "netsys \<Rightarrow> netsys option" where
  "loop_new s = Some (s\<lparr>core_up := False, created := Suc (created s)\<rparr>)"

definition loop_flag :: "netsys \<Rightarrow> netsys option" where
  "loop_flag s =
     (if 0 < created s
      then Some (s\<lparr>created := created s - 1, ns_running := True, flagged := Suc (flagged s)\<rparr>) else None)"

text \<open>The core is started; only with a configuration does the loop go on to the services.\<close>

definition loop_start :: "netsys \<Rightarrow> netsys option" where
  "loop_start s =
     (if 0 < flagged s then
        Some (let t = s\<lparr>flagged := flagged s - 1, core_up := True\<rparr>
              in if ns_confng s then t\<lparr>unguarded := Suc (unguarded s)\<rparr> else t)
      else None)"

definition loop_defer :: "netsys \<Rightarrow> netsys option" where
  "loop_defer s =
     (if 0 < unguarded s
      then Some (s\<lparr>unguarded := unguarded s - 1, deferto := 1, guarded := Suc (guarded s)\<rparr>) else None)"

definition loop_arm :: "netsys \<Rightarrow> netsys option" where
  "loop_arm s =
     (if 0 < guarded s then Some (s\<lparr>guarded := guarded s - 1, timers := Suc (timers s)\<rparr>) else None)"

definition timer_fires :: "netsys \<Rightarrow> netsys option" where
  "timer_fires s = (if 0 < timers s then Some (s\<lparr>deferto := 0, timers := timers s - 1\<rparr>) else None)"

section \<open>Steps of an interruption and of the stop loop\<close>

definition int_check :: "netsys \<Rightarrow> netsys option" where
  "int_check s = Some (if ns_running s then s\<lparr>checked := Suc (checked s)\<rparr> else s)"

definition compare_and_swap :: "int \<Rightarrow> int \<Rightarrow> netsys \<Rightarrow> netsys option" where
  "compare_and_swap old new s = (if deferto s = old then Some (s\<lparr>deferto := new\<rparr>) else None)"

definition int_swap :: "netsys \<Rightarrow> netsys option" where
  "int_swap s =
     (if 0 < checked s then
        Some (case compare_and_swap 0 1 (s\<lparr>checked := checked s - 1\<rparr>) of
                None \<Rightarrow> s\<lparr>checked := checked s - 1\<rparr>
              | Some t \<Rightarrow> t\<lparr>swapped := Suc (swapped t)\<rparr>)
      else None)"

definition int_close :: "netsys \<Rightarrow> netsys option" where
  "int_close s =
     (if 0 < swapped s
      then Some (s\<lparr>swapped := swapped s - 1, core_up := False, asleep := Suc (asleep s)\<rparr>) else None)"

definition int_start :: "netsys \<Rightarrow> netsys option" where
  "int_start s =
     (if 0 < asleep s
      then Some (s\<lparr>asleep := asleep s - 1, core_up := True, restarted := Suc (restarted s)\<rparr>) else None)"

definition int_store :: "netsys \<Rightarrow> netsys option" where
  "int_store s =
     (if 0 < restarted s then Some (s\<lparr>restarted := restarted s - 1, deferto := 0\<rparr>) else None)"

definition stop_flag :: "netsys \<Rightarrow> netsys option" where
  "stop_flag s = Some (s\<lparr>ns_running := False, stopping := Suc (stopping s)\<rparr>)"

definition stop_close :: "netsys \<Rightarrow> netsys option" where
  "stop_close s =
     (if 0 < stopping s then Some (s\<lparr>stopping := stopping s - 1, core_up := False\<rparr>) else None)"

datatype nlabel =
    LoopNew | LoopFlag | LoopStart | LoopDefer | LoopArm | TimerFires
  | IntCheck | IntSwap | IntClose | IntStart | IntStore
  | StopFlag | StopClose

fun nstep :: "nlabel \<Rightarrow> netsys \<Rightarrow> netsys option" where
  "nstep LoopNew s = loop_new s"
| "nstep LoopFlag s = loop_flag s"
| "nstep LoopStart s = loop_start s"
| "nstep LoopDefer s = loop_defer s"
| "nstep LoopArm s = loop_arm s"
| "nstep TimerFires s = timer_fires s"
| "nstep IntCheck s = int_check s"
| "nstep IntSwap s = int_swap s"
| "nstep IntClose s = int_close s"
| "nstep IntStart s = int_start s"
| "nstep IntStore s = int_store s"
| "nstep StopFlag s = stop_flag s"
| "nstep StopClose s = stop_close s"

lemmas nstep_defs = loop_new_def loop_flag_def loop_start_def loop_defer_def loop_arm_def
  timer_fires_def int_check_def int_swap_def compare_and_swap_def int_close_def int_start_def
  int_store_def stop_flag_def stop_close_def

fun nrun :: "nlabel list \<Rightarrow> netsys \<Rightarrow> netsys option" where
  "nrun [] s = Some s"
| "nrun (l # ls) s = (case nstep l s of None \<Rightarrow> None | Some t \<Rightarrow> nrun ls t)"

text \<open>A property kept by the steps of a run holds at its end.\<close>

lemma nrun_inv:
  assumes "nrun ls s = Some t" and "I s" and "\<And>l u v. l \<in> set ls \<Longrightarrow> I u \<Longrightarrow> nstep l u = Some v \<Longrightarrow> I v"
  shows "I t"
  using assms
proof (induction ls arbitrary: s)
  case (Cons l ls)
  from Cons.prems(1) obtain u where u: "nstep l s = Some u" "nrun ls u = Some t"
    by (auto split: option.splits)
  have "I u" using Cons.prems(2,3) u(1) by auto
  with Cons.IH [OF u(2)] Cons.prems(3) show ?case by auto
qed simp

section \<open>Quiet starts and stops\<close>

text \<open>Interruptions under way, and those that own the restart.\<close>

definition restarting :: "netsys \<Rightarrow> nat" where
  "restarting s = swapped s + asleep s + restarted s"

text \<open>
  The guard: the main loop runs only while the point server is stopped, the previous timer has
  fired and no interruption is under way; no interruption is reported between the moment the main
  loop sets the flag and the moment it sets \<open>interuptDeferto\<close> (with a plain configuration: until
  the core is started); and the stop loop runs only when neither the main loop nor an interruption
  is under way.
\<close>

fun quiet :: "nlabel \<Rightarrow> netsys \<Rightarrow> bool" where
  "quiet LoopNew s =
     (\<not> ns_running s \<and> created s + timers s + checked s + restarting s + stopping s = 0)"
| "quiet IntCheck s = (flagged s + unguarded s = 0)"
| "quiet StopFlag s =
     (ns_running s \<and> created s + flagged s + unguarded s + guarded s + checked s + restarting s + stopping s = 0)"
| "quiet l s = True"

inductive quiet_reach :: "bool \<Rightarrow> netsys \<Rightarrow> bool" for b where
  quiet_init: "quiet_reach b (netsys_init b)"
| quiet_step: "quiet_reach b s \<Longrightarrow> quiet l s \<Longrightarrow> nstep l s = Some t \<Longrightarrow> quiet_reach b t"

inductive_cases quiet_reachE: "quiet_reach b s"

fun quiet_run :: "nlabel list \<Rightarrow> netsys \<Rightarrow> netsys option" where
  "quiet_run [] s = Some s"
| "quiet_run (l # ls) s =
     (if quiet l s then (case nstep l s of None \<Rightarrow> None | Some t \<Rightarrow> quiet_run ls t) else None)"

text \<open>
  The invariant: \<open>interuptDeferto\<close> counts its only owner, a main loop or its timer or an
  interruption; the core is up when it should be; and the phases that the guard keeps apart are apart.
\<close>

definition quiet_inv :: "netsys \<Rightarrow> bool" where
  "quiet_inv s \<longleftrightarrow>
     guarded s + timers s + restarting s \<le> 1 \<and> deferto s = int (guarded s + timers s + restarting s) \<and>
     core_up s = (ns_running s \<and> flagged s = 0 \<and> asleep s = 0 \<or> 0 < stopping s) \<and>
     created s + flagged s + unguarded s + guarded s + stopping s \<le> 1 \<and>
     (0 < created s + stopping s \<longrightarrow> \<not> ns_running s) \<and>
     (0 < flagged s + unguarded s + guarded s \<longrightarrow> ns_running s) \<and>
     (0 < created s + flagged s + unguarded s \<longrightarrow> timers s + checked s + restarting s = 0) \<and>
     (0 < checked s + restarting s \<longrightarrow> ns_running s)"

lemma quiet_inv_init: "quiet_inv (netsys_init b)"
  by (simp add: quiet_inv_def netsys_init_def restarting_def)

lemma quiet_inv_step: "quiet_inv s \<Longrightarrow> quiet l s \<Longrightarrow> nstep l s = Some t \<Longrightarrow> quiet_inv t"
  by (cases l; clarsimp simp: quiet_inv_def restarting_def nstep_defs Let_def split: if_splits)

interpretation quiet: invariant_system "netsys_init b" nstep quiet quiet_run "quiet_reach b" quiet_inv
  for b
proof unfold_locales
  show "quiet_reach b s \<Longrightarrow> P (netsys_init b) \<Longrightarrow>
      (\<And>u l t. P u \<Longrightarrow> quiet l u \<Longrightarrow> nstep l u = Some t \<Longrightarrow> P t) \<Longrightarrow> P s" for s P
    by (induction rule: quiet_reach.induct) blast+
qed (auto intro: quiet_init quiet_step quiet_inv_init quiet_inv_step)

text \<open>
  C13. One restart at a time: as long as no interruption is reported while a starting main loop has
  set the flag but not yet \<open>interuptDeferto\<close>, and main loop and stop loop run only when nothing else
  is under way (\<open>quiet\<close>), at most one interruption restarts the core; an interruption in the first
  five seconds or during a restart changes nothing; the core is up exactly when the point server
  runs, its start has got that far and it is not being restarted, or when a stop is about to close
  it; and an interruption that has closed the core brings it up again and ends the suppression.
\<close>

theorem interruption_restarts_once:
  assumes "quiet_reach b s"
  shows "swapped s + asleep s + restarted s \<le> 1 \<and>
    (0 < guarded s + timers s + restarting s \<longrightarrow>
       (if ns_running s then nrun [IntCheck, IntSwap] s = Some s else nstep IntCheck s = Some s)) \<and>
    (core_up s \<longleftrightarrow> ns_running s \<and> flagged s = 0 \<and> asleep s = 0 \<or> 0 < stopping s) \<and>
    (0 < asleep s \<longrightarrow> (\<exists>t. nrun [IntStart, IntStore] s = Some t \<and> core_up t \<and> ns_running t \<and>
       deferto t = 0 \<and> restarting t = 0))"
proof -
  have inv: "quiet_inv s" by (rule quiet.reach_inv [OF assms])
  then have one: "swapped s + asleep s + restarted s \<le> 1"
    and up: "core_up s \<longleftrightarrow> ns_running s \<and> flagged s = 0 \<and> asleep s = 0 \<or> 0 < stopping s"
    by (simp_all add: quiet_inv_def restarting_def)
  have none: "if ns_running s then nrun [IntCheck, IntSwap] s = Some s else nstep IntCheck s = Some s"
    if "0 < guarded s + timers s + restarting s"
  proof -
    from inv that have "deferto s \<noteq> 0" unfolding quiet_inv_def by linarith
    then show ?thesis by (cases "ns_running s") (simp_all add: int_check_def int_swap_def compare_and_swap_def)
  qed
  have "\<exists>t. nrun [IntStart, IntStore] s = Some t \<and> core_up t \<and> ns_running t \<and> deferto t = 0 \<and> restarting t = 0"
    if "0 < asleep s"
    using inv that by (simp add: quiet_inv_def restarting_def int_start_def int_store_def)
  with one up none show ?thesis by blast
qed

definition start_labels :: "nlabel list" where
  "start_labels = [LoopNew, LoopFlag, LoopStart, LoopDefer, LoopArm, TimerFires]"

definition interrupted_labels :: "nlabel list" where
  "interrupted_labels = start_labels @ [IntCheck, IntSwap, IntClose]"

lemma interrupted_run:
  "\<exists>s. quiet_run interrupted_labels (netsys_init True) = Some s \<and> asleep s = 1 \<and> checked s = 0 \<and> ns_running s"
  by (simp add: interrupted_labels_def start_labels_def netsys_init_def nstep_defs restarting_def)

theorem interruption_restarts_once_witness:
  "\<exists>s t. quiet_run interrupted_labels (netsys_init True) = Some s \<and> nrun [IntCheck, IntSwap] s = Some s \<and>
     nrun [IntStart, IntStore] s = Some t \<and> core_up t"
proof -
  obtain s where s: "quiet_run interrupted_labels (netsys_init True) = Some s" "asleep s = 1" "ns_running s"
    using interrupted_run by blast
  from interruption_restarts_once [OF quiet.run_init [OF s(1)]] s(2,3)
  have "nrun [IntCheck, IntSwap] s = Some s" "\<exists>t. nrun [IntStart, IntStore] s = Some t \<and> core_up t"
    by (auto simp: restarting_def simp del: nrun.simps)
  with s(1) show ?thesis by blast
qed

section \<open>Outside the guard\<close>

text \<open>
  What the guard excludes happens: an interruption reported between the setting of the flag and the
  setting of \<open>interuptDeferto\<close> closes the core while the main loop starts it, and when the timer
  resets the variable before the goroutine has woken up, a second one sleeps beside it.
\<close>

lemma early_interruption:
  assumes "unguarded s = 1" and "ns_running s" and "deferto s = 0"
  shows "\<exists>t. nrun [IntCheck, IntSwap, IntClose, LoopDefer, LoopArm, TimerFires, IntCheck, IntSwap, IntClose] s = Some t \<and>
     asleep t = asleep s + 2"
  using assms by (simp add: nstep_defs)

text \<open>
  C40. A stop during a restart: in every state reached with quiet steps in which one interruption
  sleeps between closing and starting the core and no other is under way, a stop loop may run to
  its end before the interruption wakes; the core is then up although the point server has
  stopped, and whatever steps follow, it stays up until the main loop or the stop loop runs again.
\<close>

theorem stop_during_restart:
  assumes "quiet_reach b s" and "asleep s = 1" and "checked s = 0"
  shows "\<exists>t. nrun [StopFlag, StopClose, IntStart, IntStore] s = Some t \<and> core_up t \<and> \<not> ns_running t \<and>
     (\<forall>ls u. nrun ls t = Some u \<longrightarrow> LoopNew \<notin> set ls \<longrightarrow> StopFlag \<notin> set ls \<longrightarrow>
        core_up u \<and> \<not> ns_running u)"
proof -
  let ?I = "\<lambda>u. core_up u \<and> \<not> ns_running u \<and>
    created u + flagged u + stopping u + checked u + swapped u = 0"
  have inv: "quiet_inv s" by (rule quiet.reach_inv [OF assms(1)])
  with assms(2) have zero: "created s = 0" "flagged s = 0" "stopping s = 0" "swapped s = 0"
    by (auto simp: quiet_inv_def restarting_def)
  then obtain t where t: "nrun [StopFlag, StopClose, IntStart, IntStore] s = Some t" "?I t"
    using assms(2,3) by (simp add: nstep_defs)
  have "core_up u \<and> \<not> ns_running u" if "nrun ls t = Some u" "LoopNew \<notin> set ls" "StopFlag \<notin> set ls" for ls u
  proof -
    have step: "?I w" if "l \<noteq> LoopNew" "l \<noteq> StopFlag" "?I v" "nstep l v = Some w" for l v w
      using that by (cases l; clarsimp simp: nstep_defs Let_def split: if_splits)
    have "?I w" if "l \<in> set ls" "?I v" "nstep l v = Some w" for l v w
      using step [of l v w] that \<open>LoopNew \<notin> set ls\<close> \<open>StopFlag \<notin> set ls\<close> by metis
    with nrun_inv [OF \<open>nrun ls t = Some u\<close>, of ?I] t(2) show ?thesis by blast
  qed
  with t show ?thesis by blast
qed

theorem stop_during_restart_witness:
  "\<exists>s t. quiet_run interrupted_labels (netsys_init True) = Some s \<and>
     nrun [StopFlag, StopClose, IntStart, IntStore] s = Some t \<and> core_up t \<and> \<not> ns_running t"
proof -
  obtain s where s: "quiet_run interrupted_labels (netsys_init True) = Some s" "asleep s = 1" "checked s = 0"
    using interrupted_run by blast
  from stop_during_restart [OF quiet.run_init [OF s(1)] s(2,3)] s(1) show ?thesis by blast
qed

end
