(* ===== verification/ConvertProps.thy ===== *)
theory ConvertProps
  imports JsonConvert
begin

text \<open>
  Properties of the converter: every legacy configuration is read back from its JSON form, a
  section that is absent or disabled gives no configuration, conversion to the protobuf structs
  keeps every field, rendering replaces the variables by the same values in whatever order the
  runtime visits the environment, and what a failed parse leaves behind.
\<close>

section \<open>The JSON form of a configuration\<close>

definition json_strings :: "string list \<Rightarrow> json" where
  "json_strings ss = JArray (map JString ss)"

definition escort_json :: "libv2rayconfEscortTarget \<Rightarrow> json" where
  "escort_json e = JObject
     [(''Target'', JString (et_Target e)), (''Args'', json_strings (et_Args e)),
      (''Forgiveable'', JBool (et_Forgiveable e))]"

definition render_json :: "libv2rayconfRenderCfgTarget \<Rightarrow> json" where
  "render_json r = JObject
     [(''Target'', JString (rt_Target r)), (''Args'', json_strings (rt_Args r)),
      (''Source'', JString (rt_Source r))]"

definition vpnservice_json :: "vpnserviceConfig \<Rightarrow> json" where
  "vpnservice_json w = JObject
     [(''Target'', JString (vc_Target w)), (''Args'', json_strings (vc_Args w)),
      (''VPNSetupArg'', JString (vc_VPNSetupArg w))]"

definition dnsloopfix_json :: "vpnserviceDnsloopFix \<Rightarrow> json" where
  "dnsloopfix_json d = JObject
     [(''domainName'', json_strings (dl_DomainNameList d)),
      (''tcpVersion'', JString (dl_TCPVersion d)), (''udpVersion'', JString (dl_UDPVersion d))]"

definition lib2ray_json :: "libv2rayconf \<Rightarrow> json" where
  "lib2ray_json c = JObject
     [(''enabled'', JBool True),
      (''listener'', JObject [(''onUp'', JString (upscript c)), (''onDown'', JString (downscript c))]),
      (''env'', json_strings (additionalEnv c)),
      (''render'', JArray (map render_json (rend c))),
      (''escort'', JArray (map escort_json (esco c))),
      (''vpnservice'', vpnservice_json (vpnConfig c)),
      (''preparedDomainName'', dnsloopfix_json (dnsloopfix c))]"

section \<open>Reading it back\<close>

lemma marshal_strings [simp]: "sj_MarshalJSON_data (json_strings ss) = json_strings ss"
  by (simp add: json_strings_def comp_def)

lemma dec_strings [simp]: "dec_slice dec_string z old (json_strings ss) = (ss, False)"
  by (simp add: json_strings_def dec_elems_strings)

lemma dec_objects:
  assumes "\<And>x old. x \<in> set xs \<Longrightarrow> dec old (sj_MarshalJSON_data (f x)) = (g x, False)"
  shows "dec_slice dec z old (sj_MarshalJSON_data (JArray (map f xs))) = (map g xs, False)"
proof -
  have "dec_elems dec z old (map sj_MarshalJSON_data (map f xs)) = (map g xs, False)"
    using assms by (induction xs arbitrary: old) auto
  then show ?thesis by simp
qed

text \<open>Marshalling sorts the members; the structs then decode member by member.\<close>

lemma dec_escort [simp]:
  "dec_struct escort_fields old (sj_MarshalJSON_data (escort_json e)) = (e, False)"
  by (simp add: escort_json_def escort_fields_def find_field_def dec_field_def)

lemma dec_render [simp]:
  "dec_struct render_fields old (sj_MarshalJSON_data (render_json r)) = (r, False)"
  by (simp add: render_json_def render_fields_def find_field_def dec_field_def)

lemma dec_vpnservice [simp]:
  "dec_struct vpnservice_fields old (sj_MarshalJSON_data (vpnservice_json w)) = (w, False)"
  by (simp add: vpnservice_json_def vpnservice_fields_def find_field_def dec_field_def)

lemma dec_dnsloopfix [simp]:
  "dec_struct dnsloopfix_fields old (sj_MarshalJSON_data (dnsloopfix_json d)) = (d, False)"
  by (simp add: dnsloopfix_json_def dnsloopfix_fields_def find_field_def dec_field_def)

lemma lib2ray_json_members:
  "sj_CheckGet (lib2ray_json c) ''escort'' = Some (JArray (map escort_json (esco c)))"
  "sj_CheckGet (lib2ray_json c) ''render'' = Some (JArray (map render_json (rend c)))"
  "sj_CheckGet (lib2ray_json c) ''vpnservice'' = Some (vpnservice_json (vpnConfig c))"
  "sj_CheckGet (lib2ray_json c) ''preparedDomainName'' = Some (dnsloopfix_json (dnsloopfix c))"
  "sj_GetPath (lib2ray_json c) [''env''] = json_strings (additionalEnv c)"
  "sj_GetPath (lib2ray_json c) [''enabled''] = JBool True"
  "sj_GetPath (lib2ray_json c) [''listener'', ''onUp''] = JString (upscript c)"
  "sj_GetPath (lib2ray_json c) [''listener'', ''onDown''] = JString (downscript c)"
  by (simp_all add: lib2ray_json_def sj_CheckGet_def sj_GetPath_def sj_Get_def)

lemma parse_sections:
  "parse_escort (lib2ray_json c) d = (d\<lparr>esco := esco c\<rparr>, None)"
  "parse_render (lib2ray_json c) d = (d\<lparr>rend := rend c\<rparr>, None)"
  "parse_vpnservice (lib2ray_json c) d = (d\<lparr>vpnConfig := vpnConfig c\<rparr>, None)"
  "parse_dnsloopfix (lib2ray_json c) d = (d\<lparr>dnsloopfix := dnsloopfix c\<rparr>, None)"
  by (simp_all add: parse_escort_def parse_render_def parse_vpnservice_def parse_dnsloopfix_def
      parse_section_def lib2ray_json_members sj_MarshalJSON_def dec_field_def
      dec_objects [where g = id] del: sj_MarshalJSON_data.simps dec_slice.simps)

text \<open>
  C2. Round trip of the configuration: parsing the \<open>#lib2ray\<close> section that writes a legacy
  configuration out gives exactly that configuration and no error.
\<close>

theorem parse_lib2ray_roundtrip: "parse_lib2ray (lib2ray_json c) = (c, None)"
  by (simp add: parse_lib2ray_def lib2ray_json_members jsonStringDefault_def sj_StringArray_def
      json_strings_def parse_sections conf_then_def zero_conf_def)

section \<open>No configuration\<close>

definition lib2ray_off :: "json \<Rightarrow> bool" where
  "lib2ray_off j \<longleftrightarrow>
     (case sj_CheckGet j ''#lib2ray'' of
        None \<Rightarrow> True
      | Some libconf \<Rightarrow> sj_Bool (sj_GetPath libconf [''enabled'']) = Inr False)"

text \<open>
  Absent or disabled section: a fresh converter then parses without an error, touches no
  file, and converts to no configuration at all.
\<close>

theorem Parse_off:
  assumes "decode (strip ctx) = Inr j" and "lib2ray_off j" and "conf v = None"
  shows "\<exists>v'. Parse strip decode uid it (LoadFromString ctx v, s) = Inr ((v', s), None) \<and>
     ToPb v' = Inr None"
proof -
  have "parseConf strip decode (LoadFromString ctx v) = (LoadFromString ctx v, None)"
    using assms by (auto simp: parseConf_def LoadFromString_def lib2ray_off_def
        split: option.splits)
  then show ?thesis
    using assms(3) by (simp add: Parse_def ToPb_def LoadFromString_def)
qed

theorem Parse_off_witness:
  "\<exists>v'. Parse id (\<lambda>_. Inr (JObject [(''port'', JNumber ''10808'')])) 0 []
          (LoadFromString ''{}'' zero_converter, \<lparr>nodes = Map.empty, denied = (\<lambda>_. False)\<rparr>) =
        Inr ((v', \<lparr>nodes = Map.empty, denied = (\<lambda>_. False)\<rparr>), None) \<and> ToPb v' = Inr None"
  by (rule Parse_off [where j = "JObject [(''port'', JNumber ''10808'')]"])
     (simp_all add: lib2ray_off_def sj_CheckGet_def zero_converter_def)

section \<open>Conversion\<close>

text \<open>
  C6. The conversion to protobuf structs succeeds exactly when every environment entry has an
  equals sign; it then keeps the scripts, the escorted processes in order, the VPN service and
  the prepared domain names, and carries the environment as a map. No pointer it hands on is nil.
\<close>

theorem ConvertToPb_spec:
  "ConvertToPb c = Inr pb \<longleftrightarrow>
     list_all env_ok (additionalEnv c) \<and> NoAutoConvert pb \<and>
     Env pb = Some \<lparr>Vars = effective_env (additionalEnv c)\<rparr> \<and>
     (\<exists>rm vpn. RootModeConf pb = Some rm \<and> VpnConf pb = Some vpn \<and>
        Scripts rm = Some \<lparr>UpScript = upscript c, DownScript = downscript c\<rparr> \<and>
        map ep_Target (Escorting rm) = map et_Target (esco c) \<and>
        map ep_Args (Escorting rm) = map et_Args (esco c) \<and>
        map ep_Forgiveable (Escorting rm) = map et_Forgiveable (esco c) \<and>
        Service vpn = Some \<lparr>vs_Target = vc_Target (vpnConfig c), vs_Args = vc_Args (vpnConfig c),
                            VPNSetupArg = vc_VPNSetupArg (vpnConfig c)\<rparr> \<and>
        PreparedDomainName vpn =
          Some \<lparr>TCPVersion = dl_TCPVersion (dnsloopfix c), UDPVersion = dl_UDPVersion (dnsloopfix c),
                DomainNameList = dl_DomainNameList (dnsloopfix c)\<rparr>)"
  (is "_ \<longleftrightarrow> ?spec")
proof
  assume "ConvertToPb c = Inr pb"
  then show ?spec
    by (auto simp: ConvertToPb_def envToMap_cases convert_escort_def split: if_splits)
next
  assume spec: ?spec
  have escort_eq: "ps = map convert_escort es"
    if "map ep_Target ps = map et_Target es" "map ep_Args ps = map et_Args es"
      "map ep_Forgiveable ps = map et_Forgiveable es" for ps es
    using that
  proof (induction ps arbitrary: es)
    case (Cons p ps)
    then obtain e es' where "es = e # es'" by (cases es) auto
    with Cons show ?case by (cases p) (auto simp: convert_escort_def)
  qed simp
  from spec show "ConvertToPb c = Inr pb"
    by (cases pb) (auto simp: ConvertToPb_def envToMap_cases intro!: RootModeConfig.equality
        VPNConfig.equality dest: escort_eq)
qed

section \<open>Rendering\<close>

text \<open>The environment a converter renders with, once its variables are known.\<close>

definition render_vars :: "int \<Rightarrow> JsonToPbConverter \<Rightarrow> string \<rightharpoonup> string" where
  "render_vars uid v =
     (case jc_Env v of None \<Rightarrow> Map.empty | Some e \<Rightarrow> Vars e) ++
     [''proxyuid'' \<mapsto> Itoa uid, ''datadir'' \<mapsto> getDataDir (Datadir v)]"

definition render_ready :: "(string \<times> string) list \<Rightarrow> JsonToPbConverter \<Rightarrow> bool" where
  "render_ready it v \<longleftrightarrow> (\<exists>e. jc_Env v = Some e \<and> ranges it (Vars e) \<and> keys_ok (Vars e))"

lemma render_creater_ready:
  "render_ready it v \<Longrightarrow> may_range it (render_creater v) \<and> keys_ok (conf_vars (render_creater v))"
  by (auto simp: render_ready_def render_creater_def may_range_def conf_vars_def)

lemma render_env_ready: "render_ready it v \<Longrightarrow> render_env uid it v = Inr (render_vars uid v)"
proof -
  assume ready: "render_ready it v"
  obtain e where "GetEnvironment uid it (render_creater v) = Inr e" "list_all env_ok e"
    "effective_env e = conf_vars (render_creater v) ++
       status_vars uid (new_Status\<lparr>PackageName := Datadir v\<rparr> :: unit Status)"
    using GetEnvironment_ok [of "render_creater v" _ uid it] render_creater_ready [OF ready]
    by (auto simp: render_creater_def)
  then show ?thesis
    by (simp add: render_env_def envToMap_cases render_vars_def conf_vars_def render_creater_def
        status_vars_def)
qed

lemma render_lookup_ready:
  assumes "render_ready it v"
  shows "render_lookup uid it v args x =
     (if list_all env_ok args
      then lookup_env (render_vars uid v ++ effective_env args) x else Inl SliceBounds)"
proof -
  obtain e where e: "GetEnvironment uid it (render_creater v) = Inr e" "list_all env_ok e"
    "effective_env e = conf_vars (render_creater v) ++
       status_vars uid (new_Status\<lparr>PackageName := Datadir v\<rparr> :: unit Status)"
    using GetEnvironment_ok [of "render_creater v" _ uid it] render_creater_ready [OF assms]
    by (auto simp: render_creater_def)
  then show ?thesis
    by (simp add: render_lookup_def envToMap_cases render_vars_def conf_vars_def
        render_creater_def status_vars_def effective_env_append)
qed

lemma keys_ok_effective_env: "keys_ok (effective_env xs)"
proof -
  have "CHR ''='' \<notin> set k" if "(k, v) \<in> set (List.map_filter entry_kv xs)" for k v
    using that by (auto simp: List.map_filter_def) (metis entry_kv_SomeD option.collapse entry_kv_None)
  then show ?thesis
    by (fastforce simp: keys_ok_def effective_env_def dom_map_of_conv_image_fst)
qed

lemma envToMap_keys_ok: "envToMap xs = Inr m \<Longrightarrow> keys_ok m"
  by (auto simp: envToMap_cases keys_ok_effective_env split: if_splits)

lemma lookup_env_total [simp]: "\<exists>v. lookup_env envr n = Inr v"
  by (simp add: lookup_env_def)

lemma expand_total: "\<exists>r. os_Expand (lookup_env envr) x = Inr r"
  by (rule os_Expand_total) simp

lemma expand_all_total: "\<exists>r. go_map (os_Expand (lookup_env envr)) xs = Inr r"
proof -
  have "\<exists>g. \<forall>x. os_Expand (lookup_env envr) x = Inr (g x)"
    using expand_total by (intro choice) blast
  then obtain g where "\<And>x. os_Expand (lookup_env envr) x = Inr (g x)" by blast
  then have "go_map (os_Expand (lookup_env envr)) xs = Inr (map g xs)" by (intro go_map_total)
  then show ?thesis ..
qed

lemma render_escort_total: "\<exists>r. go_map (render_escort envr) xs = Inr r"
proof -
  have "\<exists>r. render_escort envr x = Inr r" for x
    using expand_total [of envr "et_Target x"] expand_all_total [of envr "et_Args x"]
    by (auto simp: render_escort_def)
  then have "\<exists>g. \<forall>x. render_escort envr x = Inr (g x)" by (intro choice) blast
  then obtain g where "\<And>x. render_escort envr x = Inr (g x)" by blast
  then have "go_map (render_escort envr) xs = Inr (map g xs)" by (intro go_map_total)
  then show ?thesis ..
qed

text \<open>
  C23. Rendering of the escorts and of the VPN section (not of the templates, where an argument
  without an equals sign panics) never panics and does not
  depend on the order in which the runtime visits the environment.
\<close>

theorem render_order_independent:
  assumes "render_ready it v" and "render_ready it' v" and "conf v = Some c"
  shows "renderesco uid it v = renderesco uid it' v \<and> rendervpn uid it v = rendervpn uid it' v \<and>
     (\<exists>v'. renderesco uid it v = Inr v') \<and> (\<exists>v'. rendervpn uid it v = Inr v')"
proof -
  let ?m = "render_vars uid v"
  obtain es where "go_map (render_escort ?m) (esco c) = Inr es" using render_escort_total by blast
  moreover obtain as where "go_map (os_Expand (lookup_env ?m)) (vc_Args (vpnConfig c)) = Inr as"
    using expand_all_total by blast
  moreover obtain t where "os_Expand (lookup_env ?m) (vc_Target (vpnConfig c)) = Inr t"
    using expand_total by blast
  ultimately show ?thesis
    using assms by (simp add: renderesco_def rendervpn_def render_env_ready)
qed

definition example_converter :: JsonToPbConverter where
  "example_converter = zero_converter
     \<lparr>conf := Some (zero_conf\<lparr>vpnConfig := zero_vpnservice\<lparr>vc_Target := ''${datadir}tun2socks''\<rparr>\<rparr>),
      jc_Env := Some \<lparr>Vars = [''a'' \<mapsto> ''1'', ''b'' \<mapsto> ''2'']\<rparr>\<rparr>"

lemma example_converter_ready:
  "render_ready [(''b'', ''2''), (''a'', ''1'')] example_converter"
  "render_ready [(''a'', ''1''), (''b'', ''2'')] example_converter"
  by (auto simp: render_ready_def example_converter_def ranges_def keys_ok_def fun_upd_twist
      split: if_splits)

theorem render_order_independent_witness:
  "rendervpn 0 [(''b'', ''2''), (''a'', ''1'')] example_converter =
     rendervpn 0 [(''a'', ''1''), (''b'', ''2'')] example_converter"
proof -
  obtain c where "conf example_converter = Some c" by (simp add: example_converter_def)
  from render_order_independent [OF example_converter_ready this] show ?thesis by blast
qed

text \<open>
  The VPN helper's path: a target written \<open>${datadir}name\<close> is rendered to the file \<open>name\<close>
  of the package's data directory, whatever the configuration's own \<open>env\<close> says of \<open>datadir\<close>.
\<close>

theorem rendervpn_datadir:
  assumes "render_ready it v" and "conf v = Some c"
    and "vc_Target (vpnConfig c) = ''${datadir}'' @ t" and "CHR ''$'' \<notin> set t"
  shows "\<exists>v' c'. rendervpn uid it v = Inr v' \<and> conf v' = Some c' \<and>
     vc_Target (vpnConfig c') = getDataDir (Datadir v) @ t"
proof -
  let ?mf = "lookup_env (render_vars uid v)"
  obtain as where "go_map (os_Expand ?mf) (vc_Args (vpnConfig c)) = Inr as"
    using expand_all_total by blast
  moreover have "?mf ''datadir'' = Inr (getDataDir (Datadir v))"
    by (simp add: lookup_env_def render_vars_def)
  moreover have "os_Expand ?mf (''${'' @ ''datadir'' @ CHR ''}'' # t) =
      go_bind (?mf ''datadir'') (\<lambda>x. go_bind (os_Expand ?mf t) (\<lambda>r. Inr (x @ r)))"
    by (rule os_Expand_brace) simp_all
  ultimately show ?thesis
    using assms by (simp add: rendervpn_def render_env_ready os_Expand_plain)
qed

theorem rendervpn_datadir_witness:
  "\<exists>v' c'. rendervpn 0 [(''b'', ''2''), (''a'', ''1'')] example_converter = Inr v' \<and> conf v' = Some c' \<and>
     vc_Target (vpnConfig c') = getDataDir (Datadir example_converter) @ ''tun2socks''"
proof -
  have "\<exists>c. conf example_converter = Some c \<and> vc_Target (vpnConfig c) = ''${datadir}'' @ ''tun2socks''"
    by (simp add: example_converter_def)
  then obtain c where c: "conf example_converter = Some c"
    "vc_Target (vpnConfig c) = ''${datadir}'' @ ''tun2socks''" by blast
  show ?thesis by (rule rendervpn_datadir [OF example_converter_ready(1) c]) simp
qed

section \<open>Templates\<close>

lemma write_target_read:
  assumes "snd (os_Create p s) = None"
  shows "ioutil_ReadFile (write_target p c s) p = Inr c"
proof -
  from assms obtain s' where s': "os_Create p s = (s', None)" by (cases "os_Create p s") auto
  then obtain q r m where q: "follow max_links s p = Inr (q, r)" "s' = set_node q (File [] m) s"
    by (auto simp: os_Create_def WriteFile_ok_iff)
  then have "follow max_links s' p = Inr (q, Some (File [] m))"
    by (simp add: follow_set_final)
  then obtain s'' where "ioutil_WriteFile p c 438 s' = (s'', None)"
    by (simp add: ioutil_WriteFile_def)
  then show ?thesis using s' read_after_write by (simp add: write_target_def)
qed

lemma render_lookup_fun:
  "render_ready it v \<Longrightarrow> list_all env_ok args \<Longrightarrow>
     render_lookup uid it v args = lookup_env (render_vars uid v ++ effective_env args)"
  by (rule ext) (simp add: render_lookup_ready)

text \<open>
  C16. Templates: when the arguments of an entry all have an equals sign, rendering it succeeds,
  and the target file, once it can be created, holds the source's text with every variable
  replaced, the entry's arguments taking precedence over the environment. A source that cannot
  be read counts as empty, so that the target is then left empty.
\<close>

theorem render_template_result:
  assumes "render_ready it v"
    and "go_map (os_Expand (lookup_env envr0)) (rt_Args r) = Inr args" and "list_all env_ok args"
  shows "\<exists>src ft op s'.
     os_Expand (lookup_env (render_vars uid v ++ effective_env args)) (rt_Source r) = Inr src \<and>
     os_Expand (lookup_env (render_vars uid v ++ effective_env args)) (rt_Target r) = Inr ft \<and>
     os_Expand (lookup_env (render_vars uid v ++ effective_env args)) (read_source s src) = Inr op \<and>
     render_template uid it v envr0 r s = Inr (r\<lparr>rt_Args := args\<rparr>, s') \<and>
     (snd (os_Create ft s) = None \<longrightarrow> ioutil_ReadFile s' ft = Inr op)"
proof -
  let ?mf = "lookup_env (render_vars uid v ++ effective_env args)"
  obtain src where src: "os_Expand ?mf (rt_Source r) = Inr src" using expand_total by blast
  obtain ft where ft: "os_Expand ?mf (rt_Target r) = Inr ft" using expand_total by blast
  obtain op where op: "os_Expand ?mf (read_source s src) = Inr op" using expand_total by blast
  have "render_template uid it v envr0 r s = Inr (r\<lparr>rt_Args := args\<rparr>, write_target ft op s)"
    using assms by (simp add: render_template_def render_lookup_fun src ft op)
  with src ft op write_target_read show ?thesis by blast
qed

definition example_fs :: fs where
  "example_fs = \<lparr>nodes = [''/d'' \<mapsto> Dir, ''/d/in'' \<mapsto> File ''port=$p'' 384], denied = (\<lambda>_. False)\<rparr>"

definition example_template :: libv2rayconfRenderCfgTarget where
  "example_template = \<lparr>rt_Target = ''/d/out'', rt_Args = [''p=53''], rt_Source = ''/d/in''\<rparr>"

theorem render_template_result_witness:
  "\<exists>s'. render_template 0 [(''b'', ''2''), (''a'', ''1'')] example_converter Map.empty example_template
        example_fs = Inr (example_template, s') \<and> ioutil_ReadFile s' ''/d/out'' = Inr ''port=53''"
proof -
  let ?mf = "lookup_env (render_vars 0 example_converter ++ effective_env [''p=53''])"
  have args: "go_map (os_Expand (lookup_env Map.empty)) (rt_Args example_template) = Inr [''p=53'']"
    by (simp add: example_template_def os_Expand_plain)
  have ok: "list_all env_ok [''p=53'']" by (simp add: env_ok_def)
  have ex: "os_Expand ?mf ''/d/in'' = Inr ''/d/in''" "os_Expand ?mf ''/d/out'' = Inr ''/d/out''"
    by (simp_all add: os_Expand_plain)
  have "?mf ''p'' = Inr ''53''"
    using effective_env_kv [of "''p''" "''53''" "[]"] by (simp add: lookup_env_def kv_def)
  then have port: "os_Expand ?mf ''port=$p'' = Inr ''port=53''"
    using os_Expand_no_dollar [of "''port=''" ?mf "''$p''"] os_Expand_alnum [of "''p''" "[]" ?mf]
    by (simp add: isAlphaNum_def is_digit_def)
  have rd: "read_source example_fs ''/d/in'' = ''port=$p''"
    by (simp add: read_source_def ioutil_ReadFile_def os_Open_def os_Stat_direct example_fs_def)
  have "snd (os_Create ''/d/out'' example_fs) = None"
    by (simp add: os_Create_def ioutil_WriteFile_def follow_direct max_links_def is_dir_def
        os_Stat_direct example_fs_def path_Dir_def path_Split_def path_Clean_def Let_def)
  with render_template_result [OF example_converter_ready(1) args ok, of 0 example_fs]
  show ?thesis by (auto simp: example_template_def ex port rd)
qed

section \<open>After a failed parse\<close>

text \<open>
  C24. A configuration left behind by an error: when the section is enabled and its \<open>env\<close> is not
  an array, \<open>Parse\<close> returns the error, but the converter already holds a configuration. \<open>ToPb\<close>
  then hands on a protobuf configuration with the section's scripts, no escorted process and no
  VPN service, so a caller that ignores the error starts with it.
\<close>

theorem Parse_error_leaves_conf:
  assumes "decode (strip ctx) = Inr j" and "sj_CheckGet j ''#lib2ray'' = Some l"
    and "sj_Bool (sj_GetPath l [''enabled'']) = Inr True"
    and "sj_StringArray (sj_GetPath l [''env'']) = Inl e"
  shows "\<exists>v' pb rm vpn. Parse strip decode uid it (LoadFromString ctx v, s) = Inr ((v', s), Some (JsonErr e)) \<and>
     ToPb v' = Inr (Some pb) \<and> RootModeConf pb = Some rm \<and> VpnConf pb = Some vpn \<and>
     Escorting rm = [] \<and> Service vpn = Some zero_VPNServiceConfig \<and>
     map_option UpScript (Scripts rm) =
       Some (jsonStringDefault (sj_GetPath l [''listener'', ''onUp'']) ''#none'')"
proof -
  let ?c = "zero_conf
    \<lparr>upscript := jsonStringDefault (sj_GetPath l [''listener'', ''onUp'']) ''#none'',
     downscript := jsonStringDefault (sj_GetPath l [''listener'', ''onDown'']) ''#none''\<rparr>"
  have "parse_lib2ray l = (?c, Some (JsonErr e))"
    using assms(4) by (simp add: parse_lib2ray_def)
  then have "parseConf strip decode (LoadFromString ctx v) =
      ((LoadFromString ctx v)\<lparr>conf := Some ?c\<rparr>, Some (JsonErr e))"
    using assms(1-3) by (simp add: parseConf_def LoadFromString_def)
  then show ?thesis
    by (simp add: Parse_def ToPb_def ConvertToPb_def envToMap_def zero_conf_def
        zero_VPNServiceConfig_def zero_vpnservice_def)
qed

theorem Parse_error_leaves_conf_witness:
  "\<exists>v' pb rm vpn. Parse id (\<lambda>_. Inr (JObject [(''#lib2ray'', JObject [(''enabled'', JBool True)])])) 0 []
        (LoadFromString ''{}'' zero_converter, example_fs) =
      Inr ((v', example_fs), Some (JsonErr (TypeAssertion ''[]interface{}''))) \<and>
     ToPb v' = Inr (Some pb) \<and> RootModeConf pb = Some rm \<and> VpnConf pb = Some vpn \<and>
     Escorting rm = [] \<and> Service vpn = Some zero_VPNServiceConfig \<and>
     map_option UpScript (Scripts rm) = Some (jsonStringDefault JNull ''#none'')"
  using Parse_error_leaves_conf [where strip = id and ctx = "''{}''" and uid = "0" and it = "[]"
      and decode = "\<lambda>_. Inr (JObject [(''#lib2ray'', JObject [(''enabled'', JBool True)])])"
      and l = "JObject [(''enabled'', JBool True)]" and v = zero_converter and s = example_fs
      and e = "TypeAssertion ''[]interface{}''"]
  by (simp add: sj_CheckGet_def sj_GetPath_def sj_Get_def sj_StringArray_def)

text \<open>
  An \<open>env\<close> array with an element that is neither a string nor null is not an error: the vendored
  \<open>StringArray\<close> answers with no strings and no error, and the whole list is dropped.
\<close>

lemma env_dropped:
  "sj_GetPath l [''env''] = JArray js \<Longrightarrow> sj_strings js = None \<Longrightarrow>
     sj_StringArray (sj_GetPath l [''env'']) = Inr []"
  by (simp add: sj_StringArray_def)

end
