(* ===== verification/QREncode.thy ===== *)
theory QREncode
  imports QRScan "HOL-Library.Signed_Division"
begin

text \<open>
  The sender's side of a transfer by QR codes (\<open>PackedConfigure.go\<close>, \<open>QREncoding.go\<close> and
  \<open>libv2rayURL.go\<close> of V2RayConfigureFileUtil): a configuration file is packed, split into segments
  with redundancy, and each segment written as an address. What the libraries do is a record of
  functions beside the receiver's \<open>codec\<close>, with what the transfer relies on as named laws of the two.
\<close>

section \<open>Packing and encoding\<close>

text \<open>
  \<open>rs_Split\<close> stands for \<open>reedsolomon.New\<close> and \<open>Split\<close>, \<open>rs_Encode\<close> for the shards after \<open>Encode\<close>,
  whose error is never looked at.
\<close>

record 'e encoder_lib =
  gzip_best :: "string \<Rightarrow> 'e + string"
  marshal_Packed :: "PackedConfig \<Rightarrow> 'e + string"
  marshal_QR :: "QRCode \<Rightarrow> 'e + string"
  base91_Encode :: "string \<Rightarrow> string"
  rs_Split :: "int \<Rightarrow> int \<Rightarrow> string \<Rightarrow> 'e + string list"
  rs_Encode :: "int \<Rightarrow> int \<Rightarrow> string list \<Rightarrow> string list"
  rs_Verify :: "int \<Rightarrow> int \<Rightarrow> string list \<Rightarrow> 'e + bool"

definition PackV2RayConfigureIntoPackedFormB ::
  "'e codec \<Rightarrow> 'e encoder_lib \<Rightarrow> string \<Rightarrow> string \<Rightarrow> 'e qr_error + string" where
  "PackV2RayConfigureIntoPackedFormB c e FileName ft =
     (case GuessConfigType FileName of
        None \<Rightarrow> Inl CannotGuess
      | Some t \<Rightarrow>
          (case gzip_best e ft of
             Inl x \<Rightarrow> Inl (CodecError x)
           | Inr z \<Rightarrow>
               (case marshal_Packed e \<lparr>ConfigType = t, pk_CheckSum = sha3_Sum256 c ft, pk_Payload = z,
                                       GzipCompressed = True\<rparr> of
                  Inl x \<Rightarrow> Inl (CodecError x)
                | Inr out \<Rightarrow> Inr out)))"

definition ByteToV2RayURL :: "'e encoder_lib \<Rightarrow> string \<Rightarrow> string" where
  "ByteToV2RayURL e vu = LibV2RayURLSignature @ base91_Encode e vu"

text \<open>
  \<open>ReconsConf\<close> is a pointer to the two numbers from which the redundancy is computed in floating
  point: a function of the number of segments.
\<close>

record QRGenConf =
  MaxQrSize :: "32 word"
  ForceReconstruct :: bool
  ReconsConf :: "(int \<Rightarrow> int) option"

record L2QRGen =
  PayloadSegment :: int
  ReconstructSegment :: int
  TotalSegment :: int
  templ :: QRCode
  gen_payload :: "string list"

definition zero_QRCode :: QRCode where
  "zero_QRCode = \<lparr>MsgChecksum = [], MessageSegType = 0, GroupCount = 0, MessgaeNumber = 0, qr_Payload = None,
     PayloadChecksum = [], OriginalSegmentNum = 0, PayloadTotalSize = 0\<rparr>"

definition single_segment :: "string \<Rightarrow> L2QRGen" where
  "single_segment msg =
     \<lparr>PayloadSegment = 0, ReconstructSegment = 0, TotalSegment = 1,
      templ = zero_QRCode\<lparr>PayloadTotalSize := word_of_int (int (length msg)), OriginalSegmentNum := 1,
        GroupCount := 1, MessageSegType := 0\<rparr>,
      gen_payload = [msg]\<rparr>"

definition many_segments ::
  "'e encoder_lib \<Rightarrow> string \<Rightarrow> int \<Rightarrow> int \<Rightarrow> 'e qr_error + L2QRGen" where
  "many_segments e msg ps rs =
     (case rs_Split e ps rs msg of
        Inl x \<Rightarrow> Inl (CodecError x)
      | Inr shards \<Rightarrow>
          (case rs_Verify e ps rs (rs_Encode e ps rs shards) of
             Inl x \<Rightarrow> Inl (CodecError x)
           | Inr ok \<Rightarrow>
               if \<not> ok then Inl RSFailed
               else Inr \<lparr>PayloadSegment = ps, ReconstructSegment = rs, TotalSegment = rs + ps,
                         templ = zero_QRCode\<lparr>PayloadTotalSize := word_of_int (int (length msg)),
                           GroupCount := word_of_int (rs + ps), MessageSegType := 1,
                           OriginalSegmentNum := word_of_int ps\<rparr>,
                         gen_payload = rs_Encode e ps rs shards\<rparr>))"

text \<open>Integer division truncates (\<open>sdiv\<close>); dividing by zero panics.\<close>

definition EncodeToL2QR ::
  "'e codec \<Rightarrow> 'e encoder_lib \<Rightarrow> string \<Rightarrow> QRGenConf \<Rightarrow> ('e qr_error + L2QRGen) go" where
  "EncodeToL2QR c e msg conf =
     (let size = int (length msg); done = (\<lambda>g. g\<lparr>templ := (templ g)\<lparr>MsgChecksum := sha3_Sum256 c msg\<rparr>\<rparr>) in
        if size < sint (MaxQrSize conf) \<and> \<not> ForceReconstruct conf then Inr (Inr (done (single_segment msg)))
        else if MaxQrSize conf = 0 then Inl DivideByZero
        else
          go_bind (deref (ReconsConf conf)) (\<lambda>recons.
            (let ps = size sdiv sint (MaxQrSize conf) + 1 in
               Inr (case many_segments e msg ps (recons ps) of Inl x \<Rightarrow> Inl x | Inr g \<Rightarrow> Inr (done g)))))"

definition GetSegmentAsByte ::
  "'e codec \<Rightarrow> 'e encoder_lib \<Rightarrow> int \<Rightarrow> L2QRGen \<Rightarrow> (L2QRGen \<times> ('e + string)) go" where
  "GetSegmentAsByte c e seg qg =
     go_bind (go_index (gen_payload qg) seg) (\<lambda>p.
       (let t = (templ qg)\<lparr>qr_Payload := Some p, PayloadChecksum := sha3_Sum256 c p,
                  MessgaeNumber := word_of_int seg\<rparr>
        in Inr (qg\<lparr>templ := t\<rparr>, marshal_QR e t)))"

text \<open>The addresses of all segments, made one after the other as the tool does.\<close>

fun make_codes ::
  "'e codec \<Rightarrow> 'e encoder_lib \<Rightarrow> int list \<Rightarrow> L2QRGen \<Rightarrow> ('e + string list) go" where
  "make_codes c e [] qg = Inr (Inr [])"
| "make_codes c e (i # is) qg =
     go_bind (GetSegmentAsByte c e i qg) (\<lambda>(qg', r).
       (case r of
          Inl x \<Rightarrow> Inr (Inl x)
        | Inr b \<Rightarrow>
            go_bind (make_codes c e is qg') (\<lambda>rs.
              Inr (case rs of Inl x \<Rightarrow> Inl x | Inr us \<Rightarrow> Inr (ByteToV2RayURL e b # us)))))"

section \<open>What the libraries promise\<close>

text \<open>The legacy scheme leaves the addresses of this one alone.\<close>

definition legacy_silent :: "'e codec \<Rightarrow> bool" where
  "legacy_silent c \<longleftrightarrow> (\<forall>u. \<not> fst (TryRender c (LibV2RayURLSignature @ u)))"

definition base91_inverse :: "'e codec \<Rightarrow> 'e encoder_lib \<Rightarrow> bool" where
  "base91_inverse c e \<longleftrightarrow> (\<forall>b. b \<noteq> [] \<longrightarrow> base91_Decode c (base91_Encode e b) = Some b)"

definition gzip_inverse :: "'e codec \<Rightarrow> 'e encoder_lib \<Rightarrow> bool" where
  "gzip_inverse c e \<longleftrightarrow> (\<forall>x z. gzip_best e x = Inr z \<longrightarrow> gunzip c z = Inr x)"

text \<open>Protocol buffers: an empty payload is read back as nil and is left aside; no message is empty.\<close>

definition proto_inverse :: "'e codec \<Rightarrow> 'e encoder_lib \<Rightarrow> bool" where
  "proto_inverse c e \<longleftrightarrow>
     (\<forall>p b. marshal_Packed e p = Inr b \<and> ConfigType p \<noteq> Invaild \<longrightarrow> b \<noteq> [] \<and> unmarshal_Packed c b = Inr p) \<and>
     (\<forall>m x b. marshal_QR e m = Inr b \<and> qr_Payload m = Some x \<and> x \<noteq> [] \<longrightarrow> b \<noteq> [] \<and> unmarshal_QR c b = Inr m)"

text \<open>
  Reed-Solomon: a message that is not empty gives \<open>ps + rs\<close> shards that are not empty, and any \<open>ps\<close>
  of them give it back.
\<close>

definition rs_recovers :: "'e codec \<Rightarrow> 'e encoder_lib \<Rightarrow> bool" where
  "rs_recovers c e \<longleftrightarrow>
     (\<forall>ps rs msg shards. msg \<noteq> [] \<and> rs_Split e ps rs msg = Inr shards \<longrightarrow>
        (let all = rs_Encode e ps rs shards in
           0 < ps \<and> 0 < rs \<and> int (length all) = ps + rs \<and> [] \<notin> set all \<and>
           (\<forall>S \<subseteq> {..<length all}. ps \<le> int (card S) \<longrightarrow>
              (\<exists>got. rs_Reconstruct c ps rs (pieces (length all) ((!) all) S) = Inr got \<and>
                 rs_Join c ps got (int (length msg)) = msg))))"

section \<open>What the encoder makes\<close>

text \<open>The template of a generator, and the segments it needs.\<close>

definition needed :: "L2QRGen \<Rightarrow> nat" where
  "needed gen = unat (OriginalSegmentNum (templ gen))"

definition group_template :: "'e codec \<Rightarrow> string \<Rightarrow> nat \<Rightarrow> nat \<Rightarrow> QRCode" where
  "group_template c msg g n =
     \<lparr>MsgChecksum = sha3_Sum256 c msg, MessageSegType = (if g = 1 then 0 else 1), GroupCount = of_nat g,
      MessgaeNumber = 0, qr_Payload = None, PayloadChecksum = [], OriginalSegmentNum = of_nat n,
      PayloadTotalSize = of_nat (length msg)\<rparr>"

definition recovers :: "'e codec \<Rightarrow> string \<Rightarrow> nat \<Rightarrow> string list \<Rightarrow> bool" where
  "recovers c msg n all \<longleftrightarrow>
     (if length all = 1 then all = [msg]
      else \<forall>S \<subseteq> {..<length all}. n \<le> card S \<longrightarrow>
        (\<exists>got. rs_Reconstruct c (int n) (int (length all) - int n) (pieces (length all) ((!) all) S) = Inr got \<and>
           rs_Join c (int n) got (int (length msg)) = msg))"

definition group_of :: "'e codec \<Rightarrow> string \<Rightarrow> L2QRGen \<Rightarrow> bool" where
  "group_of c msg gen \<longleftrightarrow>
     templ gen = group_template c msg (length (gen_payload gen)) (needed gen) \<and>
     0 < needed gen \<and> needed gen \<le> length (gen_payload gen) \<and>
     TotalSegment gen = int (length (gen_payload gen)) \<and> [] \<notin> set (gen_payload gen) \<and>
     recovers c msg (needed gen) (gen_payload gen)"

lemma many_segments_group:
  assumes "many_segments e msg ps rs = Inr gen" and "rs_recovers c e" and "msg \<noteq> []"
    and "TotalSegment gen < 2 ^ 31"
  shows "group_of c msg (gen\<lparr>templ := (templ gen)\<lparr>MsgChecksum := sha3_Sum256 c msg\<rparr>\<rparr>)"
proof -
  obtain shards where shards: "rs_Split e ps rs msg = Inr shards"
    and gen: "gen = \<lparr>PayloadSegment = ps, ReconstructSegment = rs, TotalSegment = rs + ps,
       templ = zero_QRCode\<lparr>PayloadTotalSize := word_of_int (int (length msg)),
         GroupCount := word_of_int (rs + ps), MessageSegType := 1, OriginalSegmentNum := word_of_int ps\<rparr>,
       gen_payload = rs_Encode e ps rs shards\<rparr>"
    using assms(1) by (auto simp: many_segments_def split: sum.splits if_splits)
  define all where "all = rs_Encode e ps rs shards"
  from assms(2,3) shards have law: "0 < ps" "0 < rs" "int (length all) = ps + rs" "[] \<notin> set all"
    and recov: "\<And>S. S \<subseteq> {..<length all} \<Longrightarrow> ps \<le> int (card S) \<Longrightarrow>
      \<exists>got. rs_Reconstruct c ps rs (pieces (length all) ((!) all) S) = Inr got \<and>
        rs_Join c ps got (int (length msg)) = msg"
    unfolding rs_recovers_def Let_def all_def by blast+
  from law obtain n r where n: "ps = int n" "rs = int r" "0 < n" "0 < r"
    by (metis nat_int pos_int_cases)
  then have len: "length all = n + r" using law(3) by linarith
  have "n + r < 2 ^ 31" using assms(4) n by (simp add: gen)
  then have "unat (of_nat n :: 32 word) = n" by (simp add: unsigned_of_nat take_bit_nat_eq_self)
  moreover have "word_of_int (int r + int n) = (of_nat (n + r) :: 32 word)"
    by (simp add: add.commute)
  moreover have "rs_Encode e (int n) (int r) shards = all" by (simp add: all_def n)
  ultimately show ?thesis
    using n law(4) recov len
    by (simp add: group_of_def gen needed_def group_template_def zero_QRCode_def recovers_def add.commute)
qed

lemma single_segment_group:
  assumes "msg \<noteq> []"
  shows "group_of c msg ((single_segment msg)\<lparr>templ := (templ (single_segment msg))\<lparr>MsgChecksum := sha3_Sum256 c msg\<rparr>\<rparr>)"
  using assms
  by (simp add: group_of_def single_segment_def needed_def group_template_def zero_QRCode_def recovers_def)

lemma EncodeToL2QR_group:
  assumes "EncodeToL2QR c e msg conf = Inr (Inr gen)" and "rs_recovers c e" and "msg \<noteq> []"
    and "TotalSegment gen < 2 ^ 31"
  shows "group_of c msg gen"
proof (cases "int (length msg) < sint (MaxQrSize conf) \<and> \<not> ForceReconstruct conf")
  case True
  with assms(1) single_segment_group [OF assms(3), of c] show ?thesis
    by (auto simp: EncodeToL2QR_def)
next
  case False
  let ?ps = "int (length msg) sdiv sint (MaxQrSize conf) + 1"
  from False assms(1) obtain recons where r: "(case many_segments e msg ?ps (recons ?ps) of Inl x \<Rightarrow> Inl x
      | Inr g \<Rightarrow> Inr (g\<lparr>templ := (templ g)\<lparr>MsgChecksum := sha3_Sum256 c msg\<rparr>\<rparr>)) = Inr gen"
    by (auto simp: EncodeToL2QR_def Let_def go_bind_Inr_iff split: if_splits)
  then obtain g where g: "many_segments e msg ?ps (recons ?ps) = Inr g"
    "gen = g\<lparr>templ := (templ g)\<lparr>MsgChecksum := sha3_Sum256 c msg\<rparr>\<rparr>"
    by (cases "many_segments e msg ?ps (recons ?ps)") auto
  then have "TotalSegment g < 2 ^ 31" using assms(4) by simp
  from many_segments_group [OF g(1) assms(2,3) this] g(2) show ?thesis by simp
qed

text \<open>Every code of a generator is the address of its segment.\<close>

definition same_group :: "QRCode \<Rightarrow> QRCode \<Rightarrow> bool" where
  "same_group t u \<longleftrightarrow> (\<forall>p q k. t\<lparr>qr_Payload := p, PayloadChecksum := q, MessgaeNumber := k\<rparr> =
     u\<lparr>qr_Payload := p, PayloadChecksum := q, MessgaeNumber := k\<rparr>)"

lemma GetSegmentAsByte_code:
  assumes "i < length (gen_payload qg)" and "same_group (templ qg) t"
  shows "\<exists>qg'. GetSegmentAsByte c e (int i) qg =
       Inr (qg', marshal_QR e (t\<lparr>qr_Payload := Some (gen_payload qg ! i),
         PayloadChecksum := sha3_Sum256 c (gen_payload qg ! i), MessgaeNumber := of_nat i\<rparr>)) \<and>
     gen_payload qg' = gen_payload qg \<and> same_group (templ qg') t"
  using assms by (simp add: GetSegmentAsByte_def go_index_in Let_def same_group_def)

lemma make_codes_ok:
  assumes "make_codes c e (map int ks) qg = Inr (Inr us)" and "set ks \<subseteq> {..<length (gen_payload qg)}"
    and "same_group (templ qg) t"
  shows "list_all2 (\<lambda>i u. \<exists>b. marshal_QR e (t\<lparr>qr_Payload := Some (gen_payload qg ! i),
         PayloadChecksum := sha3_Sum256 c (gen_payload qg ! i), MessgaeNumber := of_nat i\<rparr>) = Inr b \<and>
       u = ByteToV2RayURL e b) ks us"
  using assms
proof (induction ks arbitrary: qg us)
  case (Cons i ks)
  from Cons.prems(2,3) obtain qg' where qg': "GetSegmentAsByte c e (int i) qg =
       Inr (qg', marshal_QR e (t\<lparr>qr_Payload := Some (gen_payload qg ! i),
         PayloadChecksum := sha3_Sum256 c (gen_payload qg ! i), MessgaeNumber := of_nat i\<rparr>))"
    "gen_payload qg' = gen_payload qg" "same_group (templ qg') t"
    using GetSegmentAsByte_code [of i qg t c e] by auto
  with Cons.prems(1) obtain b where b: "marshal_QR e (t\<lparr>qr_Payload := Some (gen_payload qg ! i),
         PayloadChecksum := sha3_Sum256 c (gen_payload qg ! i), MessgaeNumber := of_nat i\<rparr>) = Inr b"
    by (auto split: sum.splits)
  with Cons.prems(1) qg'(1) obtain r where r: "make_codes c e (map int ks) qg' = Inr r"
    "(case r of Inl x \<Rightarrow> Inl x | Inr vs \<Rightarrow> Inr (ByteToV2RayURL e b # vs)) = Inr us"
    by (auto simp: go_bind_Inr_iff)
  then obtain vs where "r = Inr vs" "us = ByteToV2RayURL e b # vs" by (cases r) auto
  with Cons.IH [of qg' vs] r(1) qg'(2,3) b Cons.prems(2) show ?case by auto
qed simp

lemma proto_inverseD:
  "proto_inverse c e \<Longrightarrow> marshal_QR e m = Inr b \<Longrightarrow> qr_Payload m = Some x \<Longrightarrow> x \<noteq> [] \<Longrightarrow>
     b \<noteq> [] \<and> unmarshal_QR c b = Inr m"
  unfolding proto_inverse_def by blast

text \<open>The codes of an encoded message form a group in the receiver's sense.\<close>

lemma codes_form_group:
  assumes "group_of c msg gen" and "length (gen_payload gen) < 2 ^ 31" and "length msg < 2 ^ 31"
    and "make_codes c e (map int [0..<length (gen_payload gen)]) gen = Inr (Inr us)"
    and "legacy_silent c" and "base91_inverse c e" and "proto_inverse c e"
  shows "length us = length (gen_payload gen) \<and>
    qr_group c ((!) us) (sha3_Sum256 c msg) (length (gen_payload gen)) (needed gen) (length msg) ((!) (gen_payload gen))"
proof -
  let ?g = "length (gen_payload gen)" and ?p = "(!) (gen_payload gen)"
  let ?t = "group_template c msg ?g (needed gen)"
  have gen: "templ gen = ?t" "0 < needed gen" "needed gen \<le> ?g" "[] \<notin> set (gen_payload gen)"
    using assms(1) by (simp_all add: group_of_def)
  have "same_group (templ gen) ?t" by (simp add: gen(1) same_group_def)
  moreover have "set [0..<?g] \<subseteq> {..<?g}" by auto
  ultimately have all: "list_all2 (\<lambda>i u. \<exists>b. marshal_QR e
      (?t\<lparr>qr_Payload := Some (?p i), PayloadChecksum := sha3_Sum256 c (?p i), MessgaeNumber := of_nat i\<rparr>) = Inr b \<and>
      u = ByteToV2RayURL e b) [0..<?g] us"
    by (intro make_codes_ok [OF assms(4)])
  then have len: "length us = ?g" by (auto dest: list_all2_lengthD)
  have "\<not> fst (TryRender c (us ! i)) \<and>
      (\<exists>res. V2RayURLToByte c (us ! i) = Some res \<and>
        unmarshal_QR c res = Inr (segment c (sha3_Sum256 c msg) ?g (needed gen) (length msg) ?p i))"
    if "i < ?g" for i
  proof -
    have m: "?t\<lparr>qr_Payload := Some (?p i), PayloadChecksum := sha3_Sum256 c (?p i), MessgaeNumber := of_nat i\<rparr> =
        segment c (sha3_Sum256 c msg) ?g (needed gen) (length msg) ?p i"
      by (simp add: group_template_def segment_def)
    from list_all2_nthD [OF all, of i] that obtain b where b: "marshal_QR e
        (segment c (sha3_Sum256 c msg) ?g (needed gen) (length msg) ?p i) = Inr b" "us ! i = ByteToV2RayURL e b"
      by (auto simp: m)
    have "?p i \<noteq> []" using gen(4) that by (metis nth_mem)
    then have "b \<noteq> []" "unmarshal_QR c b = Inr (segment c (sha3_Sum256 c msg) ?g (needed gen) (length msg) ?p i)"
      using proto_inverseD [OF assms(7) b(1)] by (simp_all add: segment_def)
    moreover from this(1) have "V2RayURLToByte c (us ! i) = Some b"
      using assms(6) b(2)
      by (simp add: V2RayURLToByte_def ByteToV2RayURL_def strings_HasPrefix_def base91_inverse_def)
    moreover have "\<not> fst (TryRender c (us ! i))"
      using assms(5) b(2) by (simp add: legacy_silent_def ByteToV2RayURL_def)
    ultimately show ?thesis by blast
  qed
  with gen(2,3) assms(2,3) len show ?thesis by (simp add: qr_group_def)
qed

section \<open>The transfer\<close>

lemma int_upt: "map int [0..<n] = [0..int n - 1]"
  by (induction n) (simp_all add: upto_rec2)

lemma Unpack_Pack:
  assumes "PackV2RayConfigureIntoPackedFormB c e fname cont = Inr msg"
    and "gzip_inverse c e" and "proto_inverse c e"
  shows "\<exists>t. GuessConfigType fname = Some t \<and> msg \<noteq> [] \<and>
    UnpackV2RayConfB c msg = Inr (config_extension t, cont)"
proof -
  obtain t z where t: "GuessConfigType fname = Some t" "gzip_best e cont = Inr z"
    "marshal_Packed e \<lparr>ConfigType = t, pk_CheckSum = sha3_Sum256 c cont, pk_Payload = z, GzipCompressed = True\<rparr> = Inr msg"
    using assms(1) by (auto simp: PackV2RayConfigureIntoPackedFormB_def split: option.splits sum.splits)
  have "t \<noteq> Invaild" using t(1) by (auto simp: GuessConfigType_def split: if_splits)
  then have "msg \<noteq> []" "unmarshal_Packed c msg =
      Inr \<lparr>ConfigType = t, pk_CheckSum = sha3_Sum256 c cont, pk_Payload = z, GzipCompressed = True\<rparr>"
    using assms(3) t(3) unfolding proto_inverse_def by fastforce+
  moreover have "gunzip c z = Inr cont" using assms(2) t(2) by (simp add: gzip_inverse_def)
  ultimately show ?thesis using t(1) by (simp add: UnpackV2RayConfB_def)
qed

lemma Finish_corrupt:
  assumes "qd qs = Some d" and "\<not> legencyScanned qs" and "qd_Finish c d = Inr (Inr dec)"
    and "unmarshal_Packed c dec = Inr p" and "GzipCompressed p" and "gunzip c (pk_Payload p) = Inr x"
    and "sha3_Sum256 c x \<noteq> pk_CheckSum p"
  shows "Finish c name qs s = (qs\<lparr>qd := None\<rparr>, s, Inr False)"
proof -
  have "IsDecodeReady d" using assms(3) by (auto simp: qd_Finish_def split: if_splits)
  with assms show ?thesis by (auto simp: Finish_def finish_packed_def UnpackV2RayConfB_def)
qed

text \<open>
  C7. Transfer: a configuration file is packed, encoded and shown as a series of codes by the
  sender; when the receiver has scanned any of them, in any order and with any repetitions, as long
  as there are as many different ones as the encoder asks for (the one code of a small file, the
  number of its data segments otherwise), finishing writes a file beside the selected one, under the
  given name with the extension of the type the sender guessed from the file name, and its content
  is that of the file that was sent. A message whose content does not have the checksum it was packed
  with is dropped instead, and no file is touched.
\<close>

theorem qr_transfer:
  assumes "legacy_silent c" and "base91_inverse c e" and "gzip_inverse c e" and "proto_inverse c e"
    and "rs_recovers c e"
    and "PackV2RayConfigureIntoPackedFormB c e fname cont = Inr msg"
    and "EncodeToL2QR c e msg conf = Inr (Inr gen)"
    and "make_codes c e [0..TotalSegment gen - 1] gen = Inr (Inr us)"
    and "length msg < 2 ^ 31" and "TotalSegment gen < 2 ^ 31"
    and "set ks \<subseteq> {..<length us}" and "needed gen \<le> card (set ks)"
    and "qd qs = None" and "ScanReporter qs" and "\<not> legencyScanned qs" and "vctx qs = Some vc"
    and "GuessConfigType fname = Some t"
    and "GetConfigureFile vc s = Inr (vc', s', cf)"
    and "ioutil_WriteFile (path_Dir cf @ ''/'' @ name @ config_extension t) cont 384 s' = (s'', None)"
  shows "\<exists>q qs'. scan_codes c ad (map ((!) us) ks) (qs, []) = Some (Inr q) \<and>
    Finish c name (fst q) s = (qs', s'', Inr True) \<and> qd qs' = None \<and>
    ioutil_ReadFile s'' (path_Dir cf @ ''/'' @ name @ config_extension t) = Inr cont \<and>
    (\<forall>qs2 d dec p x. qd qs2 = Some d \<and> \<not> legencyScanned qs2 \<and> qd_Finish c d = Inr (Inr dec) \<and>
       unmarshal_Packed c dec = Inr p \<and> GzipCompressed p \<and> gunzip c (pk_Payload p) = Inr x \<and>
       sha3_Sum256 c x \<noteq> pk_CheckSum p \<longrightarrow> Finish c name qs2 s = (qs2\<lparr>qd := None\<rparr>, s, Inr False))"
proof -
  let ?g = "length (gen_payload gen)" and ?n = "needed gen" and ?p = "(!) (gen_payload gen)"
  have un: "msg \<noteq> []" "UnpackV2RayConfB c msg = Inr (config_extension t, cont)"
    using Unpack_Pack [OF assms(6,3,4)] assms(17) by auto
  have gen: "group_of c msg gen" by (rule EncodeToL2QR_group [OF assms(7,5) un(1) assms(10)])
  then have g: "TotalSegment gen = int ?g" "0 < ?n" "?n \<le> ?g" and rec: "recovers c msg ?n (gen_payload gen)"
    by (simp_all add: group_of_def)
  then have small: "?g < 2 ^ 31" using assms(10) by simp
  have "make_codes c e (map int [0..<?g]) gen = Inr (Inr us)"
    using assms(8) unfolding g(1) int_upt .
  note codes = codes_form_group [OF gen small assms(9) this assms(1,2,4)]
  have us: "length us = ?g" by (rule conjunct1 [OF codes])
  have grp: "qr_group c ((!) us) (sha3_Sum256 c msg) ?g ?n (length msg) ?p" by (rule conjunct2 [OF codes])
  have ks: "set ks \<subseteq> {..<?g}" using assms(11) unfolding us .
  have "ks \<noteq> []" using assms(12) g(2) by auto
  from scan_codes_all [OF grp ks this assms(13,14), of ad] obtain q where
    q: "scan_codes c ad (map ((!) us) ks) (qs, []) = Some (Inr q)"
    "scanned c (sha3_Sum256 c msg) ?g ?n (length msg) ?p (set ks) qs q"
    by blast
  then obtain d where d: "qd (fst q) = Some d"
    and pcs: "holds_pieces c (sha3_Sum256 c msg) ?g ?n (length msg) ?p (set ks) d"
    and qs: "vctx (fst q) = Some vc" "\<not> legencyScanned (fst q)"
    using assms(15,16) by (auto simp: scanned_def)
  have ready: "IsDecodeReady d" using pcs assms(12) by (simp add: holds_pieces_def IsDecodeReady_def)
  have "qd_Finish c d = Inr (Inr msg)"
    using qd_Finish_pieces [OF pcs g(2,3) small assms(9,12) ks] rec ks assms(12)
    by (cases "?g = 1") (auto simp: recovers_def)
  with d ready qs un(2) assms(18,19) have fin: "Finish c name (fst q) s =
      ((fst q)\<lparr>qd := None, vctx := Some vc'\<rparr>, s'', Inr True)"
    by (simp add: Finish_def finish_packed_def write_beside_def)
  have "qd ((fst q)\<lparr>qd := None, vctx := Some vc'\<rparr>) = None" by simp
  note this q(1) fin read_after_write [OF assms(19)]
  then show ?thesis
    by (intro exI [of _ q] exI [of _ "(fst q)\<lparr>qd := None, vctx := Some vc'\<rparr>"] conjI allI impI)
      (assumption | elim conjE, rule Finish_corrupt, assumption+)+
qed

section \<open>Instances\<close>

text \<open>
  Libraries that keep the laws: numbers in unary and strings with their length in the messages, a
  repetition code, a mark for compressed text.
\<close>

definition put_nat :: "nat \<Rightarrow> string" where
  "put_nat n = replicate n CHR ''1'' @ ''0''"

fun get_nat :: "string \<Rightarrow> nat \<times> string" where
  "get_nat [] = (0, [])"
| "get_nat (x # xs) = (if x = CHR ''1'' then (let (n, r) = get_nat xs in (Suc n, r)) else (0, xs))"

lemma get_put_nat [simp]: "get_nat (put_nat n @ r) = (n, r)"
  by (induction n) (simp_all add: put_nat_def)

lemma get_put_nat_end [simp]: "get_nat (put_nat n) = (n, [])"
  using get_put_nat [of n "[]"] by simp

lemma put_nat_Cons [simp]: "put_nat n \<noteq> []"
  by (simp add: put_nat_def)

definition put_str :: "string \<Rightarrow> string" where
  "put_str s = put_nat (length s) @ s"

definition get_str :: "string \<Rightarrow> string \<times> string" where
  "get_str b = (let (n, r) = get_nat b in (take n r, drop n r))"

lemma get_put_str [simp]: "get_str (put_str s @ r) = (s, r)"
  by (simp add: get_str_def put_str_def)

fun type_tag :: "config_type \<Rightarrow> nat" where
  "type_tag FullJsonFile = 1"
| "type_tag FullProto = 2"
| "type_tag SimpleProtoV1 = 3"
| "type_tag _ = 0"

definition tag_type :: "nat \<Rightarrow> config_type" where
  "tag_type n = (if n = 1 then FullJsonFile else if n = 2 then FullProto else SimpleProtoV1)"

definition rep_marshal_Packed :: "PackedConfig \<Rightarrow> unit + string" where
  "rep_marshal_Packed p =
     (if type_tag (ConfigType p) = 0 then Inl ()
      else Inr (put_nat (type_tag (ConfigType p)) @ put_str (pk_CheckSum p) @ put_str (pk_Payload p) @
             put_nat (if GzipCompressed p then 1 else 0)))"

definition rep_unmarshal_Packed :: "string \<Rightarrow> unit + PackedConfig" where
  "rep_unmarshal_Packed b =
     (let (t, b) = get_nat b; (k, b) = get_str b; (x, b) = get_str b; (z, b) = get_nat b
      in Inr \<lparr>ConfigType = tag_type t, pk_CheckSum = k, pk_Payload = x, GzipCompressed = (z = 1)\<rparr>)"

definition rep_marshal_QR :: "QRCode \<Rightarrow> unit + string" where
  "rep_marshal_QR m =
     (case qr_Payload m of
        None \<Rightarrow> Inl ()
      | Some x \<Rightarrow>
          if MessageSegType m < 0 then Inl ()
          else Inr (put_str (MsgChecksum m) @ put_nat (nat (MessageSegType m)) @ put_nat (unat (GroupCount m)) @
                 put_nat (unat (MessgaeNumber m)) @ put_str x @ put_str (PayloadChecksum m) @
                 put_nat (unat (OriginalSegmentNum m)) @ put_nat (unat (PayloadTotalSize m))))"

definition rep_unmarshal_QR :: "string \<Rightarrow> unit + QRCode" where
  "rep_unmarshal_QR b =
     (let (k, b) = get_str b; (t, b) = get_nat b; (g, b) = get_nat b; (i, b) = get_nat b; (x, b) = get_str b;
          (pk, b) = get_str b; (n, b) = get_nat b; (z, b) = get_nat b
      in Inr \<lparr>MsgChecksum = k, MessageSegType = int t, GroupCount = of_nat g, MessgaeNumber = of_nat i,
           qr_Payload = Some x, PayloadChecksum = pk, OriginalSegmentNum = of_nat n, PayloadTotalSize = of_nat z\<rparr>)"

definition rep_codec :: "unit codec" where
  "rep_codec = \<lparr>TryRender = (\<lambda>_. (False, [], None)), base91_Decode = (\<lambda>b. Some (rev b)),
     unmarshal_QR = rep_unmarshal_QR, sha3_Sum256 = take 1,
     rs_Reconstruct = (\<lambda>_ _ ps. case filter (\<lambda>p. p \<noteq> None) ps of [] \<Rightarrow> Inl () | p # _ \<Rightarrow> Inr [p]),
     rs_Join = (\<lambda>_ ps _. concat (map slice_bytes ps)),
     unmarshal_Packed = rep_unmarshal_Packed,
     gunzip = (\<lambda>z. case z of [] \<Rightarrow> Inl () | _ # x \<Rightarrow> Inr x)\<rparr>"

definition rep_lib :: "unit encoder_lib" where
  "rep_lib = \<lparr>gzip_best = (\<lambda>x. Inr (CHR ''z'' # x)), marshal_Packed = rep_marshal_Packed,
     marshal_QR = rep_marshal_QR, base91_Encode = rev,
     rs_Split = (\<lambda>ps rs msg. if 0 < ps \<and> 0 < rs then Inr (replicate (nat (ps + rs)) msg) else Inl ()),
     rs_Encode = (\<lambda>_ _ shards. shards), rs_Verify = (\<lambda>_ _ _. Inr True)\<rparr>"

lemma tag_type_tag: "type_tag t \<noteq> 0 \<Longrightarrow> tag_type (type_tag t) = t"
  by (cases t) (simp_all add: tag_type_def)

lemma rep_packed_inverse: "rep_marshal_Packed p = Inr b \<Longrightarrow> b \<noteq> [] \<and> rep_unmarshal_Packed b = Inr p"
  by (cases p) (auto simp: rep_marshal_Packed_def rep_unmarshal_Packed_def tag_type_tag split: if_splits)

lemma rep_qr_inverse: "rep_marshal_QR m = Inr b \<Longrightarrow> b \<noteq> [] \<and> rep_unmarshal_QR b = Inr m"
  by (cases m) (auto simp: rep_marshal_QR_def rep_unmarshal_QR_def split: option.splits if_splits)

lemma rep_pieces:
  assumes "S \<subseteq> {..<length all}" and "0 < card S" and "\<forall>x \<in> set all. x = msg"
  shows "\<exists>ps. filter (\<lambda>p. p \<noteq> None) (pieces (length all) ((!) all) S) = Some msg # ps"
proof -
  let ?f = "filter (\<lambda>p. p \<noteq> None) (pieces (length all) ((!) all) S)"
  obtain i where "i \<in> S" "i < length all" using assms(1,2) by (metis card_gt_0_iff ex_in_conv lessThan_iff subsetD)
  then have "Some (all ! i) \<in> set ?f" by (auto simp: pieces_def)
  then have ne: "?f \<noteq> []" by (metis empty_iff empty_set)
  then have "?f = hd ?f # tl ?f" by (metis list.collapse)
  moreover have "hd ?f \<in> set ?f" using ne by (rule hd_in_set)
  moreover have "\<forall>p \<in> set ?f. p = Some msg" using assms(3) by (auto simp: pieces_def)
  ultimately show ?thesis by metis
qed

lemma rep_laws:
  "legacy_silent rep_codec" "base91_inverse rep_codec rep_lib" "gzip_inverse rep_codec rep_lib"
  "proto_inverse rep_codec rep_lib" "rs_recovers rep_codec rep_lib"
proof -
  show "rs_recovers rep_codec rep_lib"
    unfolding rs_recovers_def Let_def
  proof (intro allI impI)
    fix ps rs msg shards
    assume "msg \<noteq> [] \<and> rs_Split rep_lib ps rs msg = Inr shards"
    then have ps: "msg \<noteq> []" "0 < ps" "0 < rs" "rs_Encode rep_lib ps rs shards = replicate (nat (ps + rs)) msg"
      by (auto simp: rep_lib_def split: if_splits)
    have "\<exists>got. rs_Reconstruct rep_codec ps rs (pieces (nat (ps + rs)) ((!) (replicate (nat (ps + rs)) msg)) S) = Inr got \<and>
        rs_Join rep_codec ps got (int (length msg)) = msg"
      if "S \<subseteq> {..<nat (ps + rs)}" "ps \<le> int (card S)" for S
      using rep_pieces [of S "replicate (nat (ps + rs)) msg" msg] that ps(2)
      by (auto simp: rep_codec_def slice_bytes_def)
    with ps show "0 < ps \<and> 0 < rs \<and> int (length (rs_Encode rep_lib ps rs shards)) = ps + rs \<and>
        [] \<notin> set (rs_Encode rep_lib ps rs shards) \<and>
        (\<forall>S\<subseteq>{..<length (rs_Encode rep_lib ps rs shards)}. ps \<le> int (card S) \<longrightarrow>
          (\<exists>got. rs_Reconstruct rep_codec ps rs
             (pieces (length (rs_Encode rep_lib ps rs shards)) ((!) (rs_Encode rep_lib ps rs shards)) S) = Inr got \<and>
             rs_Join rep_codec ps got (int (length msg)) = msg))"
      by simp
  qed
qed (auto simp: legacy_silent_def base91_inverse_def gzip_inverse_def proto_inverse_def rep_codec_def rep_lib_def
    dest: rep_packed_inverse rep_qr_inverse)

definition segments_conf :: QRGenConf where
  "segments_conf = \<lparr>MaxQrSize = 10, ForceReconstruct = False, ReconsConf = Some (\<lambda>n. 1)\<rparr>"

lemma demo_encoded:
  "\<exists>msg gen us. PackV2RayConfigureIntoPackedFormB rep_codec rep_lib ''a.json'' ''{}'' = Inr msg \<and>
     EncodeToL2QR rep_codec rep_lib msg segments_conf = Inr (Inr gen) \<and>
     make_codes rep_codec rep_lib [0..TotalSegment gen - 1] gen = Inr (Inr us) \<and>
     length msg = 14 \<and> TotalSegment gen = 3 \<and> length us = 3 \<and> needed gen = 2"
proof -
  have "(case PackV2RayConfigureIntoPackedFormB rep_codec rep_lib ''a.json'' ''{}'' of Inl _ \<Rightarrow> False
    | Inr msg \<Rightarrow> length msg = 14 \<and>
      (case EncodeToL2QR rep_codec rep_lib msg segments_conf of
         Inr (Inr gen) \<Rightarrow> TotalSegment gen = 3 \<and> needed gen = 2 \<and>
           (case make_codes rep_codec rep_lib [0..TotalSegment gen - 1] gen of
              Inr (Inr us) \<Rightarrow> length us = 3 | _ \<Rightarrow> False)
       | _ \<Rightarrow> False))"
    by code_simp
  then show ?thesis by (auto split: sum.splits)
qed

theorem qr_transfer_witness:
  "\<exists>msg gen us q qs' s'. PackV2RayConfigureIntoPackedFormB rep_codec rep_lib ''a.json'' ''{}'' = Inr msg \<and>
     EncodeToL2QR rep_codec rep_lib msg segments_conf = Inr (Inr gen) \<and>
     make_codes rep_codec rep_lib [0..TotalSegment gen - 1] gen = Inr (Inr us) \<and> length us = 3 \<and>
     scan_codes rep_codec False (map ((!) us) [2, 2, 0]) (demo_scan, []) = Some (Inr q) \<and>
     Finish rep_codec ''n'' (fst q) demo_dir = (qs', s', Inr True) \<and>
     ioutil_ReadFile s' (path_Dir ''/c/x.json'' @ ''/'' @ ''n'' @ ''.json'') = Inr ''{}''"
proof -
  obtain msg gen us where m: "PackV2RayConfigureIntoPackedFormB rep_codec rep_lib ''a.json'' ''{}'' = Inr msg"
    "EncodeToL2QR rep_codec rep_lib msg segments_conf = Inr (Inr gen)"
    "make_codes rep_codec rep_lib [0..TotalSegment gen - 1] gen = Inr (Inr us)"
    and len: "length msg = 14" "TotalSegment gen = 3" "length us = 3" "needed gen = 2"
    using demo_encoded by blast
  have qs: "qd demo_scan = None" "ScanReporter demo_scan" "\<not> legencyScanned demo_scan"
    "vctx demo_scan = Some demo_context"
    by (simp_all add: demo_scan_def)
  have t: "GuessConfigType ''a.json'' = Some FullJsonFile" "config_extension FullJsonFile = ''.json''"
    by code_simp+
  have small: "length msg < 2 ^ 31" "TotalSegment gen < 2 ^ 31" "set [2, 2, 0] \<subseteq> {..<length us}"
    "needed gen \<le> card (set [2, 2, 0 :: nat])"
    using len by auto
  have w: "ioutil_WriteFile (path_Dir ''/c/x.json'' @ ''/'' @ ''n'' @ config_extension FullJsonFile) ''{}'' 384 demo_dir =
      (set_node ''/c/n.json'' (File ''{}'' 384) demo_dir, None)"
    unfolding t(2) by (rule demo_write)
  from qr_transfer [OF rep_laws m small qs t(1) demo_configure_file w, of False] m len(3) t(2)
  show ?thesis by metis
qed

end
