(* ===== verification/Spec2Isabelle.thy ===== *)
theory Spec2Isabelle
  imports Assets Stat StabilityAssist PointProps NetInterrupt ConvertProps QREncode
begin

text \<open>
  A model of AndroidLibV2ray, the Go library that runs the V2Ray core inside an Android
  application, and what can be proved of it.

  The program and its theories. The application drives one \<open>V2RayPoint\<close> (\<open>interact.go\<close>). Its main
  loop loads the configuration file selected in a \<open>V2RayContext\<close> (\<open>context.go\<close>), converts the part
  of it that is for this library (\<open>configure/jsonConvert\<close>), exports the shipped binaries
  (\<open>shippedBinarys/firstrun.go\<close>), starts the core, keeps helper processes alive
  (\<open>Process/Escort\<close>), sets the VPN service up (\<open>VPN\<close>) and runs a script (\<open>Process/UpDownScript\<close>);
  the stop loop takes all of it down. Beside that it imports configurations from QR codes
  (\<open>qrscan.go\<close>), watches the connection (\<open>sas.go\<close>), restarts the core when the network changes and
  reads traffic counters (\<open>stat.go\<close>).

  \<^item> \<open>Prelude\<close>: panics as the left side of a sum (\<open>go\<close>), bounds-checked indexing and slicing, loops
    that may panic, the iteration sequences of Go maps (\<open>ranges\<close>).
  \<^item> \<open>Systems\<close>: labelled systems and their invariants as locales, interpreted for the escorts, the
    connection monitor and the network interruptions.
  \<^item> \<open>GoLib\<close>, \<open>Words\<close>, \<open>GoFS\<close>: the parts of the Go standard library the program uses: \<open>strings\<close>,
    \<open>strconv\<close>, \<open>os.Expand\<close>, \<open>path\<close>, machine integers, and a file system with links and denied paths.
  \<^item> \<open>CoreStatus\<close>: \<open>CoreI/Status.go\<close>, \<open>CoreI/Versions.go\<close>, \<open>libv2ray.go\<close>, \<open>developer.go\<close>,
    \<open>crossLangutli.go\<close>.
  \<^item> \<open>Assets\<close>: \<open>assertOverwrite.go\<close> and the file reader \<open>NewV2RayPoint\<close> gives to the core; an override
    table as a locale and its interpretation.
  \<^item> \<open>Configure\<close>: the messages of \<open>configure/LibV2Ray.proto\<close>.
  \<^item> \<open>Environment\<close>: \<open>Process/environment.go\<close> and \<open>envToMap\<close>; what a child's environment means.
  \<^item> \<open>JsonModel\<close>, \<open>JsonConvert\<close>, \<open>ConvertProps\<close>: JSON trees with the accessors of simplejson, the
    converter \<open>configure/jsonConvert\<close>, and its properties.
  \<^item> \<open>ConfContext\<close>: \<open>context.go\<close>, with the property store as a locale.
  \<^item> \<open>Escort\<close>, \<open>EscortSystem\<close>: \<open>Process/Escort/escort.go\<close>, first the restart loop as a function, then
    all goroutines of an object as a labelled system, with the processes it has killed and whether
    it was given a status: the escorts of the root mode are not, and panic when they build the
    environment; the escort of the tunnel process is.
  \<^item> \<open>Scripts\<close>: \<open>Process/UpDownScript/runscript.go\<close>.
  \<^item> \<open>Stat\<close>: \<open>stat.go\<close>.
  \<^item> \<open>ZoneId\<close>, \<open>Dialer\<close>, \<open>VpnService\<close>: package \<open>VPN\<close>: the zone parser on machine integers, the
    protected dialer with the DNS loop fix, the service itself.
  \<^item> \<open>FirstRun\<close>: \<open>shippedBinarys/firstrun.go\<close>.
  \<^item> \<open>StabilityAssist\<close>: \<open>sas.go\<close> as a labelled system.
  \<^item> \<open>QRScan\<close>, \<open>QREncode\<close>: \<open>qrscan.go\<close> with the decoder of V2RayConfigureFileUtil, and the packer and
    encoder of the sending side.
  \<^item> \<open>Point\<close>, \<open>PointProps\<close>: \<open>interact.go\<close> without \<open>NetworkInterrupted\<close>, which is \<open>NetInterrupt\<close>:
    there the accesses of the main loop, the stop loop and the interruptions to the shared variables
    are steps of their own, \<open>Point\<close> has the two loops as wholes.

  Conventions. A struct is a record with the fields of the source (a prefix where two structs share
  a name), a pointer that may be nil an option, an interface value that is only tested for nil a
  truth value. A method is a function of its receiver and of what it reads of the world, and gives
  the receiver and the world back; what it does to the outside is a list of events. A panic is
  \<open>Inl\<close> of its cause and ends the process; an error returned is a value. Several objects hold a
  pointer to one status: \<open>Point\<close> keeps the status once and hands it to a component when it calls it.
  Goroutines are labelled systems: a label is an atomic step (a send and its receive together), and
  a run is any sequence of enabled steps. A call that blocks until goroutines have moved takes the
  sequence of their steps as an argument and says whether it has returned (\<open>stop\<close>).

  What the lemmas show. The invariants (\<open>calm_inv\<close>, \<open>statusless\<close>, \<open>waits_ok\<close>, \<open>quiet_inv\<close>,
  \<open>point_reach\<close>) hold in every reachable state, without bounds; where they need a guard (no alarm, no
  interruption while the main loop starts) the guard is a definition of its own, and the behaviour
  outside it is stated as well. Round trips: a configuration and its JSON form, the
  environment list and the map, a selected file across contexts, a configuration file packed, shown as QR codes and
  scanned.
  Whole behaviours: the export of the binaries, one session of the point server. Errors: each way
  the program panics, blocks or loses something that the models show is stated as a theorem too.

  Bounds and fuel. The restart loop has the budget of the source, 42, as its recursion argument, and
  symbolic links are followed 40 times as the kernel does. \<open>OnNewScanResult\<close> may not return and is a
  partial function: \<open>None\<close> means that it never does. All other recursions are proved to end. Machine
  integers are words where they are computed with (\<open>dtoi\<close>, the QR code numbers); \<open>strconv.Atoi\<close> has
  the width of the device as an argument.

  Parameters. The V2Ray core, the JSON text decoder and the comment stripper, protocol buffer
  decoding, base91, SHA-3, gzip and Reed-Solomon, the generated asset functions, the resolver and the
  socket calls, the Java side and the operating system's part in running processes are arguments of
  the definitions; what a theorem relies on of them is a hypothesis of that theorem (for the transfer
  by QR codes: that decoding inverts encoding, and that enough shards give the message back).
  Paths are byte strings; a caller's names are plain path elements where two files are told apart.

  Not modelled: logging and debug output, the passing of time, the exact text of errors that are
  only tested for being there, the HTTP client of the connection monitor (its outcome is a label),
  \<open>configureFileutli.go\<close> (a comment), the remaining vendored packages, and data races below the
  granularity of the steps.
\<close>

end
